(* ===== verification/Prelude.thy ===== *)
theory Prelude
  imports Main "HOL-Library.Word"
begin

text \<open>
  Shared layer of the development: the fault-or-state monad in which the C functions are
  written, its weakest-precondition calculus (collection \<open>wp\<close>), the few C library string
  functions the program calls, and generic lemmas on lists and options.

  A C function that reads or writes the heap is a function from a state to either a
  \<open>fault\<close> (what C leaves undefined or what aborts the process) or a result with the
  next state. Loops are recursion over lists. The predicate \<open>wp m Q s\<close> says that \<open>m\<close>,
  run from \<open>s\<close>, does not fault and ends in a result and a state that satisfy \<open>Q\<close>.
\<close>

section \<open>Faults and the monad\<close>

datatype fault =
    Use_after_free     \<comment> \<open>access to freed (or never allocated) memory\<close>
  | Null_deref         \<comment> \<open>access through a NULL data pointer\<close>
  | Null_call          \<comment> \<open>call through a NULL function pointer\<close>
  | Bad_cast           \<comment> \<open>a call leg read as the other kind of leg\<close>
  | Assert_failed      \<comment> \<open>OSMO_ASSERT\<close>
  | Out_of_depth       \<comment> \<open>the recursion bound of the model was too small\<close>

type_synonym ('s, 'a) M = "'s \<Rightarrow> fault + 'a \<times> 's"

definition mret :: "'a \<Rightarrow> ('s, 'a) M" where
  "mret a = (\<lambda>s. Inr (a, s))"

definition mfail :: "fault \<Rightarrow> ('s, 'a) M" where
  "mfail f = (\<lambda>s. Inl f)"

definition mbind :: "('s, 'a) M \<Rightarrow> ('a \<Rightarrow> ('s, 'b) M) \<Rightarrow> ('s, 'b) M" where
  "mbind m f = (\<lambda>s. case m s of Inl e \<Rightarrow> Inl e | Inr (a, s') \<Rightarrow> f a s')"

definition mthen :: "('s, 'a) M \<Rightarrow> ('s, 'b) M \<Rightarrow> ('s, 'b) M" where
  "mthen m n = mbind m (\<lambda>_. n)"

definition mget :: "('s \<Rightarrow> 'a) \<Rightarrow> ('s, 'a) M" where
  "mget f = (\<lambda>s. Inr (f s, s))"

definition mmod :: "('s \<Rightarrow> 's) \<Rightarrow> ('s, unit) M" where
  "mmod f = (\<lambda>s. Inr ((), f s))"

definition mwhen :: "bool \<Rightarrow> ('s, unit) M \<Rightarrow> ('s, unit) M" where
  "mwhen b m = (if b then m else mret ())"

definition massert :: "bool \<Rightarrow> ('s, unit) M" where
  "massert b = (if b then mret () else mfail Assert_failed)"

text \<open>A block of statements, run in order.\<close>

fun mseq :: "('s, unit) M list \<Rightarrow> ('s, unit) M" where
  "mseq [] = mret ()"
| "mseq (m # ms) = mthen m (mseq ms)"

section \<open>Weakest preconditions\<close>

definition wp :: "('s, 'a) M \<Rightarrow> ('a \<Rightarrow> 's \<Rightarrow> bool) \<Rightarrow> 's \<Rightarrow> bool" where
  "wp m Q s = (case m s of Inl e \<Rightarrow> False | Inr (a, s') \<Rightarrow> Q a s')"

named_theorems wp \<open>weakest preconditions of the monad's and the heap's operations\<close>

lemma wp_mret [wp]: "wp (mret a) Q s = Q a s"
  by (simp add: wp_def mret_def)

lemma wp_mfail [wp]: "wp (mfail e) Q s = False"
  by (simp add: wp_def mfail_def)

lemma wp_mbind [wp]: "wp (mbind m f) Q s = wp m (\<lambda>a. wp (f a) Q) s"
  by (simp add: wp_def mbind_def split: sum.splits prod.splits)

lemma wp_mthen [wp]: "wp (mthen m n) Q s = wp m (\<lambda>_. wp n Q) s"
  by (simp add: mthen_def wp_mbind)

lemma wp_mret_fun: "wp (mret a) Q = Q a"
  by (rule ext) (simp add: wp)

lemma wp_mget [wp]: "wp (mget f) Q s = Q (f s) s"
  by (simp add: wp_def mget_def)

lemma wp_mmod [wp]: "wp (mmod f) Q s = Q () (f s)"
  by (simp add: wp_def mmod_def)

lemma wp_mwhen [wp]: "wp (mwhen b m) Q s = (if b then wp m Q s else Q () s)"
  by (simp add: mwhen_def wp_mret)

lemma wp_massert [wp]: "wp (massert b) Q s = (b \<and> Q () s)"
  by (simp add: massert_def wp_mret wp_mfail)

lemma wp_mseq_Nil [wp]: "wp (mseq []) Q s = Q () s"
  by (simp add: wp_mret)

lemma wp_mseq_Cons [wp]: "wp (mseq (m # ms)) Q s = wp m (\<lambda>_. wp (mseq ms) Q) s"
  by (simp add: wp_mthen)

lemma wp_if [wp]: "wp (if b then m else n) Q s = (if b then wp m Q s else wp n Q s)"
  by simp

lemma wp_case_option [wp]:
  "wp (case x of None \<Rightarrow> m | Some a \<Rightarrow> f a) Q s =
     (case x of None \<Rightarrow> wp m Q s | Some a \<Rightarrow> wp (f a) Q s)"
  by (simp split: option.splits)

text \<open>How \<open>wp\<close> relates to running: a triple is a run that ends well.\<close>

lemma wp_iff_run: "wp m Q s \<longleftrightarrow> (\<exists>a s'. m s = Inr (a, s') \<and> Q a s')"
  by (auto simp: wp_def split: sum.splits)

lemma wp_run: "m s = Inr (a, s') \<Longrightarrow> wp m Q s = Q a s'"
  by (simp add: wp_def)

lemma wp_mono: "wp m Q s \<Longrightarrow> (\<And>a s'. Q a s' \<Longrightarrow> R a s') \<Longrightarrow> wp m R s"
  by (auto simp: wp_iff_run)

lemma wp_conj: "wp m Q s \<Longrightarrow> wp m R s \<Longrightarrow> wp m (\<lambda>a s'. Q a s' \<and> R a s') s"
  by (auto simp: wp_iff_run)

text \<open>Running a composed statement forwards, for concrete states and for fault paths.\<close>

lemma mbind_Inl [simp]: "m s = Inl e \<Longrightarrow> mbind m f s = Inl e"
  by (simp add: mbind_def)

lemma mbind_Inr: "m s = Inr (a, s') \<Longrightarrow> mbind m f s = f a s'"
  by (simp add: mbind_def)

lemmas monad_defs = mret_def mfail_def mbind_def mthen_def mget_def mmod_def mwhen_def massert_def

section \<open>Strings of the C library\<close>

text \<open>
  A C string is the list of its characters before the terminating NUL. Copying into a buffer
  of \<open>n\<close> bytes with \<open>strlcpy\<close> or \<open>snprintf\<close> keeps at most \<open>n - 1\<close> of them;
  the conversion \<open>%.ns\<close> of printf keeps at most \<open>n\<close>.
\<close>

definition strlcpy :: "nat \<Rightarrow> string \<Rightarrow> string" where
  "strlcpy n s = take (n - 1) s"

definition prec_s :: "nat \<Rightarrow> string \<Rightarrow> string" where
  "prec_s n s = take n s"

lemma length_strlcpy [simp]: "length (strlcpy n s) \<le> n - 1"
  by (simp add: strlcpy_def)

lemma strlcpy_id: "length s < n \<Longrightarrow> strlcpy n s = s"
  by (simp add: strlcpy_def)

lemma strlcpy_idem [simp]: "strlcpy n (strlcpy n s) = strlcpy n s"
  by (simp add: strlcpy_def)

lemma strlcpy_Nil_iff: "1 < n \<Longrightarrow> strlcpy n s = [] \<longleftrightarrow> s = []"
  by (auto simp: strlcpy_def)

definition tolower :: "char \<Rightarrow> char" where
  "tolower c = (let k = of_char c :: nat in
     if 65 \<le> k \<and> k \<le> 90 then char_of (k + 32) else c)"

text \<open>\<open>strcasecmp(a, b) == 0\<close>\<close>

definition strcaseeq :: "string \<Rightarrow> string \<Rightarrow> bool" where
  "strcaseeq a b = (map tolower a = map tolower b)"

lemma strcaseeq_refl [simp]: "strcaseeq a a"
  by (simp add: strcaseeq_def)

lemma strcaseeq_sym: "strcaseeq a b \<Longrightarrow> strcaseeq b a"
  by (simp add: strcaseeq_def)

text \<open>The conversions \<open>%u\<close> and \<open>%d\<close>, and \<open>atoi\<close> of a string.\<close>

definition digit :: "nat \<Rightarrow> char" where
  "digit k = char_of (48 + k)"

lemma digit_simps [simp]:
  "digit 0 = CHR ''0''"
  "digit 1 = CHR ''1''"
  "digit 2 = CHR ''2''"
  "digit 3 = CHR ''3''"
  "digit 4 = CHR ''4''"
  "digit 5 = CHR ''5''"
  "digit 6 = CHR ''6''"
  "digit 7 = CHR ''7''"
  "digit 8 = CHR ''8''"
  "digit 9 = CHR ''9''"
  by code_simp+

fun fmt_u :: "nat \<Rightarrow> string" where
  "fmt_u n = (if n < 10 then [digit n] else fmt_u (n div 10) @ [digit (n mod 10)])"

declare fmt_u.simps [simp del]

definition fmt_d :: "int \<Rightarrow> string" where
  "fmt_d i = (if i < 0 then CHR ''-'' # fmt_u (nat (- i)) else fmt_u (nat i))"

definition is_digit :: "char \<Rightarrow> bool" where
  "is_digit c = (48 \<le> (of_char c :: nat) \<and> (of_char c :: nat) \<le> 57)"

definition digits_val :: "string \<Rightarrow> nat" where
  "digits_val s = foldl (\<lambda>v c. 10 * v + (of_char c - 48)) 0 s"

definition atoi :: "string \<Rightarrow> int" where
  "atoi s = (case s of
       [] \<Rightarrow> 0
     | c # cs \<Rightarrow> (if c = CHR ''-'' then - int (digits_val (takeWhile is_digit cs))
                 else if c = CHR ''+'' then int (digits_val (takeWhile is_digit cs))
                 else int (digits_val (takeWhile is_digit s))))"

lemma of_char_digit [simp]: "k < 10 \<Longrightarrow> of_char (digit k) = (48 + k :: nat)"
  by (simp add: digit_def)

lemma is_digit_digit [simp]: "k < 10 \<Longrightarrow> is_digit (digit k)"
  by (simp add: is_digit_def)

lemma fmt_u_digits: "list_all is_digit (fmt_u n)"
proof (induction n rule: fmt_u.induct)
  case (1 n)
  then show ?case by (subst fmt_u.simps) simp
qed

lemma digits_val_snoc [simp]: "digits_val (s @ [c]) = 10 * digits_val s + (of_char c - 48)"
  by (simp add: digits_val_def)

lemma digits_val_fmt_u [simp]: "digits_val (fmt_u n) = n"
proof (induction n rule: fmt_u.induct)
  case (1 n)
  show ?case
  proof (cases "n < 10")
    case True
    then show ?thesis by (simp add: fmt_u.simps [of n] digits_val_def)
  next
    case False
    with 1 show ?thesis by (simp add: fmt_u.simps [of n])
  qed
qed

lemma fmt_u_not_Nil [simp]: "fmt_u n \<noteq> []"
  by (subst fmt_u.simps) simp

lemma atoi_fmt_d: "atoi (fmt_d i) = i"
proof -
  have tw: "takeWhile is_digit (fmt_u n) = fmt_u n" for n
    using fmt_u_digits [of n] by (simp add: list_all_iff takeWhile_eq_all_conv)
  have hd: "is_digit c \<Longrightarrow> c \<noteq> CHR ''-'' \<and> c \<noteq> CHR ''+''" for c
    by (auto simp: is_digit_def)
  show ?thesis
  proof (cases "i < 0")
    case True
    then show ?thesis by (simp add: fmt_d_def atoi_def tw)
  next
    case False
    obtain c cs where cs: "fmt_u (nat i) = c # cs"
      by (cases "fmt_u (nat i)") auto
    have c: "is_digit c" and "list_all is_digit cs"
      using fmt_u_digits [of "nat i"] by (simp_all add: cs)
    then have "takeWhile is_digit cs = cs" by (simp add: list_all_iff takeWhile_eq_all_conv)
    with c hd [OF c] show ?thesis
      using False digits_val_fmt_u [of "nat i"] by (simp add: fmt_d_def atoi_def cs del: takeWhile_eq_all_conv)
  qed
qed

lemma length_fmt_u: "n < 10 ^ k \<Longrightarrow> 0 < k \<Longrightarrow> length (fmt_u n) \<le> k"
proof (induction n arbitrary: k rule: fmt_u.induct)
  case (1 n)
  show ?case
  proof (cases "n < 10")
    case True
    with 1 show ?thesis by (simp add: fmt_u.simps [of n])
  next
    case False
    with 1 obtain j where k: "k = Suc j" by (cases k) auto
    with 1 False have "n div 10 < 10 ^ j" "0 < j"
      by (auto simp: less_mult_imp_div_less mult.commute intro: ccontr)
    with 1 False k show ?thesis by (simp add: fmt_u.simps [of n])
  qed
qed

end
