(* ===== verification/Mncc_Protocol.thy ===== *)
theory Mncc_Protocol
  imports Prelude
begin

text \<open>
  The MNCC protocol of \<open>src/src/mncc_protocol.h\<close>: message types, field flags and the three
  message structures the connector exchanges with the MSC. The sub-structures that the header
  takes from libosmocore are records of the members this program reads or writes; members it
  neither reads nor writes (always zero in what it sends) are left out. Character arrays hold
  the string up to its terminating NUL.
\<close>

type_synonym u8 = "8 word"
type_synonym u16 = "16 word"
type_synonym u32 = "32 word"

unbundle bit_operations_syntax

section \<open>Message types, frame types and field flags\<close>

definition MNCC_SETUP_REQ :: u32 where [simp]: "MNCC_SETUP_REQ = 257" \<comment> \<open>0x0101\<close>
definition MNCC_SETUP_IND :: u32 where [simp]: "MNCC_SETUP_IND = 258" \<comment> \<open>0x0102\<close>
definition MNCC_SETUP_RSP :: u32 where [simp]: "MNCC_SETUP_RSP = 259" \<comment> \<open>0x0103\<close>
definition MNCC_SETUP_CNF :: u32 where [simp]: "MNCC_SETUP_CNF = 260" \<comment> \<open>0x0104\<close>
definition MNCC_SETUP_COMPL_REQ :: u32 where [simp]: "MNCC_SETUP_COMPL_REQ = 261" \<comment> \<open>0x0105\<close>
definition MNCC_SETUP_COMPL_IND :: u32 where [simp]: "MNCC_SETUP_COMPL_IND = 262" \<comment> \<open>0x0106\<close>
definition MNCC_CALL_CONF_IND :: u32 where [simp]: "MNCC_CALL_CONF_IND = 263" \<comment> \<open>0x0107\<close>
definition MNCC_CALL_PROC_REQ :: u32 where [simp]: "MNCC_CALL_PROC_REQ = 264" \<comment> \<open>0x0108\<close>
definition MNCC_PROGRESS_REQ :: u32 where [simp]: "MNCC_PROGRESS_REQ = 265" \<comment> \<open>0x0109\<close>
definition MNCC_ALERT_REQ :: u32 where [simp]: "MNCC_ALERT_REQ = 266" \<comment> \<open>0x010a\<close>
definition MNCC_ALERT_IND :: u32 where [simp]: "MNCC_ALERT_IND = 267" \<comment> \<open>0x010b\<close>
definition MNCC_NOTIFY_REQ :: u32 where [simp]: "MNCC_NOTIFY_REQ = 268" \<comment> \<open>0x010c\<close>
definition MNCC_NOTIFY_IND :: u32 where [simp]: "MNCC_NOTIFY_IND = 269" \<comment> \<open>0x010d\<close>
definition MNCC_DISC_REQ :: u32 where [simp]: "MNCC_DISC_REQ = 270" \<comment> \<open>0x010e\<close>
definition MNCC_DISC_IND :: u32 where [simp]: "MNCC_DISC_IND = 271" \<comment> \<open>0x010f\<close>
definition MNCC_REL_REQ :: u32 where [simp]: "MNCC_REL_REQ = 272" \<comment> \<open>0x0110\<close>
definition MNCC_REL_IND :: u32 where [simp]: "MNCC_REL_IND = 273" \<comment> \<open>0x0111\<close>
definition MNCC_REL_CNF :: u32 where [simp]: "MNCC_REL_CNF = 274" \<comment> \<open>0x0112\<close>
definition MNCC_FACILITY_REQ :: u32 where [simp]: "MNCC_FACILITY_REQ = 275" \<comment> \<open>0x0113\<close>
definition MNCC_FACILITY_IND :: u32 where [simp]: "MNCC_FACILITY_IND = 276" \<comment> \<open>0x0114\<close>
definition MNCC_START_DTMF_IND :: u32 where [simp]: "MNCC_START_DTMF_IND = 277" \<comment> \<open>0x0115\<close>
definition MNCC_START_DTMF_RSP :: u32 where [simp]: "MNCC_START_DTMF_RSP = 278" \<comment> \<open>0x0116\<close>
definition MNCC_START_DTMF_REJ :: u32 where [simp]: "MNCC_START_DTMF_REJ = 279" \<comment> \<open>0x0117\<close>
definition MNCC_STOP_DTMF_IND :: u32 where [simp]: "MNCC_STOP_DTMF_IND = 280" \<comment> \<open>0x0118\<close>
definition MNCC_STOP_DTMF_RSP :: u32 where [simp]: "MNCC_STOP_DTMF_RSP = 281" \<comment> \<open>0x0119\<close>
definition MNCC_MODIFY_REQ :: u32 where [simp]: "MNCC_MODIFY_REQ = 282" \<comment> \<open>0x011a\<close>
definition MNCC_MODIFY_IND :: u32 where [simp]: "MNCC_MODIFY_IND = 283" \<comment> \<open>0x011b\<close>
definition MNCC_MODIFY_RSP :: u32 where [simp]: "MNCC_MODIFY_RSP = 284" \<comment> \<open>0x011c\<close>
definition MNCC_MODIFY_CNF :: u32 where [simp]: "MNCC_MODIFY_CNF = 285" \<comment> \<open>0x011d\<close>
definition MNCC_MODIFY_REJ :: u32 where [simp]: "MNCC_MODIFY_REJ = 286" \<comment> \<open>0x011e\<close>
definition MNCC_HOLD_IND :: u32 where [simp]: "MNCC_HOLD_IND = 287" \<comment> \<open>0x011f\<close>
definition MNCC_HOLD_CNF :: u32 where [simp]: "MNCC_HOLD_CNF = 288" \<comment> \<open>0x0120\<close>
definition MNCC_HOLD_REJ :: u32 where [simp]: "MNCC_HOLD_REJ = 289" \<comment> \<open>0x0121\<close>
definition MNCC_RETRIEVE_IND :: u32 where [simp]: "MNCC_RETRIEVE_IND = 290" \<comment> \<open>0x0122\<close>
definition MNCC_RETRIEVE_CNF :: u32 where [simp]: "MNCC_RETRIEVE_CNF = 291" \<comment> \<open>0x0123\<close>
definition MNCC_RETRIEVE_REJ :: u32 where [simp]: "MNCC_RETRIEVE_REJ = 292" \<comment> \<open>0x0124\<close>
definition MNCC_USERINFO_REQ :: u32 where [simp]: "MNCC_USERINFO_REQ = 293" \<comment> \<open>0x0125\<close>
definition MNCC_USERINFO_IND :: u32 where [simp]: "MNCC_USERINFO_IND = 294" \<comment> \<open>0x0126\<close>
definition MNCC_REJ_REQ :: u32 where [simp]: "MNCC_REJ_REQ = 295" \<comment> \<open>0x0127\<close>
definition MNCC_REJ_IND :: u32 where [simp]: "MNCC_REJ_IND = 296" \<comment> \<open>0x0128\<close>
definition MNCC_BRIDGE :: u32 where [simp]: "MNCC_BRIDGE = 512" \<comment> \<open>0x0200\<close>
definition MNCC_FRAME_RECV :: u32 where [simp]: "MNCC_FRAME_RECV = 513" \<comment> \<open>0x0201\<close>
definition MNCC_FRAME_DROP :: u32 where [simp]: "MNCC_FRAME_DROP = 514" \<comment> \<open>0x0202\<close>
definition MNCC_LCHAN_MODIFY :: u32 where [simp]: "MNCC_LCHAN_MODIFY = 515" \<comment> \<open>0x0203\<close>
definition MNCC_RTP_CREATE :: u32 where [simp]: "MNCC_RTP_CREATE = 516" \<comment> \<open>0x0204\<close>
definition MNCC_RTP_CONNECT :: u32 where [simp]: "MNCC_RTP_CONNECT = 517" \<comment> \<open>0x0205\<close>
definition MNCC_RTP_FREE :: u32 where [simp]: "MNCC_RTP_FREE = 518" \<comment> \<open>0x0206\<close>
definition GSM_TCHF_FRAME :: u32 where [simp]: "GSM_TCHF_FRAME = 768" \<comment> \<open>0x0300\<close>
definition GSM_TCHF_FRAME_EFR :: u32 where [simp]: "GSM_TCHF_FRAME_EFR = 769" \<comment> \<open>0x0301\<close>
definition GSM_TCHH_FRAME :: u32 where [simp]: "GSM_TCHH_FRAME = 770" \<comment> \<open>0x0302\<close>
definition GSM_TCH_FRAME_AMR :: u32 where [simp]: "GSM_TCH_FRAME_AMR = 771" \<comment> \<open>0x0303\<close>
definition GSM_BAD_FRAME :: u32 where [simp]: "GSM_BAD_FRAME = 1023" \<comment> \<open>0x03ff\<close>
definition MNCC_SOCKET_HELLO :: u32 where [simp]: "MNCC_SOCKET_HELLO = 1024" \<comment> \<open>0x0400\<close>
definition MNCC_F_BEARER_CAP :: u32 where [simp]: "MNCC_F_BEARER_CAP = 1" \<comment> \<open>0x0001\<close>
definition MNCC_F_CALLED :: u32 where [simp]: "MNCC_F_CALLED = 2" \<comment> \<open>0x0002\<close>
definition MNCC_F_CALLING :: u32 where [simp]: "MNCC_F_CALLING = 4" \<comment> \<open>0x0004\<close>
definition MNCC_F_REDIRECTING :: u32 where [simp]: "MNCC_F_REDIRECTING = 8" \<comment> \<open>0x0008\<close>
definition MNCC_F_CONNECTED :: u32 where [simp]: "MNCC_F_CONNECTED = 16" \<comment> \<open>0x0010\<close>
definition MNCC_F_CAUSE :: u32 where [simp]: "MNCC_F_CAUSE = 32" \<comment> \<open>0x0020\<close>
definition MNCC_F_USERUSER :: u32 where [simp]: "MNCC_F_USERUSER = 64" \<comment> \<open>0x0040\<close>
definition MNCC_F_PROGRESS :: u32 where [simp]: "MNCC_F_PROGRESS = 128" \<comment> \<open>0x0080\<close>
definition MNCC_F_EMERGENCY :: u32 where [simp]: "MNCC_F_EMERGENCY = 256" \<comment> \<open>0x0100\<close>
definition MNCC_F_FACILITY :: u32 where [simp]: "MNCC_F_FACILITY = 512" \<comment> \<open>0x0200\<close>
definition MNCC_F_SSVERSION :: u32 where [simp]: "MNCC_F_SSVERSION = 1024" \<comment> \<open>0x0400\<close>
definition MNCC_F_CCCAP :: u32 where [simp]: "MNCC_F_CCCAP = 2048" \<comment> \<open>0x0800\<close>
definition MNCC_F_KEYPAD :: u32 where [simp]: "MNCC_F_KEYPAD = 4096" \<comment> \<open>0x1000\<close>
definition MNCC_F_SIGNAL :: u32 where [simp]: "MNCC_F_SIGNAL = 8192" \<comment> \<open>0x2000\<close>
definition MNCC_F_GCR :: u32 where [simp]: "MNCC_F_GCR = 16384" \<comment> \<open>0x4000\<close>
definition MNCC_SOCK_VERSION :: u32 where [simp]: "MNCC_SOCK_VERSION = 8" \<comment> \<open>8\<close>

definition mncc_is_data_frame :: "u32 \<Rightarrow> bool" where
  "mncc_is_data_frame msg_type =
     (msg_type = GSM_TCHF_FRAME \<or> msg_type = GSM_TCHF_FRAME_EFR \<or> msg_type = GSM_TCHH_FRAME
      \<or> msg_type = GSM_TCH_FRAME_AMR \<or> msg_type = GSM_BAD_FRAME)"

text \<open>Values of the enumerations that the program uses from the GSM headers (3GPP TS 04.08
  and 03.40) and from the socket headers.\<close>

definition GSM340_PLAN_UNKNOWN :: int where [simp]: "GSM340_PLAN_UNKNOWN = 0"
definition GSM340_PLAN_ISDN :: int where [simp]: "GSM340_PLAN_ISDN = 1"
definition GSM340_TYPE_INTERNATIONAL :: int where [simp]: "GSM340_TYPE_INTERNATIONAL = 1"
definition GSM48_NPI_UNKNOWN :: int where [simp]: "GSM48_NPI_UNKNOWN = 0"
definition GSM48_NPI_ISDN_E164 :: int where [simp]: "GSM48_NPI_ISDN_E164 = 1"
definition GSM48_TON_UNKNOWN :: int where [simp]: "GSM48_TON_UNKNOWN = 0"
definition GSM48_TON_INTERNATIONAL :: int where [simp]: "GSM48_TON_INTERNATIONAL = 1"
definition GSM48_CAUSE_CODING_GSM :: int where [simp]: "GSM48_CAUSE_CODING_GSM = 3"
definition GSM48_CAUSE_LOC_PRN_S_LU :: int where [simp]: "GSM48_CAUSE_LOC_PRN_S_LU = 1"
definition GSM48_CAUSE_LOC_PUN_S_LU :: int where [simp]: "GSM48_CAUSE_LOC_PUN_S_LU = 2"
definition GSM48_PROGR_IN_BAND_AVAIL :: int where [simp]: "GSM48_PROGR_IN_BAND_AVAIL = 8"
definition AF_UNSPEC :: u16 where [simp]: "AF_UNSPEC = 0"
definition AF_INET :: u16 where [simp]: "AF_INET = 2"
definition AF_INET6 :: u16 where [simp]: "AF_INET6 = 10"

section \<open>Message structures\<close>

text \<open>
  \<open>struct sockaddr_storage\<close> as \<open>sockaddr_in\<close> and \<open>sockaddr_in6\<close> overlay it: both keep
  the port in the same two bytes, while \<open>sin_addr\<close> and \<open>sin6_addr\<close> do not overlap. The
  port is held in host byte order.
\<close>

record sockaddr_storage =
  ss_family :: u16
  sa_port :: u16
  sin_addr :: u32
  sin6_addr :: "128 word"

record gsm_mncc_number =
  num_type :: int
  num_plan :: int
  num_number :: string

record gsm_mncc_cause =
  cause_coding :: int
  cause_location :: int
  cause_value :: int

record gsm_mncc_progress =
  progress_coding :: int
  progress_location :: int
  progress_descr :: int

text \<open>The members of \<open>struct gsm_mncc\<close> that the connector reads or sets; the others are zero
  in every message it sends.\<close>

record gsm_mncc =
  mncc_msg_type :: u32
  mncc_callref :: u32
  mncc_fields :: u32
  mncc_called :: gsm_mncc_number
  mncc_calling :: gsm_mncc_number
  mncc_cause :: gsm_mncc_cause
  mncc_progress :: gsm_mncc_progress
  mncc_keypad :: int
  mncc_emergency :: int
  mncc_imsi :: string
  mncc_gcr :: "u8 list"
  mncc_sdp :: string

record gsm_mncc_hello =
  hello_msg_type :: u32
  hello_version :: u32
  hello_mncc_size :: u32
  hello_data_frame_size :: u32
  hello_called_offset :: u32
  hello_signal_offset :: u32
  hello_emergency_offset :: u32
  hello_lchan_type_offset :: u32

record gsm_mncc_rtp =
  rtp_msg_type :: u32
  rtp_callref :: u32
  rtp_addr :: sockaddr_storage
  rtp_payload_type :: u32
  rtp_payload_msg_type :: u32
  rtp_sdp :: string

text \<open>Objects as \<open>= { 0, }\<close> leaves them.\<close>

definition zero_sockaddr :: sockaddr_storage where
  "zero_sockaddr = \<lparr>ss_family = AF_UNSPEC, sa_port = 0, sin_addr = 0, sin6_addr = 0\<rparr>"

definition zero_number :: gsm_mncc_number where
  "zero_number = \<lparr>num_type = 0, num_plan = 0, num_number = []\<rparr>"

definition zero_mncc :: gsm_mncc where
  "zero_mncc = \<lparr>mncc_msg_type = 0, mncc_callref = 0, mncc_fields = 0,
     mncc_called = zero_number, mncc_calling = zero_number,
     mncc_cause = \<lparr>cause_coding = 0, cause_location = 0, cause_value = 0\<rparr>,
     mncc_progress = \<lparr>progress_coding = 0, progress_location = 0, progress_descr = 0\<rparr>,
     mncc_keypad = 0, mncc_emergency = 0, mncc_imsi = [], mncc_gcr = replicate 16 0, mncc_sdp = []\<rparr>"

definition zero_rtp :: gsm_mncc_rtp where
  "zero_rtp = \<lparr>rtp_msg_type = 0, rtp_callref = 0, rtp_addr = zero_sockaddr,
     rtp_payload_type = 0, rtp_payload_msg_type = 0, rtp_sdp = []\<rparr>"

text \<open>
  Sizes. \<open>gsm_mncc_hello\<close> is eight 32-bit words; \<open>gsm_mncc_rtp\<close> is two words, a socket
  address of 128 bytes, two words and 1024 characters. The size of \<open>gsm_mncc\<close> depends on
  libosmocore's structures and is a parameter of the model (\<open>x_mncc_size\<close>).
\<close>

definition sizeof_hello :: int where [simp]: "sizeof_hello = 32"
definition sizeof_rtp :: int where [simp]: "sizeof_rtp = 1168"
definition SDP_SIZE :: nat where "SDP_SIZE = 1024"

text \<open>
  A received packet: the length \<open>read\<close> returned and the buffer, seen through the four
  ways in which the handlers read it (its first word, and the three structure casts).
\<close>

record mncc_buf =
  as_msg_type :: u32
  as_mncc :: gsm_mncc
  as_rtp :: gsm_mncc_rtp
  as_hello :: gsm_mncc_hello

end
