(* ===== verification/Call_Heap.thy ===== *)
theory Call_Heap
  imports Mncc_Protocol
begin

text \<open>
  The data of \<open>src/src/call.h\<close>, \<open>mncc.h\<close>, \<open>app.h\<close> and \<open>sdp.h\<close> and the state of the
  process: a heap of calls and call legs, the list \<open>g_call_list\<close>, the pending command
  timers, the one MNCC connection and the configuration, the outcome of the operating system
  calls still to come, and the sequence of messages sent so far.

  Calls and legs live at addresses that are never reused, so an access to freed memory is
  visible as the fault \<open>Use_after_free\<close>. A nullable pointer is an \<open>addr option\<close>.
\<close>

type_synonym addr = nat

section \<open>Enumerations of call.h and mncc.h\<close>

datatype call_type = CALL_TYPE_NONE | CALL_TYPE_SIP | CALL_TYPE_MNCC

datatype sip_cc_state = SIP_CC_INITIAL | SIP_CC_DLG_CNFD | SIP_CC_CONNECTED | SIP_CC_HOLD

datatype sip_dir = SIP_DIR_MO | SIP_DIR_MT

datatype mncc_cc_state = MNCC_CC_INITIAL | MNCC_CC_PROCEEDING | MNCC_CC_CONNECTED | MNCC_CC_HOLD

datatype mncc_dir = MNCC_DIR_MO | MNCC_DIR_MT

datatype mncc_conn_state = MNCC_DISCONNECTED | MNCC_WAIT_VERSION | MNCC_READY

text \<open>The functions that the members of \<open>struct call_leg\<close> and of
  \<open>struct mncc_connection\<close> can point to.\<close>

datatype fnptr =
    FP_mncc_call_leg_connect | FP_mncc_call_leg_ring | FP_mncc_call_leg_release | FP_update_rtp
  | FP_sip_release_call | FP_sip_ring_call | FP_sip_connect_call | FP_sip_dtmf_call
  | FP_sip_hold_call | FP_sip_retrieve_call
  | FP_app_mncc_disconnected

section \<open>Calls and legs\<close>

text \<open>The parsed Global Call Reference of libosmocore, kept opaque.\<close>

type_synonym gcr = "u8 list"

text \<open>
  A string allocated with a leg as its talloc parent: it is freed with that leg.
\<close>

record owned_str =
  str_owner :: addr
  str_val :: string

record call =
  call_id :: u32
  initial :: "addr option"
  remote :: "addr option"
  source :: "owned_str option"
  dest :: "owned_str option"
  call_gcr :: gcr
  gcr_present :: bool

record sip_call_leg =
  nua_handle :: "addr option"
  sip_state :: sip_cc_state
  sip_direction :: sip_dir
  wanted_codec :: "string option"
  sdp_payload :: "string option"

record mncc_call_leg =
  mncc_state :: mncc_cc_state
  mncc_direction :: mncc_dir
  callref :: u32
  called :: gsm_mncc_number
  calling :: gsm_mncc_number
  imsi :: string
  rsp_wanted :: u32
  mncc_leg_cause :: int

text \<open>The object behind a \<open>struct call_leg\<close> pointer is a \<open>struct sip_call_leg\<close> or a
  \<open>struct mncc_call_leg\<close>, whose first member is the base.\<close>

datatype leg_object = Sip_object sip_call_leg | Mncc_object mncc_call_leg

record call_leg =
  leg_type :: call_type
  leg_call :: addr
  in_release :: bool
  cause :: int
  leg_addr :: sockaddr_storage
  payload_type :: u32
  payload_msg_type :: u32
  rx_sdp :: string
  rx_sdp_changed :: bool
  ring_call :: "fnptr option"
  connect_call :: "fnptr option"
  release_call :: "fnptr option"
  dtmf :: "fnptr option"
  hold_call :: "fnptr option"
  retrieve_call :: "fnptr option"
  update_rtp :: "fnptr option"
  leg_object :: leg_object

text \<open>Objects as \<open>talloc_zero\<close> returns them.\<close>

definition zero_sip :: sip_call_leg where
  "zero_sip = \<lparr>nua_handle = None, sip_state = SIP_CC_INITIAL, sip_direction = SIP_DIR_MO,
     wanted_codec = None, sdp_payload = None\<rparr>"

definition zero_mncc_leg :: mncc_call_leg where
  "zero_mncc_leg = \<lparr>mncc_state = MNCC_CC_INITIAL, mncc_direction = MNCC_DIR_MO, callref = 0,
     called = zero_number, calling = zero_number, imsi = [], rsp_wanted = 0, mncc_leg_cause = 0\<rparr>"

definition zero_leg :: "addr \<Rightarrow> leg_object \<Rightarrow> call_leg" where
  "zero_leg c ob = \<lparr>leg_type = CALL_TYPE_NONE, leg_call = c, in_release = False, cause = 0,
     leg_addr = zero_sockaddr, payload_type = 0, payload_msg_type = 0, rx_sdp = [],
     rx_sdp_changed = False, ring_call = None, connect_call = None, release_call = None,
     dtmf = None, hold_call = None, retrieve_call = None, update_rtp = None, leg_object = ob\<rparr>"

definition zero_call :: call where
  "zero_call = \<lparr>call_id = 0, initial = None, remote = None, source = None, dest = None,
     call_gcr = [], gcr_present = False\<rparr>"

section \<open>Connection, configuration, messages sent\<close>

record mncc_connection =
  conn_state :: mncc_conn_state
  conn_fd :: int
  reconnect_pending :: bool
  on_disconnect :: "fnptr option"

record app_config =
  sip_local_addr :: string
  sip_local_port :: int
  sofia_log_level :: int
  sip_remote_addr :: string
  sip_remote_port :: int
  mncc_path :: string
  use_imsi_as_id :: int

text \<open>
  What leaves the process: packets written to the MNCC socket and requests to the SIP stack.
  \<open>Nua_respond\<close> carries handle, status (Sofia's macros pair a status with its standard phrase),
  Reason header and SDP payload; \<open>Nua_invite\<close> handle, From, To, additional header and SDP
  payload.
\<close>

datatype action =
    Tx_mncc gsm_mncc
  | Tx_rtp gsm_mncc_rtp
  | Nua_respond "addr option" int "string option" "string option"
  | Nua_invite "addr option" "string option" "string option" "string option" string
  | Nua_info "addr option" string
  | Nua_cancel "addr option"
  | Nua_bye "addr option"
  | Nua_ack "addr option"
  | Nua_handle_destroy "addr option"
  | Nua_handle_bind "addr option" addr

record world =
  legs :: "addr \<Rightarrow> call_leg option"
  calls :: "addr \<Rightarrow> call option"
  g_call_list :: "addr list"
  last_call_id :: u32
  next_addr :: addr
  timers :: "addr list"
  conn :: mncc_connection
  g_app :: app_config
  allocs :: "bool list"
  writes :: "int list"
  out :: "action list"

text \<open>
  The process before \<open>main\<close> starts: no calls, \<open>last_call_id\<close> as \<open>call.c\<close> initialises it.
  Address 0 is never an object. \<open>allocs\<close> and \<open>writes\<close> are the results of the coming
  allocations and of the coming \<open>write\<close> calls on an open socket; where a list has run out,
  an allocation succeeds and a write takes the whole packet.
\<close>

definition init_world :: "app_config \<Rightarrow> world" where
  "init_world cfg = \<lparr>legs = (\<lambda>_. None), calls = (\<lambda>_. None), g_call_list = [],
     last_call_id = 5000, next_addr = 1, timers = [],
     conn = \<lparr>conn_state = MNCC_DISCONNECTED, conn_fd = -1, reconnect_pending = False,
             on_disconnect = None\<rparr>,
     g_app = cfg, allocs = [], writes = [], out = []\<rparr>"

type_synonym 'a io = "(world, 'a) M"

section \<open>Code outside the repository\<close>

text \<open>
  Sofia-SIP's parsed session description, with the members the connector reads or writes.
  \<open>sdp_rest\<close> stands for everything else the printer reproduces.
\<close>

datatype sdp_mode = sdp_inactive | sdp_sendonly | sdp_recvonly | sdp_sendrecv

datatype sdp_addrtype = sdp_addr_ip4 | sdp_addr_ip6 | sdp_addr_other

datatype sdp_proto = sdp_proto_rtp | sdp_proto_other

datatype sdp_media_type = sdp_media_audio | sdp_media_other

record sdp_connection =
  c_addrtype :: sdp_addrtype
  c_address :: string

record sdp_rtpmap =
  rm_pt :: nat
  rm_encoding :: string

record sdp_media =
  m_proto :: sdp_proto
  m_type :: sdp_media_type
  m_port :: nat
  m_mode :: sdp_mode
  m_rtpmaps :: "sdp_rtpmap list"

record sdp_session =
  sdp_connections :: "sdp_connection list"
  sdp_medias :: "sdp_media list"
  sdp_rest :: string

text \<open>
  The libraries as parameters. \<open>x_sdp_parse\<close> is \<open>sdp_parse\<close> followed by \<open>sdp_session\<close>:
  the flag says whether \<open>sdp_f_mode_0000\<close> was given, \<open>None\<close> is a NULL parser, \<open>Some None\<close>
  a parser without a session. \<open>x_sdp_print\<close> is \<open>sdp_print\<close> into a buffer of the given size
  followed by \<open>sdp_message\<close>, with the same two kinds of failure. \<open>x_enc_gcr\<close> returns the
  encoded bytes (none on failure), \<open>x_hexparse\<close> the buffer of the given size after the call,
  \<open>x_fmt_p\<close> what \<open>printf\<close> makes of a pointer.
\<close>

record ext =
  x_mncc_size :: nat
  x_sdp_parse :: "string \<Rightarrow> bool \<Rightarrow> sdp_session option option"
  x_sdp_print :: "sdp_session \<Rightarrow> nat \<Rightarrow> string option option"
  x_inet_pton4 :: "string \<Rightarrow> u32 option"
  x_inet_pton6 :: "string \<Rightarrow> 128 word option"
  x_sockaddr_ntop :: "sockaddr_storage \<Rightarrow> string"
  x_sockaddr_port :: "sockaddr_storage \<Rightarrow> u16"
  x_sockaddr_cmp :: "sockaddr_storage \<Rightarrow> sockaddr_storage \<Rightarrow> int"
  x_dec_gcr :: "u8 list \<Rightarrow> gcr option"
  x_enc_gcr :: "gcr \<Rightarrow> u8 list"
  x_hexparse :: "string \<Rightarrow> nat \<Rightarrow> u8 list"
  x_hexdump :: "u8 list \<Rightarrow> string"
  x_fmt_p :: "addr option \<Rightarrow> string"

text \<open>\<open>sizeof(struct gsm_mncc)\<close>, compared with the signed results of \<open>read\<close> and \<open>write\<close>.\<close>

abbreviation x_sizeof_mncc :: "ext \<Rightarrow> int" where
  "x_sizeof_mncc X \<equiv> int (x_mncc_size X)"

text \<open>
  A SIP message as the connector reads it. A payload may be absent, or present without data;
  a To or From header may be absent, or have no user part.
\<close>

record sip_msg =
  sip_payload :: "string option option"
  sip_unknown :: "(string \<times> string) list"
  sip_to :: "string option option"
  sip_from :: "string option option"

section \<open>Memory\<close>

definition deref :: "addr option \<Rightarrow> addr io" where
  "deref p = (case p of None \<Rightarrow> mfail Null_deref | Some a \<Rightarrow> mret a)"

definition get_leg :: "addr \<Rightarrow> call_leg io" where
  "get_leg a = (\<lambda>w. case legs w a of None \<Rightarrow> Inl Use_after_free | Some l \<Rightarrow> Inr (l, w))"

definition upd_leg :: "addr \<Rightarrow> (call_leg \<Rightarrow> call_leg) \<Rightarrow> unit io" where
  "upd_leg a f = (\<lambda>w. case legs w a of None \<Rightarrow> Inl Use_after_free
     | Some l \<Rightarrow> Inr ((), w\<lparr>legs := (legs w)(a \<mapsto> f l)\<rparr>))"

definition get_call :: "addr \<Rightarrow> call io" where
  "get_call c = (\<lambda>w. case calls w c of None \<Rightarrow> Inl Use_after_free | Some x \<Rightarrow> Inr (x, w))"

definition upd_call :: "addr \<Rightarrow> (call \<Rightarrow> call) \<Rightarrow> unit io" where
  "upd_call c f = (\<lambda>w. case calls w c of None \<Rightarrow> Inl Use_after_free
     | Some x \<Rightarrow> Inr ((), w\<lparr>calls := (calls w)(c \<mapsto> f x)\<rparr>))"

text \<open>A leg read or written through a pointer cast to its own structure.\<close>

definition get_sip :: "addr \<Rightarrow> sip_call_leg io" where
  "get_sip a = mbind (get_leg a) (\<lambda>l. case leg_object l of
     Sip_object s \<Rightarrow> mret s | Mncc_object _ \<Rightarrow> mfail Bad_cast)"

definition upd_sip :: "addr \<Rightarrow> (sip_call_leg \<Rightarrow> sip_call_leg) \<Rightarrow> unit io" where
  "upd_sip a f = mbind (get_sip a) (\<lambda>s. upd_leg a (leg_object_update (\<lambda>_. Sip_object (f s))))"

definition get_mncc :: "addr \<Rightarrow> mncc_call_leg io" where
  "get_mncc a = mbind (get_leg a) (\<lambda>l. case leg_object l of
     Mncc_object m \<Rightarrow> mret m | Sip_object _ \<Rightarrow> mfail Bad_cast)"

definition upd_mncc :: "addr \<Rightarrow> (mncc_call_leg \<Rightarrow> mncc_call_leg) \<Rightarrow> unit io" where
  "upd_mncc a f = mbind (get_mncc a) (\<lambda>m. upd_leg a (leg_object_update (\<lambda>_. Mncc_object (f m))))"

text \<open>A string kept in a call, read through its pointer.\<close>

definition get_str :: "owned_str option \<Rightarrow> string io" where
  "get_str p = (case p of None \<Rightarrow> mfail Null_deref
     | Some s \<Rightarrow> mthen (get_leg (str_owner s)) (mret (str_val s)))"

text \<open>Whether the next allocation succeeds.\<close>

definition alloc_ok :: "bool io" where
  "alloc_ok = (\<lambda>w. case allocs w of [] \<Rightarrow> Inr (True, w) | b # bs \<Rightarrow> Inr (b, w\<lparr>allocs := bs\<rparr>))"

definition fresh_addr :: "addr io" where
  "fresh_addr = (\<lambda>w. Inr (next_addr w, w\<lparr>next_addr := Suc (next_addr w)\<rparr>))"

text \<open>\<open>talloc_zero(call, struct ..._call_leg)\<close>; the leg's back pointer names the parent.\<close>

definition talloc_leg :: "addr \<Rightarrow> leg_object \<Rightarrow> addr option io" where
  "talloc_leg c ob = mbind alloc_ok (\<lambda>ok.
     if ok then mbind fresh_addr (\<lambda>a.
       mthen (mmod (\<lambda>w. w\<lparr>legs := (legs w)(a \<mapsto> zero_leg c ob)\<rparr>)) (mret (Some a)))
     else mret None)"

definition talloc_call :: "addr option io" where
  "talloc_call = mbind alloc_ok (\<lambda>ok.
     if ok then mbind fresh_addr (\<lambda>c.
       mthen (mmod (\<lambda>w. w\<lparr>calls := (calls w)(c \<mapsto> zero_call)\<rparr>)) (mret (Some c)))
     else mret None)"

definition talloc_free_leg :: "addr \<Rightarrow> unit io" where
  "talloc_free_leg a = mthen (get_leg a) (mmod (\<lambda>w. w\<lparr>legs := (legs w)(a := None)\<rparr>))"

text \<open>Freeing a call frees the legs allocated below it.\<close>

definition legs_without :: "addr \<Rightarrow> (addr \<Rightarrow> call_leg option) \<Rightarrow> addr \<Rightarrow> call_leg option" where
  "legs_without c L = (\<lambda>a. case L a of None \<Rightarrow> None
     | Some l \<Rightarrow> (if leg_call l = c then None else Some l))"

definition talloc_free_call :: "addr \<Rightarrow> unit io" where
  "talloc_free_call c = mthen (get_call c)
     (mmod (\<lambda>w. w\<lparr>calls := (calls w)(c := None), legs := legs_without c (legs w)\<rparr>))"

text \<open>\<open>talloc_strdup\<close> and \<open>talloc_asprintf\<close> below a leg.\<close>

definition talloc_str :: "addr \<Rightarrow> string \<Rightarrow> owned_str option io" where
  "talloc_str a s = mthen (get_leg a) (mbind alloc_ok (\<lambda>ok.
     mret (if ok then Some \<lparr>str_owner = a, str_val = s\<rparr> else None)))"

definition emit :: "action \<Rightarrow> unit io" where
  "emit x = mmod (\<lambda>w. w\<lparr>out := out w @ [x]\<rparr>)"

text \<open>\<open>llist_add\<close> and \<open>llist_del\<close> on \<open>g_call_list\<close>.\<close>

definition llist_add :: "addr \<Rightarrow> unit io" where
  "llist_add c = mmod (\<lambda>w. w\<lparr>g_call_list := c # g_call_list w\<rparr>)"

definition llist_del :: "addr \<Rightarrow> unit io" where
  "llist_del c = mmod (\<lambda>w. w\<lparr>g_call_list := remove1 c (g_call_list w)\<rparr>)"

text \<open>\<open>osmo_timer_schedule\<close> and \<open>osmo_timer_del\<close> on the command timer inside a leg.\<close>

definition timer_schedule :: "addr \<Rightarrow> unit io" where
  "timer_schedule a = mthen (get_leg a)
     (mmod (\<lambda>w. w\<lparr>timers := a # removeAll a (timers w)\<rparr>))"

definition timer_del :: "addr \<Rightarrow> unit io" where
  "timer_del a = mthen (get_leg a) (mmod (\<lambda>w. w\<lparr>timers := removeAll a (timers w)\<rparr>))"

section \<open>Weakest preconditions of the memory operations\<close>

text \<open>Updates of different components of the state are brought into one order.\<close>

lemma world_norm [wp]:
  fixes w :: world
  shows "legs_update f0 (calls_update f1 w) = calls_update f1 (legs_update f0 w)"
    and "legs_update f0 (g_call_list_update f2 w) = g_call_list_update f2 (legs_update f0 w)"
    and "legs_update f0 (last_call_id_update f3 w) = last_call_id_update f3 (legs_update f0 w)"
    and "legs_update f0 (next_addr_update f4 w) = next_addr_update f4 (legs_update f0 w)"
    and "legs_update f0 (timers_update f5 w) = timers_update f5 (legs_update f0 w)"
    and "legs_update f0 (conn_update f6 w) = conn_update f6 (legs_update f0 w)"
    and "legs_update f0 (g_app_update f7 w) = g_app_update f7 (legs_update f0 w)"
    and "legs_update f0 (allocs_update f8 w) = allocs_update f8 (legs_update f0 w)"
    and "legs_update f0 (writes_update f9 w) = writes_update f9 (legs_update f0 w)"
    and "legs_update f0 (out_update f10 w) = out_update f10 (legs_update f0 w)"
    and "calls_update f1 (g_call_list_update f2 w) = g_call_list_update f2 (calls_update f1 w)"
    and "calls_update f1 (last_call_id_update f3 w) = last_call_id_update f3 (calls_update f1 w)"
    and "calls_update f1 (next_addr_update f4 w) = next_addr_update f4 (calls_update f1 w)"
    and "calls_update f1 (timers_update f5 w) = timers_update f5 (calls_update f1 w)"
    and "calls_update f1 (conn_update f6 w) = conn_update f6 (calls_update f1 w)"
    and "calls_update f1 (g_app_update f7 w) = g_app_update f7 (calls_update f1 w)"
    and "calls_update f1 (allocs_update f8 w) = allocs_update f8 (calls_update f1 w)"
    and "calls_update f1 (writes_update f9 w) = writes_update f9 (calls_update f1 w)"
    and "calls_update f1 (out_update f10 w) = out_update f10 (calls_update f1 w)"
    and "g_call_list_update f2 (last_call_id_update f3 w) = last_call_id_update f3 (g_call_list_update f2 w)"
    and "g_call_list_update f2 (next_addr_update f4 w) = next_addr_update f4 (g_call_list_update f2 w)"
    and "g_call_list_update f2 (timers_update f5 w) = timers_update f5 (g_call_list_update f2 w)"
    and "g_call_list_update f2 (conn_update f6 w) = conn_update f6 (g_call_list_update f2 w)"
    and "g_call_list_update f2 (g_app_update f7 w) = g_app_update f7 (g_call_list_update f2 w)"
    and "g_call_list_update f2 (allocs_update f8 w) = allocs_update f8 (g_call_list_update f2 w)"
    and "g_call_list_update f2 (writes_update f9 w) = writes_update f9 (g_call_list_update f2 w)"
    and "g_call_list_update f2 (out_update f10 w) = out_update f10 (g_call_list_update f2 w)"
    and "last_call_id_update f3 (next_addr_update f4 w) = next_addr_update f4 (last_call_id_update f3 w)"
    and "last_call_id_update f3 (timers_update f5 w) = timers_update f5 (last_call_id_update f3 w)"
    and "last_call_id_update f3 (conn_update f6 w) = conn_update f6 (last_call_id_update f3 w)"
    and "last_call_id_update f3 (g_app_update f7 w) = g_app_update f7 (last_call_id_update f3 w)"
    and "last_call_id_update f3 (allocs_update f8 w) = allocs_update f8 (last_call_id_update f3 w)"
    and "last_call_id_update f3 (writes_update f9 w) = writes_update f9 (last_call_id_update f3 w)"
    and "last_call_id_update f3 (out_update f10 w) = out_update f10 (last_call_id_update f3 w)"
    and "next_addr_update f4 (timers_update f5 w) = timers_update f5 (next_addr_update f4 w)"
    and "next_addr_update f4 (conn_update f6 w) = conn_update f6 (next_addr_update f4 w)"
    and "next_addr_update f4 (g_app_update f7 w) = g_app_update f7 (next_addr_update f4 w)"
    and "next_addr_update f4 (allocs_update f8 w) = allocs_update f8 (next_addr_update f4 w)"
    and "next_addr_update f4 (writes_update f9 w) = writes_update f9 (next_addr_update f4 w)"
    and "next_addr_update f4 (out_update f10 w) = out_update f10 (next_addr_update f4 w)"
    and "timers_update f5 (conn_update f6 w) = conn_update f6 (timers_update f5 w)"
    and "timers_update f5 (g_app_update f7 w) = g_app_update f7 (timers_update f5 w)"
    and "timers_update f5 (allocs_update f8 w) = allocs_update f8 (timers_update f5 w)"
    and "timers_update f5 (writes_update f9 w) = writes_update f9 (timers_update f5 w)"
    and "timers_update f5 (out_update f10 w) = out_update f10 (timers_update f5 w)"
    and "conn_update f6 (g_app_update f7 w) = g_app_update f7 (conn_update f6 w)"
    and "conn_update f6 (allocs_update f8 w) = allocs_update f8 (conn_update f6 w)"
    and "conn_update f6 (writes_update f9 w) = writes_update f9 (conn_update f6 w)"
    and "conn_update f6 (out_update f10 w) = out_update f10 (conn_update f6 w)"
    and "g_app_update f7 (allocs_update f8 w) = allocs_update f8 (g_app_update f7 w)"
    and "g_app_update f7 (writes_update f9 w) = writes_update f9 (g_app_update f7 w)"
    and "g_app_update f7 (out_update f10 w) = out_update f10 (g_app_update f7 w)"
    and "allocs_update f8 (writes_update f9 w) = writes_update f9 (allocs_update f8 w)"
    and "allocs_update f8 (out_update f10 w) = out_update f10 (allocs_update f8 w)"
    and "writes_update f9 (out_update f10 w) = out_update f10 (writes_update f9 w)"
  by simp_all

lemma wp_deref [wp]: "wp (deref p) Q w = (\<exists>a. p = Some a \<and> Q a w)"
  by (cases p) (simp_all add: deref_def wp)

lemma wp_get_leg [wp]: "wp (get_leg a) Q w = (\<exists>l. legs w a = Some l \<and> Q l w)"
  by (simp add: wp_def get_leg_def split: option.splits)

lemma wp_upd_leg [wp]:
  "wp (upd_leg a f) Q w = (\<exists>l. legs w a = Some l \<and> Q () (w\<lparr>legs := (legs w)(a \<mapsto> f l)\<rparr>))"
  by (simp add: wp_def upd_leg_def split: option.splits)

lemma wp_get_call [wp]: "wp (get_call c) Q w = (\<exists>x. calls w c = Some x \<and> Q x w)"
  by (simp add: wp_def get_call_def split: option.splits)

lemma wp_upd_call [wp]:
  "wp (upd_call c f) Q w = (\<exists>x. calls w c = Some x \<and> Q () (w\<lparr>calls := (calls w)(c \<mapsto> f x)\<rparr>))"
  by (simp add: wp_def upd_call_def split: option.splits)

lemma wp_get_sip [wp]:
  "wp (get_sip a) Q w = (\<exists>l s. legs w a = Some l \<and> leg_object l = Sip_object s \<and> Q s w)"
  by (auto simp: wp_def get_sip_def get_leg_def monad_defs split: option.splits leg_object.splits)

lemma wp_get_mncc [wp]:
  "wp (get_mncc a) Q w = (\<exists>l m. legs w a = Some l \<and> leg_object l = Mncc_object m \<and> Q m w)"
  by (auto simp: wp_def get_mncc_def get_leg_def monad_defs split: option.splits leg_object.splits)

lemma wp_upd_sip [wp]:
  "wp (upd_sip a f) Q w = (\<exists>l s. legs w a = Some l \<and> leg_object l = Sip_object s
     \<and> Q () (w\<lparr>legs := (legs w)(a \<mapsto> l\<lparr>leg_object := Sip_object (f s)\<rparr>)\<rparr>))"
  by (auto simp: upd_sip_def wp)

lemma wp_upd_mncc [wp]:
  "wp (upd_mncc a f) Q w = (\<exists>l m. legs w a = Some l \<and> leg_object l = Mncc_object m
     \<and> Q () (w\<lparr>legs := (legs w)(a \<mapsto> l\<lparr>leg_object := Mncc_object (f m)\<rparr>)\<rparr>))"
  by (auto simp: upd_mncc_def wp)

lemma wp_get_str [wp]:
  "wp (get_str p) Q w = (\<exists>s. p = Some s \<and> legs w (str_owner s) \<noteq> None \<and> Q (str_val s) w)"
  by (auto simp: get_str_def wp split: option.splits)

lemma wp_alloc_ok [wp]:
  "wp alloc_ok Q w = (case allocs w of [] \<Rightarrow> Q True w | b # bs \<Rightarrow> Q b (w\<lparr>allocs := bs\<rparr>))"
  by (simp add: wp_def alloc_ok_def split: list.splits)

lemma wp_fresh_addr [wp]:
  "wp fresh_addr Q w = Q (next_addr w) (w\<lparr>next_addr := Suc (next_addr w)\<rparr>)"
  by (simp add: wp_def fresh_addr_def)

lemma wp_talloc_free_leg [wp]:
  "wp (talloc_free_leg a) Q w = (legs w a \<noteq> None \<and> Q () (w\<lparr>legs := (legs w)(a := None)\<rparr>))"
  by (auto simp: talloc_free_leg_def wp)

lemma wp_talloc_free_call [wp]:
  "wp (talloc_free_call c) Q w = (calls w c \<noteq> None \<and>
     Q () (w\<lparr>calls := (calls w)(c := None), legs := legs_without c (legs w)\<rparr>))"
  by (auto simp: talloc_free_call_def wp)

lemma wp_emit [wp]: "wp (emit x) Q w = Q () (w\<lparr>out := out w @ [x]\<rparr>)"
  by (simp add: emit_def wp)

lemma wp_llist_add [wp]: "wp (llist_add c) Q w = Q () (w\<lparr>g_call_list := c # g_call_list w\<rparr>)"
  by (simp add: llist_add_def wp)

lemma wp_llist_del [wp]: "wp (llist_del c) Q w = Q () (w\<lparr>g_call_list := remove1 c (g_call_list w)\<rparr>)"
  by (simp add: llist_del_def wp)

lemma wp_timer_schedule [wp]:
  "wp (timer_schedule a) Q w = (legs w a \<noteq> None \<and> Q () (w\<lparr>timers := a # removeAll a (timers w)\<rparr>))"
  by (auto simp: timer_schedule_def wp)

lemma wp_timer_del [wp]:
  "wp (timer_del a) Q w = (legs w a \<noteq> None \<and> Q () (w\<lparr>timers := removeAll a (timers w)\<rparr>))"
  by (auto simp: timer_del_def wp)

lemma legs_without_Some:
  "legs_without c L a = Some l \<longleftrightarrow> L a = Some l \<and> leg_call l \<noteq> c"
  by (auto simp: legs_without_def split: option.splits)

end
