(* ===== verification/Call.thy ===== *)
theory Call
  imports Call_Heap
begin

text \<open>
  \<open>src/src/call.c\<close>: creating calls, finding the other leg of a call, releasing a leg (and
  with the last leg the call), storing received SDP, and the name tables. The heap invariant
  \<open>wf_heap\<close> says how the list, the calls, the legs and the timers belong together; releasing
  a leg is shown to be the abstract operation \<open>leg_gone\<close> on well-formed heaps.
\<close>

section \<open>Operations\<close>

text \<open>Name tables; \<open>get_value_string\<close> searches them from the front.\<close>

definition call_type_vals :: "(call_type \<times> string) list" where
  "call_type_vals = [(CALL_TYPE_NONE, ''NONE''), (CALL_TYPE_SIP, ''SIP''), (CALL_TYPE_MNCC, ''MNCC'')]"

definition mncc_state_vals :: "(mncc_cc_state \<times> string) list" where
  "mncc_state_vals = [(MNCC_CC_INITIAL, ''INITIAL''), (MNCC_CC_PROCEEDING, ''PROCEEDING''),
     (MNCC_CC_CONNECTED, ''CONNECTED''), (MNCC_CC_HOLD, ''ON HOLD'')]"

definition mncc_dir_vals :: "(mncc_dir \<times> string) list" where
  "mncc_dir_vals = [(MNCC_DIR_MO, ''MO''), (MNCC_DIR_MT, ''MT'')]"

definition sip_state_vals :: "(sip_cc_state \<times> string) list" where
  "sip_state_vals = [(SIP_CC_INITIAL, ''INITIAL''), (SIP_CC_DLG_CNFD, ''CONFIRMED''),
     (SIP_CC_CONNECTED, ''CONNECTED''), (SIP_CC_HOLD, ''ON HOLD'')]"

definition sip_dir_vals :: "(sip_dir \<times> string) list" where
  "sip_dir_vals = [(SIP_DIR_MO, ''MO''), (SIP_DIR_MT, ''MT'')]"

definition get_value_string :: "('a \<times> string) list \<Rightarrow> 'a \<Rightarrow> string" where
  "get_value_string vs k = (case map_of vs k of Some s \<Rightarrow> s | None \<Rightarrow> ''unknown'')"

definition call_leg_type :: "addr \<Rightarrow> string io" where
  "call_leg_type a = mbind (get_leg a) (\<lambda>l. mret (get_value_string call_type_vals (leg_type l)))"

definition call_leg_state :: "addr \<Rightarrow> string io" where
  "call_leg_state a = mbind (get_leg a) (\<lambda>l. case leg_type l of
       CALL_TYPE_SIP \<Rightarrow> mbind (get_sip a) (\<lambda>s. mret (get_value_string sip_state_vals (sip_state s)))
     | CALL_TYPE_MNCC \<Rightarrow> mbind (get_mncc a) (\<lambda>m. mret (get_value_string mncc_state_vals (mncc_state m)))
     | CALL_TYPE_NONE \<Rightarrow> mret ''Unknown call type'')"

text \<open>The second half of \<open>call_leg_release\<close>: free the leg, and the call with its last leg.\<close>

definition call_leg_free :: "addr \<Rightarrow> addr \<Rightarrow> unit io" where
  "call_leg_free a c = mthen (talloc_free_leg a) (mbind (get_call c) (\<lambda>x.
     mwhen (initial x = None \<and> remote x = None)
       (mthen (llist_del c) (talloc_free_call c))))"

definition call_leg_release :: "addr \<Rightarrow> unit io" where
  "call_leg_release a = mbind (get_leg a) (\<lambda>l. mbind (get_call (leg_call l)) (\<lambda>x.
     if initial x = Some a then
       mthen (upd_call (leg_call l) (initial_update (\<lambda>_. None))) (call_leg_free a (leg_call l))
     else if remote x = Some a then
       mthen (upd_call (leg_call l) (remote_update (\<lambda>_. None))) (call_leg_free a (leg_call l))
     else mret ()))"

text \<open>
  \<open>call_mncc_create\<close> and \<open>call_sip_create\<close> differ in the structure they allocate for the
  initial leg and in its type.
\<close>

definition call_create :: "call_type \<Rightarrow> leg_object \<Rightarrow> addr option io" where
  "call_create ty ob = mbind talloc_call (\<lambda>p. case p of None \<Rightarrow> mret None | Some c \<Rightarrow>
     mthen (mmod (\<lambda>w. w\<lparr>last_call_id := last_call_id w + 1\<rparr>))
     (mbind (mget last_call_id) (\<lambda>i. mthen (upd_call c (call_id_update (\<lambda>_. i)))
     (mbind (talloc_leg c ob) (\<lambda>q. case q of
         None \<Rightarrow> mthen (talloc_free_call c) (mret None)
       | Some a \<Rightarrow> mthen (upd_call c (initial_update (\<lambda>_. Some a)))
           (mthen (upd_leg a (leg_type_update (\<lambda>_. ty)))
           (mthen (upd_leg a (leg_call_update (\<lambda>_. c)))
           (mthen (llist_add c) (mret (Some c))))))))))"

definition call_mncc_create :: "addr option io" where
  "call_mncc_create = call_create CALL_TYPE_MNCC (Mncc_object zero_mncc_leg)"

definition call_sip_create :: "addr option io" where
  "call_sip_create = call_create CALL_TYPE_SIP (Sip_object zero_sip)"

definition call_leg_other :: "addr \<Rightarrow> addr option io" where
  "call_leg_other a = mbind (get_leg a) (\<lambda>l. mbind (get_call (leg_call l)) (\<lambda>x.
     mret (if initial x = Some a then remote x
           else if remote x = Some a then initial x
           else None)))"

text \<open>\<open>strncmp\<close> over the size of \<open>rx_sdp\<close>: equality of the first 1024 characters.\<close>

definition call_leg_rx_sdp :: "addr \<Rightarrow> string option \<Rightarrow> unit io" where
  "call_leg_rx_sdp a sdp = mbind (get_leg a) (\<lambda>l. case sdp of
       None \<Rightarrow> mret ()
     | Some s \<Rightarrow>
         (if s = [] \<or> take SDP_SIZE (rx_sdp l) = take SDP_SIZE s then mret ()
          else mthen (upd_leg a (rx_sdp_update (\<lambda>_. strlcpy SDP_SIZE s)))
                     (upd_leg a (rx_sdp_changed_update (\<lambda>_. True)))))"

section \<open>The heap invariant\<close>

definition call_legs :: "call \<Rightarrow> addr set" where
  "call_legs x = set_option (initial x) \<union> set_option (remote x)"

definition call_wf :: "world \<Rightarrow> addr \<Rightarrow> call \<Rightarrow> bool" where
  "call_wf w c x = (call_legs x \<noteq> {} \<and> (initial x = None \<or> initial x \<noteq> remote x)
     \<and> (\<forall>a \<in> call_legs x. \<exists>l. legs w a = Some l \<and> leg_call l = c))"

definition is_mncc :: "call_leg \<Rightarrow> bool" where
  "is_mncc l = (case leg_object l of Mncc_object _ \<Rightarrow> True | Sip_object _ \<Rightarrow> False)"

text \<open>
  Every listed call is allocated and every allocated call is listed once; a call has a leg,
  its legs are allocated and point back to it; every allocated leg is linked from its call;
  addresses are below the allocation limit; a pending command timer sits in an MNCC leg.
\<close>

definition wf_heap :: "world \<Rightarrow> bool" where
  "wf_heap w = (distinct (g_call_list w)
     \<and> (\<forall>c. c \<in> set (g_call_list w) \<longleftrightarrow> calls w c \<noteq> None)
     \<and> (\<forall>c x. calls w c = Some x \<longrightarrow> call_wf w c x)
     \<and> (\<forall>a l. legs w a = Some l \<longrightarrow> (\<exists>x. calls w (leg_call l) = Some x \<and> a \<in> call_legs x))
     \<and> (\<forall>a. legs w a \<noteq> None \<longrightarrow> a < next_addr w)
     \<and> (\<forall>c. calls w c \<noteq> None \<longrightarrow> c < next_addr w)
     \<and> (\<forall>a \<in> set (timers w). \<exists>l. legs w a = Some l \<and> is_mncc l))"

text \<open>What releasing a leg does to a heap: the abstract operation.\<close>

definition other_leg :: "addr \<Rightarrow> call \<Rightarrow> addr option" where
  "other_leg a x = (if initial x = Some a then remote x
     else if remote x = Some a then initial x else None)"

definition unlink :: "addr \<Rightarrow> call \<Rightarrow> call" where
  "unlink a x = (if initial x = Some a then x\<lparr>initial := None\<rparr>
     else if remote x = Some a then x\<lparr>remote := None\<rparr> else x)"

definition leg_gone :: "addr \<Rightarrow> addr \<Rightarrow> call \<Rightarrow> world \<Rightarrow> world" where
  "leg_gone a c x w =
     (if other_leg a x = None
      then w\<lparr>legs := (legs w)(a := None), calls := (calls w)(c := None),
             g_call_list := remove1 c (g_call_list w)\<rparr>
      else w\<lparr>legs := (legs w)(a := None), calls := (calls w)(c \<mapsto> unlink a x)\<rparr>)"

section \<open>Facts about well-formed heaps\<close>

lemma call_legs_iff: "a \<in> call_legs x \<longleftrightarrow> initial x = Some a \<or> remote x = Some a"
  by (cases "initial x"; cases "remote x") (auto simp: call_legs_def)

lemma call_legs_empty [simp]: "call_legs x = {} \<longleftrightarrow> initial x = None \<and> remote x = None"
  by (cases "initial x"; cases "remote x") (auto simp: call_legs_def)

lemma wf_heapD:
  assumes "wf_heap w"
  shows "distinct (g_call_list w)"
    and "c \<in> set (g_call_list w) \<longleftrightarrow> calls w c \<noteq> None"
    and "calls w c = Some x \<Longrightarrow> call_wf w c x"
    and "legs w a = Some l \<Longrightarrow> \<exists>x. calls w (leg_call l) = Some x \<and> a \<in> call_legs x"
    and "legs w a = Some l \<Longrightarrow> a < next_addr w"
    and "calls w c = Some x \<Longrightarrow> c < next_addr w"
    and "a \<in> set (timers w) \<Longrightarrow> \<exists>l. legs w a = Some l \<and> is_mncc l"
  using assms unfolding wf_heap_def by (blast, blast, blast, blast, blast, blast, blast)

lemma wf_heap_leg_call:
  assumes "wf_heap w" and "legs w a = Some l"
  obtains x where "calls w (leg_call l) = Some x" and "initial x = Some a \<or> remote x = Some a"
  using wf_heapD(4) [OF assms] by (auto simp: call_legs_iff)

lemma wf_heap_call_leg:
  assumes "wf_heap w" and "calls w c = Some x" and "initial x = Some a \<or> remote x = Some a"
  obtains l where "legs w a = Some l" and "leg_call l = c"
proof -
  from assms(3) have "a \<in> call_legs x" by (simp add: call_legs_iff)
  with wf_heapD(3) [OF assms(1,2)] have "\<exists>l. legs w a = Some l \<and> leg_call l = c"
    unfolding call_wf_def by blast
  with that show ?thesis by blast
qed

lemma wf_heap_call_leg_ex:
  assumes "wf_heap w" and "calls w c = Some x" and "initial x = Some a \<or> remote x = Some a"
  shows "\<exists>l. legs w a = Some l \<and> leg_call l = c"
  using wf_heap_call_leg [OF assms] by blast

lemma wf_heap_distinct_legs:
  assumes "wf_heap w" and "calls w c = Some x" and "initial x = Some a"
  shows "remote x \<noteq> Some a"
  using wf_heapD(3) [OF assms(1,2)] assms(3) by (auto simp: call_wf_def)

text \<open>A leg belongs to one call only.\<close>

lemma wf_heap_one_call:
  assumes "wf_heap w" and "calls w c = Some x" and "initial x = Some a \<or> remote x = Some a"
    and "calls w d = Some y" and "initial y = Some a \<or> remote y = Some a"
  shows "c = d"
proof -
  obtain l where "legs w a = Some l" "leg_call l = c"
    using wf_heap_call_leg [OF assms(1-3)] .
  moreover obtain k where "legs w a = Some k" "leg_call k = d"
    using wf_heap_call_leg [OF assms(1,4,5)] .
  ultimately show ?thesis by simp
qed

text \<open>An update of a leg that keeps its back pointer and its kind keeps the invariant.\<close>

lemma wf_heap_upd_leg:
  assumes wf: "wf_heap w" and l: "legs w a = Some l"
    and l': "leg_call l' = leg_call l" "is_mncc l' = is_mncc l"
  shows "wf_heap (w\<lparr>legs := (legs w)(a \<mapsto> l')\<rparr>)"
proof -
  have "call_wf w c x \<Longrightarrow> call_wf (w\<lparr>legs := (legs w)(a \<mapsto> l')\<rparr>) c x" for c x
    using l l' by (force simp: call_wf_def)
  then show ?thesis
    using wf l l' by (auto simp: wf_heap_def)
qed

section \<open>Releasing a leg\<close>

lemma leg_of_call_without_others:
  assumes wf: "wf_heap w" and c: "calls w c = Some x" and a: "initial x = Some a \<or> remote x = Some a"
    and o: "other_leg a x = None"
  shows "legs_without c ((legs w)(a := None)) = (legs w)(a := None)"
proof
  fix b
  show "legs_without c ((legs w)(a := None)) b = ((legs w)(a := None)) b"
  proof (cases "((legs w)(a := None)) b")
    case None
    then show ?thesis by (simp add: legs_without_def)
  next
    case (Some l)
    then have l: "legs w b = Some l" "b \<noteq> a" by (auto split: if_splits)
    have "leg_call l \<noteq> c"
    proof
      assume "leg_call l = c"
      with wf_heapD(4) [OF wf l(1)] c have "initial x = Some b \<or> remote x = Some b"
        by (auto simp: call_legs_iff)
      with a o l(2) show False by (auto simp: other_leg_def split: if_splits)
    qed
    with Some show ?thesis by (simp add: legs_without_def)
  qed
qed

lemma wp_call_leg_release:
  assumes wf: "wf_heap w" and l: "legs w a = Some l" and x: "calls w (leg_call l) = Some x"
  shows "wp (call_leg_release a) Q w = Q () (leg_gone a (leg_call l) x w)"
proof -
  have a: "initial x = Some a \<or> remote x = Some a"
    using wf_heapD(4) [OF wf l] x by (auto simp: call_legs_iff)
  show ?thesis
  proof (cases "other_leg a x")
    case None
    note nl = leg_of_call_without_others [OF wf x a None]
    from a None l x show ?thesis
      by (auto simp: call_leg_release_def call_leg_free_def wp leg_gone_def nl other_leg_def
          fun_upd_upd split: if_splits)
  next
    case (Some b)
    with a l x wf_heap_distinct_legs [OF wf x] show ?thesis
      by (auto simp: call_leg_release_def call_leg_free_def wp leg_gone_def unlink_def other_leg_def
          split: if_splits)
  qed
qed

lemma wp_call_leg_release_ex [wp]:
  assumes "wf_heap w"
  shows "wp (call_leg_release a) Q w = (\<exists>l x. legs w a = Some l \<and> calls w (leg_call l) = Some x
     \<and> Q () (leg_gone a (leg_call l) x w))"
proof (cases "legs w a")
  case None
  then show ?thesis by (simp add: call_leg_release_def wp)
next
  case (Some l)
  then obtain x where "calls w (leg_call l) = Some x" using wf_heap_leg_call [OF assms Some] by blast
  with Some show ?thesis by (simp add: wp_call_leg_release [OF assms])
qed

lemma wf_heap_leg_gone:
  assumes wf: "wf_heap w" and l: "legs w a = Some l" and x: "calls w (leg_call l) = Some x"
    and t: "a \<notin> set (timers w)"
  shows "wf_heap (leg_gone a (leg_call l) x w)"
proof -
  let ?c = "leg_call l"
  have a: "initial x = Some a \<or> remote x = Some a"
    using wf_heapD(4) [OF wf l] x by (auto simp: call_legs_iff)
  have other: "b \<in> call_legs y \<Longrightarrow> calls w d = Some y \<Longrightarrow> d \<noteq> ?c \<Longrightarrow> b \<noteq> a" for b d y
    using wf_heap_one_call [OF wf x a] by (auto simp: call_legs_iff)
  have ul: "call_legs (unlink a x) = call_legs x - {a}"
    using a wf_heap_distinct_legs [OF wf x] by (auto simp: unlink_def call_legs_iff)
  have un: "initial (unlink a x) = None \<or> initial (unlink a x) \<noteq> remote (unlink a x)"
    using wf_heapD(3) [OF wf x] by (auto simp: unlink_def call_wf_def)
  have cw: "call_wf (leg_gone a ?c x w) d y" if "calls w d = Some y" "d \<noteq> ?c" for d y
    using wf_heapD(3) [OF wf that(1)] other [OF _ that] by (auto simp: call_wf_def leg_gone_def)
  have linked: "\<exists>y. calls w (leg_call k) = Some y \<and> b \<in> call_legs y" if "legs w b = Some k" for b k
    using wf_heapD(4) [OF wf that] .
  show ?thesis
  proof (cases "other_leg a x")
    case None
    have only: "b = a" if "b \<in> call_legs x" for b
      using that a None by (auto simp: call_legs_iff other_leg_def split: if_splits)
    have "b \<noteq> a \<Longrightarrow> legs w b = Some k \<Longrightarrow> leg_call k \<noteq> ?c" for b k
      using linked [of b k] x only by auto
    with wf t cw None show ?thesis
      by (auto simp: wf_heap_def leg_gone_def)
  next
    case (Some b)
    have "call_wf (leg_gone a ?c x w) ?c (unlink a x)"
    proof -
      have "b \<in> call_legs x - {a}"
        using Some a wf_heap_distinct_legs [OF wf x]
        by (auto simp: other_leg_def call_legs_iff split: if_splits)
      moreover have "\<forall>b \<in> call_legs x. \<exists>l. legs w b = Some l \<and> leg_call l = ?c"
        using wf_heapD(3) [OF wf x] by (simp add: call_wf_def)
      ultimately show ?thesis
        using un ul Some by (auto simp: call_wf_def leg_gone_def simp del: call_legs_empty)
    qed
    moreover have "legs w b = Some k \<Longrightarrow> leg_call k = ?c \<Longrightarrow> b \<in> call_legs x" for b k
      using linked [of b k] x by auto
    ultimately show ?thesis
      using wf t cw Some x ul by (auto simp: wf_heap_def leg_gone_def)
  qed
qed

section \<open>The other leg\<close>

lemma wp_call_leg_other [wp]:
  "wp (call_leg_other a) Q w =
     (\<exists>l x. legs w a = Some l \<and> calls w (leg_call l) = Some x \<and> Q (other_leg a x) w)"
  by (simp add: call_leg_other_def wp other_leg_def)

lemma other_leg_cases:
  assumes "wf_heap w" and "legs w a = Some l" and "calls w (leg_call l) = Some x" and "other_leg a x = Some b"
  obtains k where "legs w b = Some k" and "leg_call k = leg_call l" and "b \<noteq> a"
    and "other_leg b x = Some a"
proof -
  have a: "initial x = Some a \<or> remote x = Some a"
    using wf_heapD(4) [OF assms(1,2)] assms(3) by (auto simp: call_legs_iff)
  have b: "initial x = Some b \<or> remote x = Some b"
    using assms(4) by (auto simp: other_leg_def split: if_splits)
  obtain k where "legs w b = Some k" "leg_call k = leg_call l"
    using wf_heap_call_leg [OF assms(1,3) b] .
  moreover have "b \<noteq> a" "other_leg b x = Some a"
    using a assms(4) wf_heap_distinct_legs [OF assms(1,3)] by (auto simp: other_leg_def split: if_splits)
  ultimately show ?thesis using that by blast
qed

section \<open>Creating a call\<close>

text \<open>The heap after a successful \<open>call_create\<close>: two new objects, the call at the head of
  the list, numbered with the next call id.\<close>

definition created_leg :: "call_type \<Rightarrow> leg_object \<Rightarrow> addr \<Rightarrow> call_leg" where
  "created_leg ty ob c = (zero_leg c ob)\<lparr>leg_type := ty\<rparr>"

definition created_call :: "u32 \<Rightarrow> addr \<Rightarrow> call" where
  "created_call i a = zero_call\<lparr>call_id := i, initial := Some a\<rparr>"

definition call_added :: "call_type \<Rightarrow> leg_object \<Rightarrow> world \<Rightarrow> world" where
  "call_added ty ob w = (let c = next_addr w; a = Suc c; i = last_call_id w + 1 in
     w\<lparr>legs := (legs w)(a \<mapsto> created_leg ty ob c), calls := (calls w)(c \<mapsto> created_call i a),
       g_call_list := c # g_call_list w, last_call_id := i, next_addr := Suc a\<rparr>)"

text \<open>What is left of a failed creation: the call object was allocated and freed again.\<close>

definition call_not_added :: "world \<Rightarrow> world" where
  "call_not_added w = w\<lparr>last_call_id := last_call_id w + 1, next_addr := Suc (next_addr w)\<rparr>"

lemma fresh_not_allocated:
  assumes "wf_heap w" and "next_addr w \<le> a"
  shows "legs w a = None" and "calls w a = None"
  using assms by (auto simp: wf_heap_def intro: ccontr)

lemma legs_without_fresh:
  assumes "wf_heap w"
  shows "legs_without (next_addr w) (legs w) = legs w"
proof
  fix a
  have "leg_call l \<noteq> next_addr w" if "legs w a = Some l" for l
    using wf_heapD(4) [OF assms that] fresh_not_allocated(2) [OF assms, of "next_addr w"] by auto
  then show "legs_without (next_addr w) (legs w) a = legs w a"
    by (auto simp: legs_without_def split: option.splits)
qed

lemma wp_call_create:
  assumes wf: "wf_heap w"
  shows "wp (call_create ty ob) Q w =
    (case allocs w of
       [] \<Rightarrow> Q (Some (next_addr w)) (call_added ty ob w)
     | False # bs \<Rightarrow> Q None (w\<lparr>allocs := bs\<rparr>)
     | [True] \<Rightarrow> Q (Some (next_addr w)) ((call_added ty ob w)\<lparr>allocs := []\<rparr>)
     | True # False # bs \<Rightarrow> Q None ((call_not_added w)\<lparr>allocs := bs\<rparr>)
     | True # True # bs \<Rightarrow> Q (Some (next_addr w)) ((call_added ty ob w)\<lparr>allocs := bs\<rparr>))"
  using legs_without_fresh [OF wf] fresh_not_allocated(2) [OF wf, of "next_addr w"]
  by (simp add: call_create_def talloc_call_def talloc_leg_def wp call_added_def call_not_added_def
      created_leg_def created_call_def zero_leg_def zero_call_def fun_upd_idem Let_def
      split: list.splits bool.splits)

lemma wf_heap_call_added:
  assumes wf: "wf_heap w"
  shows "wf_heap (call_added ty ob w)"
proof -
  note fr = fresh_not_allocated [OF wf]
  have "call_wf (call_added ty ob w) c x" if "calls w c = Some x" for c x
    using wf_heapD(3) [OF wf that] fr(1) [of "Suc (next_addr w)"]
    by (fastforce simp: call_wf_def call_added_def Let_def)
  moreover have "call_wf (call_added ty ob w) (next_addr w)
      (created_call (last_call_id w + 1) (Suc (next_addr w)))"
    by (auto simp: call_wf_def call_added_def created_call_def created_leg_def zero_call_def
        zero_leg_def call_legs_iff Let_def)
  moreover have "leg_call l \<noteq> next_addr w" if "legs w a = Some l" for a l
    using wf_heapD(4) [OF wf that] fr(2) [of "next_addr w"] by auto
  ultimately show ?thesis
    using wf fr(1) [of "Suc (next_addr w)"] fr(2) [of "next_addr w"]
    by (auto simp: wf_heap_def call_added_def created_call_def created_leg_def zero_leg_def
        call_legs_iff less_Suc_eq Let_def)
qed

lemma wf_heap_call_not_added: "wf_heap w \<Longrightarrow> wf_heap (call_not_added w)"
  by (auto simp: wf_heap_def call_wf_def call_not_added_def less_Suc_eq)

lemma wf_heap_frame [simp]:
  "wf_heap (w\<lparr>allocs := bs\<rparr>) = wf_heap w"
  "wf_heap (w\<lparr>writes := ws\<rparr>) = wf_heap w"
  "wf_heap (w\<lparr>out := os\<rparr>) = wf_heap w"
  "wf_heap (w\<lparr>conn := cn\<rparr>) = wf_heap w"
  "wf_heap (w\<lparr>g_app := ga\<rparr>) = wf_heap w"
  "wf_heap (w\<lparr>last_call_id := i\<rparr>) = wf_heap w"
  by (simp_all add: wf_heap_def call_wf_def)

lemma wf_heap_init: "wf_heap (init_world cfg)"
  by (simp add: wf_heap_def init_world_def)

section \<open>Received SDP\<close>

lemma wp_call_leg_rx_sdp [wp]:
  "wp (call_leg_rx_sdp a sdp) Q w = (\<exists>l. legs w a = Some l \<and>
     (case sdp of None \<Rightarrow> Q () w | Some s \<Rightarrow>
        (if s = [] \<or> take SDP_SIZE (rx_sdp l) = take SDP_SIZE s then Q () w
         else Q () (w\<lparr>legs := (legs w)(a \<mapsto>
                l\<lparr>rx_sdp := strlcpy SDP_SIZE s, rx_sdp_changed := True\<rparr>)\<rparr>))))"
  by (auto simp: call_leg_rx_sdp_def wp split: option.splits)

section \<open>Properties of the call layer\<close>

text \<open>An example heap: one MO call whose MNCC leg is its only leg.\<close>

definition example_config :: app_config where
  "example_config = \<lparr>sip_local_addr = ''127.0.0.1'', sip_local_port = 5060, sofia_log_level = 2,
     sip_remote_addr = ''pbx'', sip_remote_port = 5060, mncc_path = ''/tmp/msc_mncc'',
     use_imsi_as_id = 0\<rparr>"

definition example_world :: world where
  "example_world = call_added CALL_TYPE_MNCC (Mncc_object zero_mncc_leg) (init_world example_config)"

lemma example_world_wf: "wf_heap example_world"
  unfolding example_world_def by (rule wf_heap_call_added [OF wf_heap_init])

lemma example_world_leg:
  "legs example_world 2 = Some (created_leg CALL_TYPE_MNCC (Mncc_object zero_mncc_leg) 1)"
  "calls example_world 1 = Some (created_call 5001 2)" "timers example_world = []"
  by (simp_all add: example_world_def call_added_def init_world_def Let_def numeral_2_eq_2)

text \<open>The same call with a SIP leg as its second leg.\<close>

definition example_pair :: world where
  "example_pair = example_world\<lparr>
     legs := (legs example_world)(3 \<mapsto> created_leg CALL_TYPE_SIP (Sip_object zero_sip) 1),
     calls := (calls example_world)(1 \<mapsto> (created_call 5001 2)\<lparr>remote := Some 3\<rparr>),
     next_addr := 4\<rparr>"

lemma example_pair_wf: "wf_heap example_pair"
  by (auto simp: wf_heap_def call_wf_def call_legs_iff example_pair_def example_world_def
      call_added_def init_world_def created_call_def created_leg_def zero_leg_def zero_call_def
      Let_def numeral_2_eq_2)

text \<open>
  C20. Releasing a leg on a well-formed heap never faults: exactly that leg is freed, the call
  it belonged to is freed and taken off the list if and only if it was the call's last leg,
  every other call is untouched, nothing is sent, and the heap stays well-formed.
\<close>

theorem call_leg_release_correct:
  assumes "wf_heap w" and "legs w a = Some l" and "a \<notin> set (timers w)"
    and "calls w (leg_call l) = Some x"
  shows "\<exists>w'. call_leg_release a w = Inr ((), w') \<and> wf_heap w' \<and> legs w' = (legs w)(a := None)
      \<and> calls w' = (calls w)(leg_call l :=
            (if other_leg a x = None then None else Some (unlink a x)))
      \<and> set (g_call_list w') = set (g_call_list w) - (if other_leg a x = None then {leg_call l} else {})
      \<and> out w' = out w"
proof -
  have "wp (call_leg_release a) (\<lambda>_ w'. w' = leg_gone a (leg_call l) x w) w"
    using assms by (simp add: wp_call_leg_release)
  then have "call_leg_release a w = Inr ((), leg_gone a (leg_call l) x w)"
    by (auto simp: wp_iff_run)
  then show ?thesis
    using wf_heap_leg_gone [OF assms(1,2,4,3)] wf_heapD(1) [OF assms(1)]
    by (simp add: leg_gone_def)
qed

theorem call_leg_release_witness:
  "\<exists>w'. call_leg_release 2 example_world = Inr ((), w') \<and> wf_heap w' \<and> g_call_list w' = []"
  using call_leg_release_correct [OF example_world_wf example_world_leg(1)]
  by (auto simp: example_world_leg created_leg_def zero_leg_def created_call_def zero_call_def
      other_leg_def example_world_def call_added_def init_world_def Let_def)

text \<open>
  The two legs of a call find each other: whenever \<open>call_leg_other\<close> leads from one leg to
  a second, it leads back, and the two are different legs of the same call.
\<close>

theorem call_leg_other_symmetric:
  assumes "wf_heap w" and "call_leg_other a w = Inr (Some b, w)"
  shows "call_leg_other b w = Inr (Some a, w) \<and> a \<noteq> b"
proof -
  from assms(2) obtain l x where l: "legs w a = Some l" and x: "calls w (leg_call l) = Some x"
    and o: "other_leg a x = Some b"
    by (auto simp: call_leg_other_def get_leg_def get_call_def monad_defs other_leg_def
        split: option.splits sum.splits)
  obtain k where k: "legs w b = Some k" "leg_call k = leg_call l" "b \<noteq> a" "other_leg b x = Some a"
    using other_leg_cases [OF assms(1) l x o] .
  have "wp (call_leg_other b) (\<lambda>r w'. r = Some a \<and> w' = w) w"
    using k x by (simp add: wp)
  with k(3) show ?thesis by (auto simp: wp_iff_run)
qed

theorem call_leg_other_witness:
  "call_leg_other 2 example_pair = Inr (Some 3, example_pair)
   \<and> call_leg_other 3 example_pair = Inr (Some 2, example_pair) \<and> (2::addr) \<noteq> 3"
proof -
  have "call_leg_other 2 example_pair = Inr (Some 3, example_pair)"
    by (simp add: call_leg_other_def get_leg_def get_call_def monad_defs example_pair_def
        example_world_leg created_leg_def created_call_def zero_leg_def)
  with call_leg_other_symmetric [OF example_pair_wf this] show ?thesis by simp
qed

text \<open>
  A call is created completely or not at all. On success the call is new, heads the list,
  has the next call id and one leg of the requested kind that points back to it; on an
  allocation failure no call and no leg is left behind. The heap stays well-formed.
\<close>

theorem call_create_correct:
  assumes "wf_heap w"
  shows "\<exists>r w'. call_create ty ob w = Inr (r, w') \<and> wf_heap w' \<and>
    (case r of
       None \<Rightarrow> legs w' = legs w \<and> calls w' = calls w \<and> g_call_list w' = g_call_list w
     | Some c \<Rightarrow> calls w c = None \<and> g_call_list w' = c # g_call_list w
         \<and> (\<exists>a. legs w a = None \<and> legs w' = (legs w)(a \<mapsto> created_leg ty ob c)
              \<and> calls w' = (calls w)(c \<mapsto> created_call (last_call_id w + 1) a)))"
proof -
  have "wp (call_create ty ob) (\<lambda>r w'. wf_heap w' \<and>
    (case r of
       None \<Rightarrow> legs w' = legs w \<and> calls w' = calls w \<and> g_call_list w' = g_call_list w
     | Some c \<Rightarrow> calls w c = None \<and> g_call_list w' = c # g_call_list w
         \<and> (\<exists>a. legs w a = None \<and> legs w' = (legs w)(a \<mapsto> created_leg ty ob c)
              \<and> calls w' = (calls w)(c \<mapsto> created_call (last_call_id w + 1) a)))) w"
    using assms fresh_not_allocated [OF assms] wf_heap_call_added [OF assms]
      wf_heap_call_not_added [OF assms]
    by (simp add: wp_call_create [OF assms] split: list.splits bool.splits)
       (auto simp: call_added_def call_not_added_def Let_def intro!: exI [of _ "Suc (next_addr w)"])
  then show ?thesis by (simp add: wp_iff_run)
qed

theorem call_create_witness:
  "wf_heap (init_world example_config) \<and>
   (\<exists>r w'. call_create CALL_TYPE_MNCC (Mncc_object zero_mncc_leg) (init_world example_config)
       = Inr (r, w') \<and> wf_heap w')"
  using wf_heap_init call_create_correct [OF wf_heap_init] by blast

text \<open>
  C28. Storing received SDP: an absent or empty body changes nothing; a body that fits the
  buffer is stored whole, and the change flag is raised exactly when it differs from what was
  stored; the stored text always fits the buffer.
\<close>

theorem call_leg_rx_sdp_correct:
  assumes "legs w a = Some l" and "length (rx_sdp l) < 1024"
  shows "call_leg_rx_sdp a None w = Inr ((), w) \<and> call_leg_rx_sdp a (Some []) w = Inr ((), w)
    \<and> (\<exists>l'. call_leg_rx_sdp a (Some s) w = Inr ((), w\<lparr>legs := (legs w)(a \<mapsto> l')\<rparr>)
        \<and> length (rx_sdp l') < 1024
        \<and> (s \<noteq> [] \<and> length s < 1024 \<longrightarrow>
             rx_sdp l' = s \<and> (rx_sdp_changed l' \<longleftrightarrow> rx_sdp_changed l \<or> s \<noteq> rx_sdp l)))"
proof -
  have same: "w\<lparr>legs := (legs w)(a \<mapsto> l)\<rparr> = w"
    using assms(1) by (simp add: fun_upd_idem)
  have "wp (call_leg_rx_sdp a (Some s)) (\<lambda>_ w'. \<exists>l'. w' = w\<lparr>legs := (legs w)(a \<mapsto> l')\<rparr>
      \<and> length (rx_sdp l') < 1024 \<and> (s \<noteq> [] \<and> length s < 1024 \<longrightarrow>
          rx_sdp l' = s \<and> (rx_sdp_changed l' \<longleftrightarrow> rx_sdp_changed l \<or> s \<noteq> rx_sdp l))) w"
  proof (cases "s = [] \<or> take SDP_SIZE (rx_sdp l) = take SDP_SIZE s")
    case True
    with assms same show ?thesis by (auto simp: wp SDP_SIZE_def intro!: exI [of _ l])
  next
    case False
    have "length (strlcpy 1024 s) < 1024" by (rule le_less_trans [OF length_strlcpy]) simp
    with assms False show ?thesis
      by (auto simp: wp SDP_SIZE_def strlcpy_id
          intro!: exI [of _ "l\<lparr>rx_sdp := strlcpy 1024 s, rx_sdp_changed := True\<rparr>"])
  qed
  moreover have "wp (call_leg_rx_sdp a None) (\<lambda>_ w'. w' = w) w"
      "wp (call_leg_rx_sdp a (Some [])) (\<lambda>_ w'. w' = w) w"
    using assms(1) by (simp_all add: wp)
  ultimately show ?thesis by (auto simp: wp_iff_run)
qed

theorem call_leg_rx_sdp_witness:
  "\<exists>l'. call_leg_rx_sdp 2 (Some ''v=0'') example_world
      = Inr ((), example_world\<lparr>legs := (legs example_world)(2 \<mapsto> l')\<rparr>)
    \<and> rx_sdp l' = ''v=0'' \<and> rx_sdp_changed l'"
  using call_leg_rx_sdp_correct [OF example_world_leg(1), of "''v=0''"]
  by (auto simp: created_leg_def zero_leg_def)

text \<open>
  SDP that does not fit the buffer (1024 characters and more) is cut to 1023 characters,
  and the stored copy never compares equal to it: receiving the very same SDP again raises the
  change flag again, although nothing changed.
\<close>

theorem rx_sdp_long_always_changed:
  assumes "legs w a = Some l" and "length (rx_sdp l) < 1024" and "1024 \<le> length s"
  shows "call_leg_rx_sdp a (Some s) w = Inr ((), w\<lparr>legs := (legs w)(a \<mapsto>
     l\<lparr>rx_sdp := take 1023 s, rx_sdp_changed := True\<rparr>)\<rparr>)"
proof -
  have "length (take 1024 s) = 1024" using assms(3) by simp
  then have "take 1024 (rx_sdp l) \<noteq> take 1024 s" using assms(2)
    by (metis length_take min.strict_order_iff min.commute nat_neq_iff)
  moreover have "s \<noteq> []" using assms(3) by auto
  ultimately have "wp (call_leg_rx_sdp a (Some s)) (\<lambda>_ w'. w' = w\<lparr>legs := (legs w)(a \<mapsto>
     l\<lparr>rx_sdp := take 1023 s, rx_sdp_changed := True\<rparr>)\<rparr>) w"
    using assms(1) by (simp add: wp SDP_SIZE_def strlcpy_def)
  then show ?thesis by (auto simp: wp_iff_run)
qed

theorem rx_sdp_long_witness:
  "\<exists>l. call_leg_rx_sdp 2 (Some (replicate 1024 (CHR ''a''))) example_world
      = Inr ((), example_world\<lparr>legs := (legs example_world)(2 \<mapsto> l)\<rparr>)
    \<and> rx_sdp_changed l"
  using rx_sdp_long_always_changed [OF example_world_leg(1), of "replicate 1024 (CHR ''a'')"]
  by (auto simp: created_leg_def zero_leg_def simp del: replicate.simps)

end
