(* ===== verification/Invariant.thy ===== *)
theory Invariant
  imports Call
begin

text \<open>
  The invariant of the running connector: a well-formed heap whose legs carry the function
  pointers their kind needs, whose calls pair one SIP leg with one MNCC leg, and in which MNCC
  legs exist only while the MNCC socket is open. The invariant looks at a leg only through its
  \<open>identity\<close>; the interface \<open>leg_op\<close> at the end states what an operation called through a
  leg's function pointer may do to the rest of the state.
\<close>

section \<open>Identity of a leg\<close>

definition leg_mo :: "call_leg \<Rightarrow> bool" where
  "leg_mo l = (case leg_object l of Mncc_object m \<Rightarrow> mncc_direction m = MNCC_DIR_MO
     | Sip_object s \<Rightarrow> sip_direction s = SIP_DIR_MO)"

definition leg_handle :: "call_leg \<Rightarrow> addr option" where
  "leg_handle l = (case leg_object l of Mncc_object m \<Rightarrow> None | Sip_object s \<Rightarrow> nua_handle s)"

record identity =
  id_type :: call_type
  id_call :: addr
  id_mncc :: bool
  id_mo :: bool
  id_handle :: "addr option"
  id_callbacks :: "fnptr option list"

definition ident :: "call_leg \<Rightarrow> identity" where
  "ident l = \<lparr>id_type = leg_type l, id_call = leg_call l, id_mncc = is_mncc l, id_mo = leg_mo l,
     id_handle = leg_handle l,
     id_callbacks = [ring_call l, connect_call l, release_call l, dtmf l, hold_call l,
                     retrieve_call l, update_rtp l]\<rparr>"

definition mncc_identity :: "addr \<Rightarrow> bool \<Rightarrow> identity" where
  "mncc_identity c mo = \<lparr>id_type = CALL_TYPE_MNCC, id_call = c, id_mncc = True, id_mo = mo,
     id_handle = None,
     id_callbacks = [Some FP_mncc_call_leg_ring, Some FP_mncc_call_leg_connect,
       Some FP_mncc_call_leg_release, None, None, None, Some FP_update_rtp]\<rparr>"

text \<open>A SIP leg created for an incoming INVITE (MO) and one created by the connector (MT): the
  latter has no ring and no connect function.\<close>

definition sip_identity :: "addr \<Rightarrow> bool \<Rightarrow> addr \<Rightarrow> identity" where
  "sip_identity c mo h = \<lparr>id_type = CALL_TYPE_SIP, id_call = c, id_mncc = False, id_mo = mo,
     id_handle = Some h,
     id_callbacks = [if mo then Some FP_sip_ring_call else None,
       if mo then Some FP_sip_connect_call else None,
       Some FP_sip_release_call, Some FP_sip_dtmf_call, Some FP_sip_hold_call,
       Some FP_sip_retrieve_call, None]\<rparr>"

text \<open>A SIP leg on which \<open>new_call\<close> gave up before it set the leg up.\<close>

definition bare_identity :: "addr \<Rightarrow> identity" where
  "bare_identity c = \<lparr>id_type = CALL_TYPE_SIP, id_call = c, id_mncc = False, id_mo = True,
     id_handle = None, id_callbacks = [None, None, None, None, None, None, None]\<rparr>"

definition bare :: "call_leg \<Rightarrow> bool" where
  "bare l = (\<exists>c. ident l = bare_identity c)"

definition leg_ok :: "call_leg \<Rightarrow> bool" where
  "leg_ok l = (\<exists>c. ident l = mncc_identity c True \<or> ident l = mncc_identity c False
     \<or> (\<exists>h. ident l = sip_identity c True h) \<or> (\<exists>h. ident l = sip_identity c False h)
     \<or> ident l = bare_identity c)"

lemma ident_eqD:
  assumes "ident l' = ident l"
  shows "leg_type l' = leg_type l" "leg_call l' = leg_call l" "is_mncc l' = is_mncc l"
    "leg_mo l' = leg_mo l" "leg_handle l' = leg_handle l" "bare l' = bare l" "leg_ok l' = leg_ok l"
    "ring_call l' = ring_call l" "connect_call l' = connect_call l" "release_call l' = release_call l"
    "dtmf l' = dtmf l" "hold_call l' = hold_call l" "retrieve_call l' = retrieve_call l"
    "update_rtp l' = update_rtp l"
  using assms by (simp_all add: ident_def bare_def leg_ok_def)

text \<open>The two kinds of leg, as the operations meet them.\<close>

lemma leg_ok_mncc:
  assumes "leg_ok l" and "is_mncc l"
  shows "leg_type l = CALL_TYPE_MNCC" "ring_call l = Some FP_mncc_call_leg_ring"
    "connect_call l = Some FP_mncc_call_leg_connect" "release_call l = Some FP_mncc_call_leg_release"
    "update_rtp l = Some FP_update_rtp" "dtmf l = None" "hold_call l = None" "retrieve_call l = None"
    "\<exists>m. leg_object l = Mncc_object m" "\<not> bare l" "leg_handle l = None"
  using assms by (auto simp: leg_ok_def ident_def mncc_identity_def sip_identity_def
      bare_identity_def bare_def is_mncc_def split: leg_object.splits)

lemma leg_ok_sip:
  assumes "leg_ok l" and "\<not> is_mncc l"
  shows "leg_type l = CALL_TYPE_SIP" "update_rtp l = None" "\<exists>s. leg_object l = Sip_object s"
    "\<not> bare l \<Longrightarrow> release_call l = Some FP_sip_release_call"
    "\<not> bare l \<Longrightarrow> dtmf l = Some FP_sip_dtmf_call"
    "\<not> bare l \<Longrightarrow> hold_call l = Some FP_sip_hold_call"
    "\<not> bare l \<Longrightarrow> retrieve_call l = Some FP_sip_retrieve_call"
    "\<not> bare l \<Longrightarrow> ring_call l = (if leg_mo l then Some FP_sip_ring_call else None)"
    "\<not> bare l \<Longrightarrow> connect_call l = (if leg_mo l then Some FP_sip_connect_call else None)"
    "\<not> bare l \<Longrightarrow> \<exists>h. leg_handle l = Some h"
    "bare l \<Longrightarrow> leg_handle l = None \<and> leg_mo l"
  using assms by (auto simp: leg_ok_def ident_def mncc_identity_def sip_identity_def
      bare_identity_def bare_def is_mncc_def split: leg_object.splits)

section \<open>The invariant\<close>

text \<open>The initial leg started the call, the remote leg was created for it; two legs are one SIP
  leg and one MNCC leg.\<close>

definition call_ok :: "world \<Rightarrow> call \<Rightarrow> bool" where
  "call_ok w x =
     ((\<forall>a l. initial x = Some a \<and> legs w a = Some l \<longrightarrow> leg_mo l)
      \<and> (\<forall>a l. remote x = Some a \<and> legs w a = Some l \<longrightarrow> \<not> leg_mo l)
      \<and> (\<forall>a b k l. initial x = Some a \<and> remote x = Some b \<and> legs w a = Some k \<and> legs w b = Some l
           \<longrightarrow> is_mncc k \<noteq> is_mncc l \<and> \<not> bare k))"

text \<open>The socket is closed exactly while the connection is down, and exactly then a new attempt to
  connect is scheduled; MNCC legs exist only while it is open.\<close>

definition conn_ok :: "world \<Rightarrow> bool" where
  "conn_ok w = ((conn_fd (conn w) < 0 \<longleftrightarrow> conn_state (conn w) = MNCC_DISCONNECTED)
     \<and> (conn_fd (conn w) < 0 \<longleftrightarrow> reconnect_pending (conn w))
     \<and> on_disconnect (conn w) = Some FP_app_mncc_disconnected
     \<and> (conn_fd (conn w) < 0 \<longrightarrow> (\<forall>a l. legs w a = Some l \<longrightarrow> \<not> is_mncc l)))"

definition legs_ok :: "world \<Rightarrow> bool" where
  "legs_ok w = ((\<forall>a l. legs w a = Some l \<longrightarrow> leg_ok l)
     \<and> (\<forall>c x. calls w c = Some x \<longrightarrow> call_ok w x))"

definition inv :: "world \<Rightarrow> bool" where
  "inv w = (wf_heap w \<and> legs_ok w \<and> conn_ok w)"

lemma invD:
  assumes "inv w"
  shows "wf_heap w" "legs_ok w" "conn_ok w"
    and "legs w a = Some l \<Longrightarrow> leg_ok l"
    and "calls w c = Some x \<Longrightarrow> call_ok w x"
  using assms by (auto simp: inv_def legs_ok_def)

text \<open>The invariant without the clause on the connection holds while a connection is being
  closed.\<close>

definition heap_inv :: "world \<Rightarrow> bool" where
  "heap_inv w = (wf_heap w \<and> legs_ok w)"

lemma inv_iff: "inv w \<longleftrightarrow> heap_inv w \<and> conn_ok w"
  by (simp add: inv_def heap_inv_def)

lemma heap_invD:
  assumes "heap_inv w"
  shows "wf_heap w"
    and "legs w a = Some l \<Longrightarrow> leg_ok l"
    and "calls w c = Some x \<Longrightarrow> call_ok w x"
  using assms by (auto simp: heap_inv_def legs_ok_def)

text \<open>Updating a leg without touching its identity.\<close>

lemma call_ok_mono:
  assumes sub: "\<And>a l'. legs w' a = Some l' \<Longrightarrow> \<exists>l. legs w a = Some l \<and> ident l' = ident l"
    and ok: "call_ok w x"
  shows "call_ok w' x"
proof -
  have 1: "leg_mo l'" if "initial x = Some a" "legs w' a = Some l'" for a l'
    using sub [OF that(2)] that(1) ok by (auto simp: call_ok_def dest: ident_eqD(4))
  have 2: "\<not> leg_mo l'" if "remote x = Some a" "legs w' a = Some l'" for a l'
    using sub [OF that(2)] that(1) ok by (auto simp: call_ok_def dest: ident_eqD(4))
  have 3: "is_mncc k' \<noteq> is_mncc l' \<and> \<not> bare k'"
    if p: "initial x = Some a" "remote x = Some b" "legs w' a = Some k'" "legs w' b = Some l'" for a b k' l'
  proof -
    obtain k where k: "legs w a = Some k" "ident k' = ident k" using sub [OF p(3)] by blast
    obtain l where l: "legs w b = Some l" "ident l' = ident l" using sub [OF p(4)] by blast
    have "is_mncc k \<noteq> is_mncc l \<and> \<not> bare k"
      using ok p(1,2) k(1) l(1) unfolding call_ok_def by blast
    then show ?thesis using ident_eqD(3,6) [OF k(2)] ident_eqD(3) [OF l(2)] by simp
  qed
  show ?thesis unfolding call_ok_def using 1 2 3 by blast
qed

lemma heap_inv_upd_leg:
  assumes "legs w a = Some l" and "ident l' = ident l" and "heap_inv w"
  shows "heap_inv (w\<lparr>legs := (legs w)(a \<mapsto> l')\<rparr>)"
proof -
  have "call_ok (w\<lparr>legs := (legs w)(a \<mapsto> l')\<rparr>) x" if "call_ok w x" for x
    by (rule call_ok_mono [OF _ that]) (use assms(1,2) in \<open>auto split: if_splits\<close>)
  then show ?thesis
    using assms wf_heap_upd_leg [OF _ assms(1), of l'] ident_eqD [OF assms(2)]
    by (auto simp: heap_inv_def legs_ok_def)
qed

lemma conn_ok_upd_leg:
  assumes "legs w a = Some l" and "ident l' = ident l" and "conn_ok w"
  shows "conn_ok (w\<lparr>legs := (legs w)(a \<mapsto> l')\<rparr>)"
  using assms ident_eqD [OF assms(2)] by (auto simp: conn_ok_def)

lemma heap_inv_frame [simp]:
  "heap_inv (w\<lparr>allocs := bs\<rparr>) = heap_inv w"
  "heap_inv (w\<lparr>writes := ws\<rparr>) = heap_inv w"
  "heap_inv (w\<lparr>out := os\<rparr>) = heap_inv w"
  "heap_inv (w\<lparr>conn := cn\<rparr>) = heap_inv w"
  "heap_inv (w\<lparr>g_app := ga\<rparr>) = heap_inv w"
  by (simp_all add: heap_inv_def legs_ok_def call_ok_def)

lemma conn_ok_frame [simp]:
  "conn_ok (w\<lparr>allocs := bs\<rparr>) = conn_ok w"
  "conn_ok (w\<lparr>writes := ws\<rparr>) = conn_ok w"
  "conn_ok (w\<lparr>out := os\<rparr>) = conn_ok w"
  "conn_ok (w\<lparr>g_app := ga\<rparr>) = conn_ok w"
  "conn_ok (w\<lparr>calls := cs\<rparr>) = conn_ok w"
  "conn_ok (w\<lparr>g_call_list := gl\<rparr>) = conn_ok w"
  "conn_ok (w\<lparr>timers := ts\<rparr>) = conn_ok w"
  "conn_ok (w\<lparr>next_addr := na\<rparr>) = conn_ok w"
  "conn_ok (w\<lparr>last_call_id := li\<rparr>) = conn_ok w"
  by (simp_all add: conn_ok_def)

lemma heap_inv_timers:
  assumes "heap_inv w" and "\<And>a. a \<in> set ts \<Longrightarrow> \<exists>l. legs w a = Some l \<and> is_mncc l"
  shows "heap_inv (w\<lparr>timers := ts\<rparr>)"
  using assms by (auto simp: heap_inv_def wf_heap_def call_wf_def legs_ok_def call_ok_def)

lemma heap_inv_timers_removeAll: "heap_inv w \<Longrightarrow> heap_inv (w\<lparr>timers := removeAll a (timers w)\<rparr>)"
  by (rule heap_inv_timers) (auto dest: wf_heapD(7) [OF heap_invD(1)])

lemma conn_ok_leg_gone: "conn_ok w \<Longrightarrow> conn_ok (leg_gone a c x w)"
  by (auto simp: conn_ok_def leg_gone_def)

lemma heap_inv_leg_gone:
  assumes inv: "heap_inv w" and l: "legs w a = Some l" and x: "calls w (leg_call l) = Some x"
    and t: "a \<notin> set (timers w)"
  shows "heap_inv (leg_gone a (leg_call l) x w)"
proof -
  let ?w = "leg_gone a (leg_call l) x w"
  have sub: "legs ?w b = Some k \<Longrightarrow> \<exists>k'. legs w b = Some k' \<and> ident k = ident k'" for b k
    by (auto simp: leg_gone_def split: if_splits)
  have mono: "call_ok ?w y" if "call_ok w y" for y
    by (rule call_ok_mono [OF sub that])
  have "call_ok ?w (unlink a x)"
    using mono [OF heap_invD(3) [OF inv x]] by (auto simp: call_ok_def unlink_def)
  moreover have "calls ?w c = Some y \<Longrightarrow> calls w c = Some y \<or> y = unlink a x" for c y
    by (auto simp: leg_gone_def split: if_splits)
  moreover have "legs ?w b = Some k \<Longrightarrow> legs w b = Some k" for b k
    by (auto simp: leg_gone_def split: if_splits)
  ultimately show ?thesis
    using wf_heap_leg_gone [OF heap_invD(1) [OF inv] l x t] mono heap_invD(2,3) [OF inv]
    unfolding heap_inv_def legs_ok_def by blast
qed

text \<open>Linking a second leg into a call.\<close>

lemma wf_heap_add_remote:
  assumes wf: "wf_heap w" and c: "calls w c = Some x" and i: "initial x = Some i" and r: "remote x = None"
    and a: "next_addr w \<le> a" "a < na" and l: "leg_call l = c"
  shows "wf_heap (w\<lparr>legs := (legs w)(a \<mapsto> l), calls := (calls w)(c \<mapsto> x\<lparr>remote := Some a\<rparr>), next_addr := na\<rparr>)"
    (is "wf_heap ?w")
proof -
  have fr: "legs w a = None" using fresh_not_allocated(1) [OF wf a(1)] .
  have ia: "i \<noteq> a" using fr wf_heap_call_leg [OF wf c, of i] i by fastforce
  have "call_wf ?w d y" if "calls w d = Some y" for d y
    using wf_heapD(3) [OF wf that] fr by (fastforce simp: call_wf_def)
  moreover have "call_wf ?w c (x\<lparr>remote := Some a\<rparr>)"
    using wf_heapD(3) [OF wf c] i r l ia by (auto simp: call_wf_def call_legs_iff)
  moreover have "b \<in> call_legs x \<Longrightarrow> b \<in> call_legs (x\<lparr>remote := Some a\<rparr>)" for b
    using r by (auto simp: call_legs_iff)
  moreover have "a \<in> call_legs (x\<lparr>remote := Some a\<rparr>)" by (simp add: call_legs_iff)
  moreover have "legs w b = Some k \<Longrightarrow> leg_call k = c \<Longrightarrow> b \<in> call_legs x" for b k
    using wf_heapD(4) [OF wf, of b k] c by auto
  moreover have "na > next_addr w" using a by simp
  ultimately show ?thesis
    using wf c l a fr less_trans [OF _ \<open>na > next_addr w\<close>] by (auto simp: wf_heap_def)
qed

lemma heap_inv_add_remote:
  assumes inv: "heap_inv w" and c: "calls w c = Some x" and i: "initial x = Some i" and r: "remote x = None"
    and li: "legs w i = Some li" "\<not> bare li" and a: "next_addr w \<le> a" "a < na"
    and l: "leg_call l = c" "leg_ok l" "\<not> leg_mo l" "is_mncc l \<noteq> is_mncc li"
  shows "heap_inv (w\<lparr>legs := (legs w)(a \<mapsto> l), calls := (calls w)(c \<mapsto> x\<lparr>remote := Some a\<rparr>), next_addr := na\<rparr>)"
    (is "heap_inv ?w")
proof -
  note wf = heap_invD(1) [OF inv]
  have fr: "legs w a = None" using fresh_not_allocated(1) [OF wf a(1)] .
  have notin: "initial y \<noteq> Some a" "remote y \<noteq> Some a" if y: "calls w d = Some y" for d y
    using wf_heap_call_leg [OF wf y, of a] fr by auto
  have "call_ok ?w y" if "calls w d = Some y" for d y
    using heap_invD(3) [OF inv that] notin [OF that] by (auto simp: call_ok_def)
  moreover have "call_ok ?w (x\<lparr>remote := Some a\<rparr>)"
    using heap_invD(3) [OF inv c] notin [OF c] i r li l by (auto simp: call_ok_def)
  moreover have "\<forall>b k. legs ?w b = Some k \<longrightarrow> leg_ok k"
    using heap_invD(2) [OF inv] l(2) by (auto split: if_splits)
  ultimately show ?thesis
    using wf_heap_add_remote [OF wf c i r a l(1)] by (auto simp: heap_inv_def legs_ok_def)
qed

section \<open>Operations that stay within a leg\<close>

text \<open>
  From \<open>w\<close> to \<open>w'\<close> only the leg at \<open>a\<close> and its own call changed: the leg kept its identity or
  is gone, the other legs, the other calls, the timers and the connection are the same.
\<close>

definition only_leg :: "addr \<Rightarrow> world \<Rightarrow> world \<Rightarrow> bool" where
  "only_leg a w w' = ((\<forall>b. b \<noteq> a \<longrightarrow> legs w' b = legs w b)
     \<and> (\<forall>l'. legs w' a = Some l' \<longrightarrow> (\<exists>l. legs w a = Some l \<and> ident l' = ident l))
     \<and> (\<forall>l c. legs w a = Some l \<and> c \<noteq> leg_call l \<longrightarrow> calls w' c = calls w c)
     \<and> timers w' = timers w \<and> conn w' = conn w \<and> writes w' = writes w \<and> g_app w' = g_app w)"

lemma only_legD:
  assumes "only_leg a w w'"
  shows "b \<noteq> a \<Longrightarrow> legs w' b = legs w b"
    and "legs w' a = Some l' \<Longrightarrow> \<exists>l. legs w a = Some l \<and> ident l' = ident l"
    and "legs w a = Some l \<Longrightarrow> c \<noteq> leg_call l \<Longrightarrow> calls w' c = calls w c"
    and "timers w' = timers w" and "conn w' = conn w" and "writes w' = writes w" and "g_app w' = g_app w"
  using assms by (auto simp: only_leg_def)

lemma only_leg_ident:
  assumes "only_leg a w w'" and "legs w' b = Some l'"
  shows "\<exists>l. legs w b = Some l \<and> ident l' = ident l"
  using only_legD(1,2) [OF assms(1)] assms(2) by (cases "b = a") auto

lemma only_leg_conn_ok: "only_leg a w w' \<Longrightarrow> conn_ok w \<Longrightarrow> conn_ok w'"
  using only_leg_ident [of a w w'] only_legD(5) [of a w w'] ident_eqD(3)
  unfolding conn_ok_def by metis

lemma only_leg_refl [simp]: "only_leg a w w"
  by (simp add: only_leg_def)

lemma only_leg_upd:
  assumes "legs w a = Some l" and "ident l' = ident l"
  shows "only_leg a w (w\<lparr>legs := (legs w)(a \<mapsto> l')\<rparr>)"
  using assms by (simp add: only_leg_def)

lemma only_leg_out [simp]: "only_leg a w (w'\<lparr>out := os\<rparr>) = only_leg a w w'"
  by (simp add: only_leg_def)

lemma only_leg_gone: "legs w a = Some l \<Longrightarrow> only_leg a w (leg_gone a (leg_call l) x w)"
  by (simp add: only_leg_def leg_gone_def)

lemma leg_gone_out [simp]: "leg_gone a c x (w\<lparr>out := os\<rparr>) = (leg_gone a c x w)\<lparr>out := os\<rparr>"
  by (simp add: leg_gone_def)

text \<open>The interface of an operation reached through a function pointer of a leg.\<close>

locale leg_op =
  fixes op :: "addr \<Rightarrow> unit io" and good :: "call_leg \<Rightarrow> bool"
  assumes contract: "heap_inv w \<Longrightarrow> legs w a = Some l \<Longrightarrow> good l \<Longrightarrow>
    wp (op a) (\<lambda>_ w'. heap_inv w' \<and> only_leg a w w') w"
begin

lemma runs:
  assumes "heap_inv w" and "legs w a = Some l" and "good l"
  obtains w' where "op a w = Inr ((), w')" and "heap_inv w'" and "only_leg a w w'"
  using contract [OF assms] by (auto simp: wp_iff_run)

lemma keeps_inv:
  assumes "inv w" and "legs w a = Some l" and "good l"
  shows "wp (op a) (\<lambda>_ w'. inv w' \<and> only_leg a w w') w"
  by (rule wp_mono [OF contract [OF _ assms(2,3)]])
     (use assms(1) in \<open>auto simp: inv_iff dest: only_leg_conn_ok\<close>)

text \<open>The other leg of the call survives.\<close>

lemma other_survives:
  assumes "heap_inv w" and "legs w a = Some l" and "good l" and "legs w b = Some k" and "b \<noteq> a"
  shows "wp (op a) (\<lambda>_ w'. legs w' b = Some k \<and> heap_inv w') w"
  by (rule wp_mono [OF contract [OF assms(1-3)]]) (use assms(4,5) in \<open>auto dest: only_legD(1)\<close>)

end

text \<open>
  The weaker promise of operations that also start or stop the leg's command timer, or that
  rely on a condition of the state: the other legs, the connection and the configuration are
  untouched, the leg itself keeps its identity or is gone.
\<close>

definition leg_frame :: "addr \<Rightarrow> world \<Rightarrow> world \<Rightarrow> bool" where
  "leg_frame a w w' = ((\<forall>b. b \<noteq> a \<longrightarrow> legs w' b = legs w b)
     \<and> (\<forall>l'. legs w' a = Some l' \<longrightarrow> (\<exists>l. legs w a = Some l \<and> ident l' = ident l))
     \<and> conn w' = conn w \<and> writes w' = writes w \<and> g_app w' = g_app w)"

lemma leg_frameD:
  assumes "leg_frame a w w'"
  shows "b \<noteq> a \<Longrightarrow> legs w' b = legs w b"
    and "legs w' a = Some l' \<Longrightarrow> \<exists>l. legs w a = Some l \<and> ident l' = ident l"
    and "conn w' = conn w" and "writes w' = writes w" and "g_app w' = g_app w"
  using assms by (auto simp: leg_frame_def)

lemma leg_frame_ident:
  assumes "leg_frame a w w'" and "legs w' b = Some l'"
  shows "\<exists>l. legs w b = Some l \<and> ident l' = ident l"
  using leg_frameD(1,2) [OF assms(1)] assms(2) by (cases "b = a") auto

lemma leg_frame_conn_ok: "leg_frame a w w' \<Longrightarrow> conn_ok w \<Longrightarrow> conn_ok w'"
  using leg_frame_ident [of a w w'] leg_frameD(3) [of a w w'] ident_eqD(3)
  unfolding conn_ok_def by metis

lemma only_leg_frame: "only_leg a w w' \<Longrightarrow> leg_frame a w w'"
  by (simp add: only_leg_def leg_frame_def)

lemma leg_frame_refl [simp]: "leg_frame a w w"
  by (simp add: leg_frame_def)

lemma leg_frame_simps [simp]:
  "leg_frame a w (w'\<lparr>out := os\<rparr>) = leg_frame a w w'"
  "leg_frame a w (w'\<lparr>timers := ts\<rparr>) = leg_frame a w w'"
  by (simp_all add: leg_frame_def)

lemma leg_frame_upd:
  assumes "legs w a = Some l" and "ident l' = ident l"
  shows "leg_frame a w (w\<lparr>legs := (legs w)(a \<mapsto> l')\<rparr>)"
  using assms by (simp add: leg_frame_def)

lemma leg_frame_trans:
  assumes "leg_frame a w v" and "leg_frame a v u"
  shows "leg_frame a w u"
proof -
  have "\<exists>l. legs w a = Some l \<and> ident l' = ident l" if "legs u a = Some l'" for l'
    using leg_frameD(2) [OF assms(2) that] leg_frameD(2) [OF assms(1)] by force
  then show ?thesis
    using leg_frameD(1,3-) [OF assms(1)] leg_frameD(1,3-) [OF assms(2)] by (simp add: leg_frame_def)
qed

locale framed_op =
  fixes op :: "addr \<Rightarrow> unit io" and good :: "call_leg \<Rightarrow> bool" and cond :: "world \<Rightarrow> addr \<Rightarrow> bool"
  assumes framed: "heap_inv w \<Longrightarrow> cond w a \<Longrightarrow> legs w a = Some l \<Longrightarrow> good l \<Longrightarrow>
    wp (op a) (\<lambda>_ w'. heap_inv w' \<and> leg_frame a w w') w"
begin

lemma framed_inv:
  assumes "inv w" and "cond w a" and "legs w a = Some l" and "good l"
  shows "wp (op a) (\<lambda>_ w'. inv w' \<and> leg_frame a w w') w"
  by (rule wp_mono [OF framed [OF _ assms(2-4)]])
     (use assms(1) in \<open>auto simp: inv_iff dest: leg_frame_conn_ok\<close>)

end

sublocale leg_op \<subseteq> framed_op op good "\<lambda>_ _. True"
  by unfold_locales (rule wp_mono [OF contract], auto dest: only_leg_frame)

end
