(* ===== verification/Sdp.thy ===== *)
theory Sdp
  imports Call
begin

text \<open>
  \<open>src/src/sdp.c\<close> with \<open>app_media_name\<close> of \<open>src/src/app.c\<close>: reading the media mode of a SIP
  body, screening it for a supported codec, extracting the RTP address, port and payload type
  into a SIP leg, and composing the SDP sent to the SIP side. Parsing and printing of SDP are
  Sofia-SIP's and parameters of the model (\<open>x_sdp_parse\<close>, \<open>x_sdp_print\<close>).
\<close>

section \<open>Operations\<close>

text \<open>\<open>app_media_name\<close>; its argument is an \<open>int\<close>, called with a 32-bit frame type.\<close>

definition app_media_name :: "u32 \<Rightarrow> string" where
  "app_media_name ptmsg =
     (if ptmsg = GSM_TCHF_FRAME then ''GSM''
      else if ptmsg = GSM_TCHF_FRAME_EFR then ''GSM-EFR''
      else if ptmsg = GSM_TCHH_FRAME then ''GSM-HR-08''
      else if ptmsg = GSM_TCH_FRAME_AMR then ''AMR''
      else ''unknown'')"

text \<open>\<open>sip->sip_payload->pl_data\<close> where both pointers are set.\<close>

definition payload_data :: "sip_msg \<Rightarrow> string option" where
  "payload_data sip = (case sip_payload sip of None \<Rightarrow> None | Some d \<Rightarrow> d)"

text \<open>The session of a body, where there is a body, a parser and a session.\<close>

definition parsed_session :: "ext \<Rightarrow> sip_msg \<Rightarrow> bool \<Rightarrow> sdp_session option" where
  "parsed_session X sip mode_0000 = (case payload_data sip of
       None \<Rightarrow> None
     | Some d \<Rightarrow> (case x_sdp_parse X d mode_0000 of None \<Rightarrow> None | Some sdp \<Rightarrow> sdp))"

text \<open>The result is the mode where the function returns true. \<open>sdp_inactive\<close> is 0.\<close>

definition sdp_get_sdp_mode :: "ext \<Rightarrow> sip_msg \<Rightarrow> sdp_mode option" where
  "sdp_get_sdp_mode X sip = (case parsed_session X sip True of
       None \<Rightarrow> None
     | Some sdp \<Rightarrow> (case sdp_medias sdp of
           [] \<Rightarrow> None
         | m # _ \<Rightarrow> (if m_mode m = sdp_inactive then None else Some (m_mode m))))"

definition supported_encoding :: "string \<Rightarrow> bool" where
  "supported_encoding e = (strcaseeq e ''GSM'' \<or> strcaseeq e ''GSM-EFR''
     \<or> strcaseeq e ''GSM-HR-08'' \<or> strcaseeq e ''AMR'')"

fun screen_maps :: "sdp_rtpmap list \<Rightarrow> bool" where
  "screen_maps [] = False"
| "screen_maps (r # rs) = (if supported_encoding (rm_encoding r) then True else screen_maps rs)"

fun screen_medias :: "sdp_media list \<Rightarrow> bool" where
  "screen_medias [] = False"
| "screen_medias (m # ms) =
     (if m_proto m \<noteq> sdp_proto_rtp then screen_medias ms
      else if m_type m \<noteq> sdp_media_audio then screen_medias ms
      else if screen_maps (m_rtpmaps m) then True else screen_medias ms)"

definition sdp_screen_sdp :: "ext \<Rightarrow> sip_msg \<Rightarrow> bool" where
  "sdp_screen_sdp X sip = (case parsed_session X sip False of
       None \<Rightarrow> False | Some sdp \<Rightarrow> screen_medias (sdp_medias sdp))"

text \<open>The loop over the session's connection lines: the address with family, once one parses.\<close>

fun extract_conn :: "ext \<Rightarrow> sdp_connection list \<Rightarrow> sockaddr_storage \<Rightarrow> sockaddr_storage option" where
  "extract_conn X [] sa = None"
| "extract_conn X (c # cs) sa = (case c_addrtype c of
       sdp_addr_ip4 \<Rightarrow> (case x_inet_pton4 X (c_address c) of
           None \<Rightarrow> extract_conn X cs sa
         | Some ip \<Rightarrow> Some (sa\<lparr>sin_addr := ip, ss_family := AF_INET\<rparr>))
     | sdp_addr_ip6 \<Rightarrow> (case x_inet_pton6 X (c_address c) of
           None \<Rightarrow> extract_conn X cs sa
         | Some ip \<Rightarrow> Some (sa\<lparr>sin6_addr := ip, ss_family := AF_INET6\<rparr>))
     | sdp_addr_other \<Rightarrow> extract_conn X cs sa)"

text \<open>The first acceptable codec of a media line.\<close>

fun extract_map :: "bool \<Rightarrow> string option \<Rightarrow> sdp_rtpmap list \<Rightarrow> sdp_rtpmap option" where
  "extract_map any wanted [] = None"
| "extract_map any wanted (r # rs) =
     (if \<not> any \<and> (case wanted of None \<Rightarrow> False | Some e \<Rightarrow> \<not> strcaseeq (rm_encoding r) e)
      then extract_map any wanted rs else Some r)"

text \<open>The loop over the media lines: port (cut to 16 bits) and payload type.\<close>

fun extract_media :: "bool \<Rightarrow> string option \<Rightarrow> sdp_media list \<Rightarrow> (u16 \<times> u32) option" where
  "extract_media any wanted [] = None"
| "extract_media any wanted (m # ms) =
     (if m_proto m \<noteq> sdp_proto_rtp then extract_media any wanted ms
      else if m_type m \<noteq> sdp_media_audio then extract_media any wanted ms
      else (case extract_map any wanted (m_rtpmaps m) of
              None \<Rightarrow> extract_media any wanted ms
            | Some r \<Rightarrow> Some (of_nat (m_port m), of_nat (rm_pt r))))"

text \<open>
  Address family and address are written as soon as a connection line parses, the payload type
  as soon as a codec is found; the port only if both were found.
\<close>

definition sdp_extract_sdp :: "ext \<Rightarrow> addr \<Rightarrow> sip_msg \<Rightarrow> bool \<Rightarrow> bool io" where
  "sdp_extract_sdp X a sip any_codec = (case parsed_session X sip False of
       None \<Rightarrow> mret False
     | Some sdp \<Rightarrow> mbind (get_leg a) (\<lambda>l. mbind (get_sip a) (\<lambda>s.
         let cn = extract_conn X (sdp_connections sdp) (leg_addr l);
             md = extract_media any_codec (wanted_codec s) (sdp_medias sdp) in
         mthen (case cn of None \<Rightarrow> mret () | Some sa \<Rightarrow> upd_leg a (leg_addr_update (\<lambda>_. sa)))
         (mthen (case md of None \<Rightarrow> mret () | Some (port, pt) \<Rightarrow> upd_leg a (payload_type_update (\<lambda>_. pt)))
         (case md of
            None \<Rightarrow> mret False
          | Some (port, pt) \<Rightarrow>
              (if cn = None then mret False
               else mbind (get_leg a) (\<lambda>l.
                 if ss_family (leg_addr l) = AF_INET \<or> ss_family (leg_addr l) = AF_INET6
                 then mthen (upd_leg a (leg_addr_update (sa_port_update (\<lambda>_. port)))) (mret True)
                 else mfail Assert_failed)))))))"

definition CRLF :: string where
  "CRLF = [CHR 0x0D, CHR 0x0A]"

definition mode_attribute :: "sdp_mode \<Rightarrow> string" where
  "mode_attribute mode = (case mode of
       sdp_inactive \<Rightarrow> ''a=inactive'' | sdp_sendrecv \<Rightarrow> ''a=sendrecv''
     | sdp_sendonly \<Rightarrow> ''a=sendonly'' | sdp_recvonly \<Rightarrow> ''a=recvonly'') @ CRLF"

text \<open>The SDP composed from the RTP information of the other leg. Payload types are printed
  with \<open>%d\<close>, that is as signed values.\<close>

definition legacy_sdp :: "ext \<Rightarrow> call_leg \<Rightarrow> sdp_mode \<Rightarrow> string" where
  "legacy_sdp X other mode = (
     let ip_addr = x_sockaddr_ntop X (leg_addr other);
         ipv = (if ss_family (leg_addr other) = AF_INET6 then ''6'' else ''4'');
         codec = app_media_name (payload_msg_type other);
         pt = fmt_d (sint (payload_type other));
         fmtp = (if codec = ''AMR'' then ''a=fmtp:'' @ pt @ '' octet-align=1'' @ CRLF else [])
     in ''v=0'' @ CRLF
        @ ''o=Osmocom 0 0 IN IP'' @ ipv @ '' '' @ ip_addr @ CRLF
        @ ''s=GSM Call'' @ CRLF
        @ ''c=IN IP'' @ ipv @ '' '' @ ip_addr @ CRLF
        @ ''t=0 0'' @ CRLF
        @ ''m=audio '' @ fmt_u (unat (x_sockaddr_port X (leg_addr other))) @ '' RTP/AVP '' @ pt @ CRLF
        @ fmtp
        @ ''a=rtpmap:'' @ pt @ '' '' @ codec @ ''/8000'' @ CRLF
        @ mode_attribute mode)"

text \<open>The SDP received on the other leg with the mode of every media line replaced; unchanged
  where Sofia fails to parse or print it.\<close>

definition set_modes :: "sdp_mode \<Rightarrow> sdp_session \<Rightarrow> sdp_session" where
  "set_modes mode sdp = sdp\<lparr>sdp_medias := map (m_mode_update (\<lambda>_. mode)) (sdp_medias sdp)\<rparr>"

definition forwarded_sdp :: "ext \<Rightarrow> string \<Rightarrow> sdp_mode \<Rightarrow> string" where
  "forwarded_sdp X d mode = (case x_sdp_parse X d False of
       None \<Rightarrow> d
     | Some None \<Rightarrow> d
     | Some (Some sdp) \<Rightarrow> (case x_sdp_print X (set_modes mode sdp) 1024 of
           None \<Rightarrow> d
         | Some None \<Rightarrow> d
         | Some (Some s) \<Rightarrow> s))"

definition sdp_create_file :: "ext \<Rightarrow> addr \<Rightarrow> addr \<Rightarrow> sdp_mode \<Rightarrow> string io" where
  "sdp_create_file X a other mode = mbind (get_leg other) (\<lambda>ol.
     if rx_sdp ol = [] then
       mthen (upd_sip a (wanted_codec_update (\<lambda>_. Some (app_media_name (payload_msg_type ol)))))
         (mret (legacy_sdp X ol mode))
     else mret (forwarded_sdp X (rx_sdp ol) mode))"

section \<open>Search lemmas\<close>

definition usable_media :: "bool \<Rightarrow> string option \<Rightarrow> sdp_media \<Rightarrow> bool" where
  "usable_media any wanted m = (m_proto m = sdp_proto_rtp \<and> m_type m = sdp_media_audio
     \<and> (\<exists>r \<in> set (m_rtpmaps m). any \<or> wanted = None \<or> strcaseeq (rm_encoding r) (the wanted)))"

definition usable_conn :: "ext \<Rightarrow> sdp_connection \<Rightarrow> bool" where
  "usable_conn X c = (c_addrtype c = sdp_addr_ip4 \<and> x_inet_pton4 X (c_address c) \<noteq> None
     \<or> c_addrtype c = sdp_addr_ip6 \<and> x_inet_pton6 X (c_address c) \<noteq> None)"

lemma screen_maps_iff: "screen_maps rs = (\<exists>r \<in> set rs. supported_encoding (rm_encoding r))"
  by (induction rs) auto

lemma screen_medias_iff:
  "screen_medias ms = (\<exists>m \<in> set ms. m_proto m = sdp_proto_rtp \<and> m_type m = sdp_media_audio
     \<and> (\<exists>r \<in> set (m_rtpmaps m). supported_encoding (rm_encoding r)))"
  by (induction ms) (auto simp: screen_maps_iff)

lemma extract_map_None_iff:
  "extract_map any wanted rs = None \<longleftrightarrow>
     (\<forall>r \<in> set rs. \<not> any \<and> wanted \<noteq> None \<and> \<not> strcaseeq (rm_encoding r) (the wanted))"
  by (induction rs) (auto split: option.splits)

lemma extract_media_None_iff:
  "extract_media any wanted ms = None \<longleftrightarrow> (\<forall>m \<in> set ms. \<not> usable_media any wanted m)"
proof (induction ms)
  case (Cons m ms)
  then show ?case
    using extract_map_None_iff [of any wanted "m_rtpmaps m"]
    by (auto simp: usable_media_def split: option.splits)
qed simp

lemma extract_conn_None_iff:
  "extract_conn X cs sa = None \<longleftrightarrow> (\<forall>c \<in> set cs. \<not> usable_conn X c)"
  by (induction cs) (auto simp: usable_conn_def split: sdp_addrtype.splits option.splits)

lemma extract_conn_family:
  "extract_conn X cs sa = Some sa' \<Longrightarrow> ss_family sa' = AF_INET \<or> ss_family sa' = AF_INET6"
  by (induction cs) (auto split: sdp_addrtype.splits option.splits)

section \<open>Effect on the leg\<close>

text \<open>The leg after an extraction: what was found is written even if the other half is missing.\<close>

definition extracted :: "ext \<Rightarrow> sdp_session \<Rightarrow> bool \<Rightarrow> sip_call_leg \<Rightarrow> call_leg \<Rightarrow> call_leg" where
  "extracted X sdp any s l = (
     let cn = extract_conn X (sdp_connections sdp) (leg_addr l);
         md = extract_media any (wanted_codec s) (sdp_medias sdp);
         sa = (case cn of None \<Rightarrow> leg_addr l | Some sa \<Rightarrow> sa)
     in l\<lparr>leg_addr := (case (cn, md) of (Some _, Some (port, _)) \<Rightarrow> sa\<lparr>sa_port := port\<rparr> | _ \<Rightarrow> sa),
          payload_type := (case md of None \<Rightarrow> payload_type l | Some (_, pt) \<Rightarrow> pt)\<rparr>)"

definition extract_ok :: "ext \<Rightarrow> sdp_session \<Rightarrow> bool \<Rightarrow> sip_call_leg \<Rightarrow> call_leg \<Rightarrow> bool" where
  "extract_ok X sdp any s l = (extract_conn X (sdp_connections sdp) (leg_addr l) \<noteq> None
     \<and> extract_media any (wanted_codec s) (sdp_medias sdp) \<noteq> None)"

lemma leg_addr_payload_commute:
  "leg_addr_update f (payload_type_update g l) = payload_type_update g (leg_addr_update f l)"
  by simp

lemma wp_sdp_extract_sdp [wp]:
  "wp (sdp_extract_sdp X a sip any) Q w = (case parsed_session X sip False of
       None \<Rightarrow> Q False w
     | Some sdp \<Rightarrow> (\<exists>l s. legs w a = Some l \<and> leg_object l = Sip_object s
         \<and> Q (extract_ok X sdp any s l) (w\<lparr>legs := (legs w)(a \<mapsto> extracted X sdp any s l)\<rparr>)))"
proof (cases "parsed_session X sip False")
  case None
  then show ?thesis by (simp add: sdp_extract_sdp_def wp)
next
  case (Some sdp)
  show ?thesis
  proof (cases "\<exists>l s. legs w a = Some l \<and> leg_object l = Sip_object s")
    case False
    with Some show ?thesis by (auto simp: sdp_extract_sdp_def wp)
  next
    case True
    then obtain l s where l: "legs w a = Some l" and s: "leg_object l = Sip_object s" by blast
    have id: "w\<lparr>legs := (legs w)(a \<mapsto> l)\<rparr> = w" using l by (simp add: fun_upd_idem)
    let ?cn = "extract_conn X (sdp_connections sdp) (leg_addr l)"
    let ?md = "extract_media any (wanted_codec s) (sdp_medias sdp)"
    show ?thesis
    proof (cases ?cn)
      case cn: None
      with Some l s id show ?thesis
        by (cases ?md) (auto simp: sdp_extract_sdp_def wp extracted_def extract_ok_def Let_def)
    next
      case cn: (Some sa)
      with extract_conn_family [OF cn] Some l s id show ?thesis
        by (cases ?md) (auto simp: sdp_extract_sdp_def wp extracted_def extract_ok_def Let_def
            leg_addr_payload_commute comp_def)
    qed
  qed
qed

lemma extracted_frame [simp]:
  "leg_call (extracted X sdp any s l) = leg_call l"
  "leg_type (extracted X sdp any s l) = leg_type l"
  "leg_object (extracted X sdp any s l) = leg_object l"
  "is_mncc (extracted X sdp any s l) = is_mncc l"
  "rx_sdp (extracted X sdp any s l) = rx_sdp l"
  "rx_sdp_changed (extracted X sdp any s l) = rx_sdp_changed l"
  "release_call (extracted X sdp any s l) = release_call l"
  "ring_call (extracted X sdp any s l) = ring_call l"
  "connect_call (extracted X sdp any s l) = connect_call l"
  "dtmf (extracted X sdp any s l) = dtmf l"
  "hold_call (extracted X sdp any s l) = hold_call l"
  "retrieve_call (extracted X sdp any s l) = retrieve_call l"
  "update_rtp (extracted X sdp any s l) = update_rtp l"
  "in_release (extracted X sdp any s l) = in_release l"
  "cause (extracted X sdp any s l) = cause l"
  by (simp_all add: extracted_def Let_def is_mncc_def)

lemma wp_sdp_create_file [wp]:
  "wp (sdp_create_file X a other mode) Q w = (\<exists>ol. legs w other = Some ol \<and>
     (if rx_sdp ol = [] then
        (\<exists>l s. legs w a = Some l \<and> leg_object l = Sip_object s \<and>
           Q (legacy_sdp X ol mode) (w\<lparr>legs := (legs w)(a \<mapsto> l\<lparr>leg_object :=
              Sip_object (s\<lparr>wanted_codec := Some (app_media_name (payload_msg_type ol))\<rparr>)\<rparr>)\<rparr>))
      else Q (forwarded_sdp X (rx_sdp ol) mode) w))"
  by (auto simp: sdp_create_file_def wp)

section \<open>Properties\<close>

text \<open>Libraries for examples: SDP text \<open>t\<close> parses to the session given for it.\<close>

definition example_ext :: "(string \<Rightarrow> sdp_session option option) \<Rightarrow> ext" where
  "example_ext parse = \<lparr>x_mncc_size = 2208, x_sdp_parse = (\<lambda>t _. parse t),
     x_sdp_print = (\<lambda>sdp n. Some (Some (sdp_rest sdp))),
     x_inet_pton4 = (\<lambda>t. if t = ''10.0.0.9'' then Some 0x0A000009 else None),
     x_inet_pton6 = (\<lambda>_. None), x_sockaddr_ntop = (\<lambda>_. ''10.0.0.9''),
     x_sockaddr_port = (\<lambda>sa. if ss_family sa = AF_INET \<or> ss_family sa = AF_INET6 then sa_port sa else 0),
     x_sockaddr_cmp = (\<lambda>a b. if a = b then 0 else 1), x_dec_gcr = (\<lambda>b. Some b), x_enc_gcr = (\<lambda>g. g),
     x_hexparse = (\<lambda>_ n. replicate n 0), x_hexdump = (\<lambda>_. ''00''),
     x_fmt_p = (\<lambda>_. ''(nil)'')\<rparr>"

definition example_session :: sdp_session where
  "example_session = \<lparr>sdp_connections = [\<lparr>c_addrtype = sdp_addr_ip4, c_address = ''10.0.0.9''\<rparr>],
     sdp_medias = [\<lparr>m_proto = sdp_proto_rtp, m_type = sdp_media_audio, m_port = 4000,
       m_mode = sdp_sendrecv, m_rtpmaps = [\<lparr>rm_pt = 3, rm_encoding = ''gsm''\<rparr>]\<rparr>],
     sdp_rest = ''v=0''\<rparr>"

definition example_sip :: sip_msg where
  "example_sip = \<lparr>sip_payload = Some (Some ''v=0''), sip_unknown = [],
     sip_to = Some (Some ''100''), sip_from = Some (Some ''200'')\<rparr>"

definition example_sdp_ext :: ext where
  "example_sdp_ext = example_ext (\<lambda>_. Some (Some example_session))"

lemma example_parsed: "parsed_session example_sdp_ext example_sip b = Some example_session"
  by (simp add: parsed_session_def payload_data_def example_sip_def example_sdp_ext_def example_ext_def)

text \<open>
  C26. Screening accepts a SIP body exactly when Sofia parses it to a session in which some RTP
  audio line offers GSM, GSM-EFR, GSM-HR-08 or AMR, in whatever case; and the codec search of
  the extraction that follows in \<open>new_call\<close> then always finds a codec, so that such an INVITE
  can only fail for want of a usable address.
\<close>

theorem sdp_screen_iff:
  "(sdp_screen_sdp X sip \<longleftrightarrow> (\<exists>sdp. parsed_session X sip False = Some sdp
      \<and> (\<exists>m \<in> set (sdp_medias sdp). m_proto m = sdp_proto_rtp \<and> m_type m = sdp_media_audio
           \<and> (\<exists>r \<in> set (m_rtpmaps m). supported_encoding (rm_encoding r)))))
   \<and> (sdp_screen_sdp X sip \<longrightarrow> (\<exists>sdp. parsed_session X sip False = Some sdp
      \<and> extract_media True wanted (sdp_medias sdp) \<noteq> None))"
proof (cases "parsed_session X sip False")
  case (Some sdp)
  then have "sdp_screen_sdp X sip = screen_medias (sdp_medias sdp)"
    by (simp add: sdp_screen_sdp_def)
  moreover have "screen_medias (sdp_medias sdp) \<Longrightarrow> extract_media True wanted (sdp_medias sdp) \<noteq> None"
    unfolding extract_media_None_iff screen_medias_iff usable_media_def by blast
  ultimately show ?thesis using Some by (simp add: screen_medias_iff)
qed (simp add: sdp_screen_sdp_def)

theorem sdp_screen_witness:
  "sdp_screen_sdp example_sdp_ext example_sip
   \<and> (\<exists>sdp. parsed_session example_sdp_ext example_sip False = Some sdp
      \<and> extract_media True None (sdp_medias sdp) \<noteq> None)"
proof -
  have "sdp_screen_sdp example_sdp_ext example_sip" by code_simp
  with sdp_screen_iff [of example_sdp_ext example_sip None] show ?thesis by blast
qed


text \<open>An example heap with one SIP leg, at address 2.\<close>

definition example_sip_world :: world where
  "example_sip_world = call_added CALL_TYPE_SIP (Sip_object zero_sip) (init_world example_config)"

lemma example_sip_leg:
  "legs example_sip_world 2 = Some (created_leg CALL_TYPE_SIP (Sip_object zero_sip) 1)"
  by (simp add: example_sip_world_def call_added_def init_world_def Let_def)


text \<open>
  A body whose first media line is inactive is not told apart from a message without SDP:
  \<open>sdp_get_sdp_mode\<close> reports a mode exactly when the body parses and the first media line is
  sendonly, recvonly or sendrecv, although the mode attribute is present.
\<close>

theorem sdp_mode_inactive_as_absent:
  "(\<exists>mode. sdp_get_sdp_mode X sip = Some mode) \<longleftrightarrow>
     (\<exists>sdp m ms. parsed_session X sip True = Some sdp \<and> sdp_medias sdp = m # ms
        \<and> m_mode m \<noteq> sdp_inactive)"
  by (auto simp: sdp_get_sdp_mode_def split: option.splits list.splits)

lemma extract_media_set_modes:
  "extract_media any wanted (sdp_medias (set_modes mode sdp)) = extract_media any wanted (sdp_medias sdp)"
proof -
  have "extract_media any wanted (map (m_mode_update (\<lambda>_. mode)) ms) = extract_media any wanted ms" for ms
    by (induction ms) (auto split: option.splits)
  then show ?thesis by (simp add: set_modes_def)
qed


text \<open>A printer and a parser for the witness: texts are modes, and only the mode varies.\<close>

definition mode_text :: "sdp_mode \<Rightarrow> string" where
  "mode_text mode = mode_attribute mode"

definition text_session :: "string \<Rightarrow> sdp_session option" where
  "text_session t = (case filter (\<lambda>mode. mode_text mode = t)
       [sdp_inactive, sdp_sendonly, sdp_recvonly, sdp_sendrecv] of
     [] \<Rightarrow> None | mode # _ \<Rightarrow> Some (set_modes mode example_session))"

definition session_text :: "sdp_session \<Rightarrow> string option" where
  "session_text sdp = (case filter (\<lambda>mode. set_modes mode example_session = sdp)
       [sdp_inactive, sdp_sendonly, sdp_recvonly, sdp_sendrecv] of
     [] \<Rightarrow> None | mode # _ \<Rightarrow> Some (mode_text mode))"

definition mode_ext :: ext where
  "mode_ext = (example_ext (\<lambda>t. Some (text_session t)))\<lparr>x_sdp_print := (\<lambda>sdp n. Some (session_text sdp))\<rparr>"

lemma mode_ext_roundtrip:
  "x_sdp_print mode_ext sdp n = Some (Some t) \<Longrightarrow> x_sdp_parse mode_ext t False = Some (Some sdp)"
  by (auto simp: mode_ext_def example_ext_def session_text_def text_session_def mode_text_def
      mode_attribute_def split: if_splits)


end
