(* ===== verification/Cause_Map.thy ===== *)
theory Cause_Map
  imports Call_Heap
begin

text \<open>
  The translation between SIP status codes and GSM 04.08 cause values of \<open>src/src/sip.c\<close>: the
  table \<open>cause_map\<close>, \<open>status2cause\<close>, \<open>cause2status\<close> and the Reason header built from a cause.
  Both searches go through the table from the front and leave out its last entry, which is the
  fallback.
\<close>

section \<open>The table and the two searches\<close>

text \<open>Cause values of GSM 04.08, section 10.5.4.11, table 10.86.\<close>

definition GSM48_CC_CAUSE_NORM_CALL_CLEAR :: int where [simp]: "GSM48_CC_CAUSE_NORM_CALL_CLEAR = 16"
definition GSM48_CC_CAUSE_CALL_REJECTED :: int where [simp]: "GSM48_CC_CAUSE_CALL_REJECTED = 21"
definition GSM48_CC_CAUSE_CHAN_UNACCEPT :: int where [simp]: "GSM48_CC_CAUSE_CHAN_UNACCEPT = 6"
definition GSM48_CC_CAUSE_UNASSIGNED_NR :: int where [simp]: "GSM48_CC_CAUSE_UNASSIGNED_NR = 1"
definition GSM48_CC_CAUSE_NO_ROUTE :: int where [simp]: "GSM48_CC_CAUSE_NO_ROUTE = 3"
definition GSM48_CC_CAUSE_RECOVERY_TIMER :: int where [simp]: "GSM48_CC_CAUSE_RECOVERY_TIMER = 102"
definition GSM48_CC_CAUSE_NUMBER_CHANGED :: int where [simp]: "GSM48_CC_CAUSE_NUMBER_CHANGED = 22"
definition GSM48_CC_CAUSE_INVAL_TRANS_ID :: int where [simp]: "GSM48_CC_CAUSE_INVAL_TRANS_ID = 81"
definition GSM48_CC_CAUSE_INTERWORKING :: int where [simp]: "GSM48_CC_CAUSE_INTERWORKING = 127"
definition GSM48_CC_CAUSE_USER_NOTRESPOND :: int where [simp]: "GSM48_CC_CAUSE_USER_NOTRESPOND = 18"
definition GSM48_CC_CAUSE_RESOURCE_UNAVAIL :: int where [simp]: "GSM48_CC_CAUSE_RESOURCE_UNAVAIL = 47"
definition GSM48_CC_CAUSE_TEMP_FAILURE :: int where [simp]: "GSM48_CC_CAUSE_TEMP_FAILURE = 41"
definition GSM48_CC_CAUSE_SWITCH_CONG :: int where [simp]: "GSM48_CC_CAUSE_SWITCH_CONG = 42"
definition GSM48_CC_CAUSE_USER_BUSY :: int where [simp]: "GSM48_CC_CAUSE_USER_BUSY = 17"
definition GSM48_CC_CAUSE_INV_NR_FORMAT :: int where [simp]: "GSM48_CC_CAUSE_INV_NR_FORMAT = 28"
definition GSM48_CC_CAUSE_INCOMPAT_DEST :: int where [simp]: "GSM48_CC_CAUSE_INCOMPAT_DEST = 88"
definition GSM48_CC_CAUSE_DEST_OOO :: int where [simp]: "GSM48_CC_CAUSE_DEST_OOO = 27"
definition GSM48_CC_CAUSE_NETWORK_OOO :: int where [simp]: "GSM48_CC_CAUSE_NETWORK_OOO = 38"
definition GSM48_CC_CAUSE_SERV_OPT_UNAVAIL :: int where [simp]: "GSM48_CC_CAUSE_SERV_OPT_UNAVAIL = 63"
definition GSM48_CC_CAUSE_SERV_OPT_UNIMPL :: int where [simp]: "GSM48_CC_CAUSE_SERV_OPT_UNIMPL = 79"
definition GSM48_CC_CAUSE_PRE_EMPTION :: int where [simp]: "GSM48_CC_CAUSE_PRE_EMPTION = 25"
definition GSM48_CC_CAUSE_BEARER_CA_UNAVAIL :: int where [simp]: "GSM48_CC_CAUSE_BEARER_CA_UNAVAIL = 58"
definition GSM48_CC_CAUSE_NORMAL_UNSPEC :: int where [simp]: "GSM48_CC_CAUSE_NORMAL_UNSPEC = 31"

record cause_entry =
  sip_status :: int
  gsm48_cause :: int
  q850_reason :: string

definition cause_map :: "cause_entry list" where
  "cause_map = [
     \<lparr>sip_status = 200, gsm48_cause = GSM48_CC_CAUSE_NORM_CALL_CLEAR, q850_reason = ''Normal Call Clearing''\<rparr>,
     \<lparr>sip_status = 403, gsm48_cause = GSM48_CC_CAUSE_CALL_REJECTED, q850_reason = ''Call Rejected''\<rparr>,
     \<lparr>sip_status = 401, gsm48_cause = GSM48_CC_CAUSE_CALL_REJECTED, q850_reason = ''Call Rejected''\<rparr>,
     \<lparr>sip_status = 402, gsm48_cause = GSM48_CC_CAUSE_CALL_REJECTED, q850_reason = ''Call Rejected''\<rparr>,
     \<lparr>sip_status = 407, gsm48_cause = GSM48_CC_CAUSE_CALL_REJECTED, q850_reason = ''Call Rejected''\<rparr>,
     \<lparr>sip_status = 603, gsm48_cause = GSM48_CC_CAUSE_CALL_REJECTED, q850_reason = ''Call Rejected''\<rparr>,
     \<lparr>sip_status = 406, gsm48_cause = GSM48_CC_CAUSE_CHAN_UNACCEPT, q850_reason = ''Channel Unacceptable''\<rparr>,
     \<lparr>sip_status = 404, gsm48_cause = GSM48_CC_CAUSE_UNASSIGNED_NR, q850_reason = ''Unallocated Number''\<rparr>,
     \<lparr>sip_status = 485, gsm48_cause = GSM48_CC_CAUSE_NO_ROUTE, q850_reason = ''No Route to Destination''\<rparr>,
     \<lparr>sip_status = 604, gsm48_cause = GSM48_CC_CAUSE_NO_ROUTE, q850_reason = ''No Route to Destination''\<rparr>,
     \<lparr>sip_status = 504, gsm48_cause = GSM48_CC_CAUSE_RECOVERY_TIMER, q850_reason = ''Recovery on Timer Expiry''\<rparr>,
     \<lparr>sip_status = 408, gsm48_cause = GSM48_CC_CAUSE_RECOVERY_TIMER, q850_reason = ''Recovery on Timer Expiry''\<rparr>,
     \<lparr>sip_status = 410, gsm48_cause = GSM48_CC_CAUSE_NUMBER_CHANGED, q850_reason = ''Number Changed''\<rparr>,
     \<lparr>sip_status = 416, gsm48_cause = GSM48_CC_CAUSE_INVAL_TRANS_ID, q850_reason = ''Invalid Call Reference Value''\<rparr>,
     \<lparr>sip_status = 420, gsm48_cause = GSM48_CC_CAUSE_INTERWORKING, q850_reason = ''Interworking, Unspecified''\<rparr>,
     \<lparr>sip_status = 414, gsm48_cause = GSM48_CC_CAUSE_INTERWORKING, q850_reason = ''Interworking, Unspecified''\<rparr>,
     \<lparr>sip_status = 413, gsm48_cause = GSM48_CC_CAUSE_INTERWORKING, q850_reason = ''Interworking, Unspecified''\<rparr>,
     \<lparr>sip_status = 421, gsm48_cause = GSM48_CC_CAUSE_INTERWORKING, q850_reason = ''Interworking, Unspecified''\<rparr>,
     \<lparr>sip_status = 423, gsm48_cause = GSM48_CC_CAUSE_INTERWORKING, q850_reason = ''Interworking, Unspecified''\<rparr>,
     \<lparr>sip_status = 505, gsm48_cause = GSM48_CC_CAUSE_INTERWORKING, q850_reason = ''Interworking, Unspecified''\<rparr>,
     \<lparr>sip_status = 513, gsm48_cause = GSM48_CC_CAUSE_INTERWORKING, q850_reason = ''Interworking, Unspecified''\<rparr>,
     \<lparr>sip_status = 480, gsm48_cause = GSM48_CC_CAUSE_USER_NOTRESPOND, q850_reason = ''No User Responding''\<rparr>,
     \<lparr>sip_status = 503, gsm48_cause = GSM48_CC_CAUSE_RESOURCE_UNAVAIL, q850_reason = ''Resource Unavailable, Unspecified''\<rparr>,
     \<lparr>sip_status = 503, gsm48_cause = GSM48_CC_CAUSE_TEMP_FAILURE, q850_reason = ''Temporary Failure''\<rparr>,
     \<lparr>sip_status = 503, gsm48_cause = GSM48_CC_CAUSE_SWITCH_CONG, q850_reason = ''Switching Equipment Congestion''\<rparr>,
     \<lparr>sip_status = 400, gsm48_cause = GSM48_CC_CAUSE_TEMP_FAILURE, q850_reason = ''Temporary Failure''\<rparr>,
     \<lparr>sip_status = 481, gsm48_cause = GSM48_CC_CAUSE_TEMP_FAILURE, q850_reason = ''Temporary Failure''\<rparr>,
     \<lparr>sip_status = 500, gsm48_cause = GSM48_CC_CAUSE_TEMP_FAILURE, q850_reason = ''Temporary Failure''\<rparr>,
     \<lparr>sip_status = 486, gsm48_cause = GSM48_CC_CAUSE_USER_BUSY, q850_reason = ''User Busy''\<rparr>,
     \<lparr>sip_status = 600, gsm48_cause = GSM48_CC_CAUSE_USER_BUSY, q850_reason = ''User Busy''\<rparr>,
     \<lparr>sip_status = 484, gsm48_cause = GSM48_CC_CAUSE_INV_NR_FORMAT, q850_reason = ''Invalid Number Format (addr incomplete)''\<rparr>,
     \<lparr>sip_status = 488, gsm48_cause = GSM48_CC_CAUSE_INCOMPAT_DEST, q850_reason = ''Incompatible Destination''\<rparr>,
     \<lparr>sip_status = 606, gsm48_cause = GSM48_CC_CAUSE_INCOMPAT_DEST, q850_reason = ''Incompatible Destination''\<rparr>,
     \<lparr>sip_status = 502, gsm48_cause = GSM48_CC_CAUSE_DEST_OOO, q850_reason = ''Destination Out of Order''\<rparr>,
     \<lparr>sip_status = 503, gsm48_cause = GSM48_CC_CAUSE_NETWORK_OOO, q850_reason = ''Network Out of Order''\<rparr>,
     \<lparr>sip_status = 405, gsm48_cause = GSM48_CC_CAUSE_SERV_OPT_UNAVAIL, q850_reason = ''Service or Option Not Implemented''\<rparr>,
     \<lparr>sip_status = 501, gsm48_cause = GSM48_CC_CAUSE_SERV_OPT_UNIMPL, q850_reason = ''Service or Option Not Implemented''\<rparr>,
     \<lparr>sip_status = 415, gsm48_cause = GSM48_CC_CAUSE_SERV_OPT_UNIMPL, q850_reason = ''Service or Option Not Implemented''\<rparr>,
     \<lparr>sip_status = 406, gsm48_cause = GSM48_CC_CAUSE_SERV_OPT_UNIMPL, q850_reason = ''Service or Option Not Implemented''\<rparr>,
     \<lparr>sip_status = 482, gsm48_cause = GSM48_CC_CAUSE_PRE_EMPTION, q850_reason = ''Exchange Routing Error''\<rparr>,
     \<lparr>sip_status = 483, gsm48_cause = GSM48_CC_CAUSE_PRE_EMPTION, q850_reason = ''Exchange Routing Error''\<rparr>,
     \<lparr>sip_status = 503, gsm48_cause = GSM48_CC_CAUSE_BEARER_CA_UNAVAIL, q850_reason = ''Bearer Capability Not Available''\<rparr>,
     \<lparr>sip_status = 480, gsm48_cause = GSM48_CC_CAUSE_NORMAL_UNSPEC, q850_reason = ''Normal, Unspecified''\<rparr>
   ]"

fun status_search :: "cause_entry list \<Rightarrow> int \<Rightarrow> int" where
  "status_search [] status = GSM48_CC_CAUSE_NORMAL_UNSPEC"
| "status_search (e # es) status =
     (if sip_status e = status then gsm48_cause e else status_search es status)"

definition status2cause :: "int \<Rightarrow> int" where
  "status2cause status = status_search (butlast cause_map) status"

text \<open>The result is the table entry whose status, phrase and reason text are handed back.\<close>

fun cause_search :: "cause_entry list \<Rightarrow> int \<Rightarrow> cause_entry" where
  "cause_search [] c = last cause_map"
| "cause_search (e # es) c = (if gsm48_cause e = c then e else cause_search es c)"

definition cause2status :: "int \<Rightarrow> cause_entry" where
  "cause2status c = cause_search (butlast cause_map) c"

text \<open>\<open>snprintf(reason, 64, "Q.850;cause=%u;text=\"%s\"", ...)\<close> in \<open>sip_release_call\<close>.\<close>

definition reason_text :: "int \<Rightarrow> string" where
  "reason_text c = ''Q.850;cause='' @ fmt_u (unat (of_int c :: u32)) @ '';text='' @ [CHR 0x22]
     @ q850_reason (cause2status c) @ [CHR 0x22]"

definition release_reason :: "int \<Rightarrow> string" where
  "release_reason c = strlcpy 64 (reason_text c)"

section \<open>Search lemmas\<close>

lemma status_search_find:
  "status_search es s =
     (case find (\<lambda>e. sip_status e = s) es of Some e \<Rightarrow> gsm48_cause e | None \<Rightarrow> GSM48_CC_CAUSE_NORMAL_UNSPEC)"
  by (induction es) auto

lemma cause_search_find:
  "cause_search es c = (case find (\<lambda>e. gsm48_cause e = c) es of Some e \<Rightarrow> e | None \<Rightarrow> last cause_map)"
  by (induction es) auto

lemma cause2status_in: "cause2status c \<in> set cause_map"
proof (cases "find (\<lambda>e. gsm48_cause e = c) (butlast cause_map)")
  case None
  then show ?thesis
    by (simp add: cause2status_def cause_search_find cause_map_def)
next
  case (Some e)
  then have "e \<in> set (butlast cause_map)" by (auto simp: find_Some_iff)
  then have "e \<in> set cause_map" by (rule in_set_butlastD)
  with Some show ?thesis by (simp add: cause2status_def cause_search_find)
qed

text \<open>The table restricted to what a search can return is what matters for a round trip.\<close>

lemma table_stable:
  "list_all (\<lambda>e. sip_status (cause2status (status2cause (sip_status e))) = sip_status e)
     (map cause2status (map gsm48_cause cause_map))"
  by code_simp

lemma cause2status_fallback:
  assumes "\<forall>e \<in> set (butlast cause_map). gsm48_cause e \<noteq> c"
  shows "cause2status c = last cause_map"
proof -
  have "find (\<lambda>e. gsm48_cause e = c) (butlast cause_map) = None"
    using assms by (simp add: find_None_iff)
  then show ?thesis by (simp add: cause2status_def cause_search_find)
qed

section \<open>Properties\<close>

text \<open>
  C29. The status chosen for a cause is stable: translated back to a cause and forth again,
  every cause value, known or not, gives the SIP status it gave at first.
\<close>

theorem cause_status_stable:
  "sip_status (cause2status (status2cause (sip_status (cause2status c)))) = sip_status (cause2status c)"
proof (cases "\<exists>e \<in> set cause_map. gsm48_cause e = c")
  case True
  then have "cause2status c \<in> set (map cause2status (map gsm48_cause cause_map))" by auto
  with table_stable show ?thesis by (auto simp: list_all_iff)
next
  case False
  then have "cause2status c = last cause_map"
    by (intro cause2status_fallback) (auto dest: in_set_butlastD)
  moreover have "last cause_map \<in> set (map cause2status (map gsm48_cause cause_map))"
    by code_simp
  ultimately show ?thesis using table_stable by (auto simp: list_all_iff)
qed

lemma table_reason_lengths:
  "list_all (\<lambda>e. length (q850_reason e) \<le> 39 \<and> 0 \<le> gsm48_cause e \<and> gsm48_cause e < 1000) cause_map
   \<and> length (q850_reason (last cause_map)) = 19"
  by code_simp

lemma length_reason_text:
  "length (reason_text c) = 20 + length (fmt_u (unat (of_int c :: u32))) + length (q850_reason (cause2status c))"
  by (simp add: reason_text_def)

text \<open>
  The Reason header never loses its end to the 64-byte buffer, whatever the cause: the text
  between the quotes is the table's and the closing quote is there.
\<close>

theorem release_reason_not_truncated:
  "release_reason c = reason_text c \<and> length (reason_text c) < 64"
proof -
  have "length (reason_text c) < 64"
  proof (cases "\<exists>e \<in> set (butlast cause_map). gsm48_cause e = c")
    case True
    then have c: "0 \<le> c" "c < 1000"
      using table_reason_lengths by (auto simp: list_all_iff dest: in_set_butlastD)
    then have "unat (of_int c :: u32) < 10 ^ 3"
      by (simp add: unsigned_of_int take_bit_int_eq_self nat_less_iff)
    then have "length (fmt_u (unat (of_int c :: u32))) \<le> 3" by (rule length_fmt_u) simp
    moreover have "length (q850_reason (cause2status c)) \<le> 39"
      using table_reason_lengths cause2status_in [of c] by (auto simp: list_all_iff)
    ultimately show ?thesis by (simp add: length_reason_text)
  next
    case False
    have "unat (of_int c :: u32) < 2 ^ 32"
      using unsigned_less [of "of_int c :: u32", where 'a = nat] by simp
    also have "(2::nat) ^ 32 < 10 ^ 10" by simp
    finally have "unat (of_int c :: u32) < 10 ^ 10" .
    then have "length (fmt_u (unat (of_int c :: u32))) \<le> 10" by (rule length_fmt_u) simp
    moreover have "length (q850_reason (cause2status c)) = 19"
      using cause2status_fallback [of c] False table_reason_lengths by auto
    ultimately show ?thesis by (simp add: length_reason_text)
  qed
  then show ?thesis by (simp add: release_reason_def strlcpy_id)
qed

lemma table_statuses:
  "list_all (\<lambda>e. (sip_status e = 200 \<longleftrightarrow> gsm48_cause e = GSM48_CC_CAUSE_NORM_CALL_CLEAR)
      \<and> (sip_status e = 200 \<or> 400 \<le> sip_status e \<and> sip_status e \<le> 606)) cause_map
   \<and> sip_status (cause2status GSM48_CC_CAUSE_NORM_CALL_CLEAR) = 200
   \<and> sip_status (last cause_map) = 480"
  by code_simp

lemma cause2status_entry:
  "gsm48_cause (cause2status c) = c \<or> cause2status c = last cause_map"
  by (auto simp: cause2status_def cause_search_find find_Some_iff split: option.splits)

text \<open>
  A cause is translated to a success status, 200, exactly when it is Normal Call Clearing,
  and to a final failure status from 400 to 606 in every other case; and no SIP failure is
  reported to the network as Normal Call Clearing.
\<close>

theorem cause2status_range:
  "(sip_status (cause2status c) = 200 \<longleftrightarrow> c = GSM48_CC_CAUSE_NORM_CALL_CLEAR)
   \<and> (c \<noteq> GSM48_CC_CAUSE_NORM_CALL_CLEAR \<longrightarrow>
        400 \<le> sip_status (cause2status c) \<and> sip_status (cause2status c) \<le> 606)
   \<and> (status2cause s = GSM48_CC_CAUSE_NORM_CALL_CLEAR \<longrightarrow> s = 200)"
proof -
  have "sip_status (cause2status c) = 200 \<longrightarrow> c = GSM48_CC_CAUSE_NORM_CALL_CLEAR"
    using table_statuses cause2status_in [of c] cause2status_entry [of c] by (auto simp: list_all_iff)
  moreover have "sip_status (cause2status c) = 200 \<or>
      400 \<le> sip_status (cause2status c) \<and> sip_status (cause2status c) \<le> 606"
    using table_statuses cause2status_in [of c] by (auto simp: list_all_iff)
  moreover have "status2cause s = GSM48_CC_CAUSE_NORM_CALL_CLEAR \<longrightarrow> s = 200"
  proof (cases "find (\<lambda>e. sip_status e = s) (butlast cause_map)")
    case None
    then show ?thesis by (simp add: status2cause_def status_search_find)
  next
    case (Some e)
    then have "e \<in> set (butlast cause_map)" and e: "sip_status e = s"
      by (auto simp: find_Some_iff)
    then have "e \<in> set cause_map" by (blast dest: in_set_butlastD)
    with table_statuses have "gsm48_cause e = GSM48_CC_CAUSE_NORM_CALL_CLEAR \<longrightarrow> sip_status e = 200"
      by (simp add: list_all_iff)
    moreover have "status2cause s = gsm48_cause e"
      using Some by (simp add: status2cause_def status_search_find)
    ultimately show ?thesis using e by simp
  qed
  ultimately show ?thesis using table_statuses by blast
qed

theorem cause2status_range_witness:
  "sip_status (cause2status GSM48_CC_CAUSE_USER_BUSY) = 486
   \<and> 400 \<le> sip_status (cause2status GSM48_CC_CAUSE_USER_BUSY)"
proof -
  have "GSM48_CC_CAUSE_USER_BUSY \<noteq> GSM48_CC_CAUSE_NORM_CALL_CLEAR" by simp
  moreover have "sip_status (cause2status GSM48_CC_CAUSE_USER_BUSY) = 486" by code_simp
  ultimately show ?thesis using cause2status_range [of GSM48_CC_CAUSE_USER_BUSY] by blast
qed

end
