(* ===== verification/Sip_Leg.thy ===== *)
theory Sip_Leg
  imports Invariant Sdp Cause_Map
begin

text \<open>
  The SIP side of a call, second half of \<open>src/src/sip.c\<close>: the functions reached through the
  pointers of a SIP leg (release, ring, connect, DTMF, hold, retrieve), the creation of a SIP
  leg for a call from the mobile network, and the URI the agent binds to. Each of the pointer
  functions is an instance of the interface \<open>leg_op\<close>.
\<close>

section \<open>Operations\<close>

definition sip_release_call :: "addr \<Rightarrow> unit io" where
  "sip_release_call a = mbind (get_leg a) (\<lambda>l.
     mthen (massert (leg_type l = CALL_TYPE_SIP)) (mbind (get_sip a) (\<lambda>s.
     case sip_state s of
       SIP_CC_INITIAL \<Rightarrow>
         mseq [emit (Nua_handle_destroy (nua_handle s)), call_leg_release a]
     | SIP_CC_DLG_CNFD \<Rightarrow>
         (if sip_direction s = SIP_DIR_MT then emit (Nua_cancel (nua_handle s))
          else mseq [emit (Nua_respond (nua_handle s) (sip_status (cause2status (cause l)))
                             (Some (release_reason (cause l))) None),
                     emit (Nua_handle_destroy (nua_handle s)),
                     call_leg_release a])
     | SIP_CC_CONNECTED \<Rightarrow> emit (Nua_bye (nua_handle s))
     | SIP_CC_HOLD \<Rightarrow> emit (Nua_bye (nua_handle s)))))"

definition sip_ring_call :: "addr \<Rightarrow> unit io" where
  "sip_ring_call a = mbind (get_leg a) (\<lambda>l.
     mthen (massert (leg_type l = CALL_TYPE_SIP)) (mbind (get_sip a) (\<lambda>s.
     emit (Nua_respond (nua_handle s) 180 None None))))"

definition sip_connect_call :: "ext \<Rightarrow> addr \<Rightarrow> unit io" where
  "sip_connect_call X a = mbind (get_leg a) (\<lambda>l.
     mthen (massert (leg_type l = CALL_TYPE_SIP)) (mbind (call_leg_other a) (\<lambda>other.
     case other of
       None \<Rightarrow> sip_release_call a
     | Some b \<Rightarrow> mbind (sdp_create_file X a b sdp_sendrecv) (\<lambda>sdp.
         mthen (upd_sip a (sip_state_update (\<lambda>_. SIP_CC_CONNECTED)))
         (mbind (get_sip a) (\<lambda>s. emit (Nua_respond (nua_handle s) 200 None (Some sdp))))))))"

text \<open>\<open>"Signal=%c\nDuration=160\n"\<close>\<close>

definition dtmf_body :: "int \<Rightarrow> string" where
  "dtmf_body keypad = ''Signal='' @ [char_of (nat (keypad mod 256))] @ [CHR 0x0A]
     @ ''Duration=160'' @ [CHR 0x0A]"

definition sip_dtmf_call :: "addr \<Rightarrow> int \<Rightarrow> unit io" where
  "sip_dtmf_call a keypad = mbind (get_leg a) (\<lambda>l.
     mthen (massert (leg_type l = CALL_TYPE_SIP)) (mbind (get_sip a) (\<lambda>s.
     emit (Nua_info (nua_handle s) (dtmf_body keypad)))))"

definition sip_hold_call :: "ext \<Rightarrow> addr \<Rightarrow> unit io" where
  "sip_hold_call X a = mbind (get_leg a) (\<lambda>l.
     mthen (massert (leg_type l = CALL_TYPE_SIP)) (mbind (call_leg_other a) (\<lambda>other.
     case other of
       None \<Rightarrow> sip_release_call a
     | Some b \<Rightarrow> mbind (sdp_create_file X a b sdp_sendonly) (\<lambda>sdp. mbind (get_sip a) (\<lambda>s.
         mthen (emit (Nua_invite (nua_handle s) None None None sdp))
         (upd_sip a (sip_state_update (\<lambda>_. SIP_CC_HOLD))))))))"

definition sip_retrieve_call :: "ext \<Rightarrow> addr \<Rightarrow> unit io" where
  "sip_retrieve_call X a = mbind (get_leg a) (\<lambda>l.
     mthen (massert (leg_type l = CALL_TYPE_SIP)) (mbind (call_leg_other a) (\<lambda>other.
     case other of
       None \<Rightarrow> sip_release_call a
     | Some b \<Rightarrow> mbind (sdp_create_file X a b sdp_sendrecv) (\<lambda>sdp. mbind (get_sip a) (\<lambda>s.
         mthen (emit (Nua_invite (nua_handle s) None None None sdp))
         (upd_sip a (sip_state_update (\<lambda>_. SIP_CC_CONNECTED))))))))"

text \<open>\<open>"sip:%s@%s:%d"\<close>\<close>

definition sip_uri :: "string \<Rightarrow> string \<Rightarrow> int \<Rightarrow> string" where
  "sip_uri user host port = ''sip:'' @ user @ ''@'' @ host @ '':'' @ fmt_d port"

text \<open>The \<open>X-Global-Call-Ref\<close> header of the INVITE, where the call has a reference that a
  16-byte message buffer could be allocated for and that could be encoded.\<close>

definition invite_gcr :: "ext \<Rightarrow> addr \<Rightarrow> string option io" where
  "invite_gcr X c = mbind (get_call c) (\<lambda>x.
     if gcr_present x then mbind alloc_ok (\<lambda>msg.
       mret (if msg \<and> x_enc_gcr X (call_gcr x) \<noteq> []
             then Some (''X-Global-Call-Ref: '' @ x_hexdump X (x_enc_gcr X (call_gcr x))) else None))
     else mret None)"

definition send_invite :: "ext \<Rightarrow> addr \<Rightarrow> owned_str option \<Rightarrow> owned_str option \<Rightarrow> int io" where
  "send_invite X a calling_num called_num = mbind (get_leg a) (\<lambda>l.
     mbind (get_call (leg_call l)) (\<lambda>x. mbind (mget g_app) (\<lambda>app.
     mbind (get_str calling_num) (\<lambda>from_user. mbind (get_str called_num) (\<lambda>to_user.
     mbind (deref (initial x)) (\<lambda>other.
     mbind (sdp_create_file X a other sdp_sendrecv) (\<lambda>sdp.
     mbind (invite_gcr X (leg_call l)) (\<lambda>x_gcr.
     mthen (upd_sip a (\<lambda>s. s\<lparr>sip_state := SIP_CC_INITIAL, sip_direction := SIP_DIR_MT\<rparr>))
     (mbind (get_sip a) (\<lambda>s.
     mthen (emit (Nua_invite (nua_handle s)
              (Some (sip_uri from_user (sip_local_addr app) (sip_local_port app)))
              (Some (sip_uri to_user (sip_remote_addr app) (sip_remote_port app))) x_gcr sdp))
     (mthen (upd_call (leg_call l) (remote_update (\<lambda>_. Some a)))
     (mret 0))))))))))))"

text \<open>\<open>nua_handle\<close> of Sofia: a new handle whose magic is the leg, or NULL.\<close>

definition nua_handle_new :: "addr \<Rightarrow> addr option io" where
  "nua_handle_new a = mbind alloc_ok (\<lambda>ok.
     if ok then mbind fresh_addr (\<lambda>h. mthen (emit (Nua_handle_bind (Some h) a)) (mret (Some h)))
     else mret None)"

definition sip_create_remote_leg :: "ext \<Rightarrow> addr \<Rightarrow> int io" where
  "sip_create_remote_leg X c = mbind (talloc_leg c (Sip_object zero_sip)) (\<lambda>p. case p of
       None \<Rightarrow> mret (- 1)
     | Some a \<Rightarrow>
         mthen (upd_leg a (\<lambda>l. l\<lparr>leg_type := CALL_TYPE_SIP, leg_call := c,
             release_call := Some FP_sip_release_call, dtmf := Some FP_sip_dtmf_call,
             hold_call := Some FP_sip_hold_call, retrieve_call := Some FP_sip_retrieve_call\<rparr>))
         (mbind (nua_handle_new a) (\<lambda>h.
         mthen (upd_sip a (nua_handle_update (\<lambda>_. h)))
         (case h of
            None \<Rightarrow> mthen (talloc_free_leg a) (mret (- 2))
          | Some _ \<Rightarrow> mbind (get_call c) (\<lambda>x. send_invite X a (source x) (dest x))))))"

text \<open>The URI Sofia is told to bind to. The function computes a host name and then formats the
  configured address.\<close>

definition make_sip_uri :: "app_config \<Rightarrow> string" where
  "make_sip_uri app = (let hostname = sip_local_addr app;
       hostname = (if hostname = ''0.0.0.0'' then ''*'' else hostname)
     in ''sip:'' @ sip_local_addr app @ '':'' @ fmt_d (sip_local_port app))"

section \<open>The operations stay within their leg\<close>

definition sip_kind :: "call_leg \<Rightarrow> bool" where
  "sip_kind l = (\<not> is_mncc l)"

lemma heap_inv_sip:
  assumes "heap_inv w" and "legs w a = Some l" and "sip_kind l"
  obtains s x where "leg_object l = Sip_object s" and "leg_type l = CALL_TYPE_SIP"
    and "calls w (leg_call l) = Some x" and "a \<notin> set (timers w)"
proof -
  note lo = leg_ok_sip [OF heap_invD(2) [OF assms(1,2)]]
  obtain s where "leg_object l = Sip_object s" using lo(3) assms(3) by (auto simp: sip_kind_def)
  moreover obtain x where "calls w (leg_call l) = Some x"
    using wf_heap_leg_call [OF heap_invD(1) [OF assms(1)] assms(2)] .
  moreover have "a \<notin> set (timers w)"
    using wf_heapD(7) [OF heap_invD(1) [OF assms(1)], of a] assms(2,3) by (auto simp: sip_kind_def)
  ultimately show ?thesis using that lo(1) assms(3) by (auto simp: sip_kind_def)
qed

text \<open>Changing state and codec of a SIP leg keeps its identity.\<close>

lemma ident_sip_upd:
  assumes "leg_object l = Sip_object s" and "sip_direction s' = sip_direction s"
    and "nua_handle s' = nua_handle s"
  shows "ident (l\<lparr>leg_object := Sip_object s'\<rparr>) = ident l"
  using assms by (simp add: ident_def is_mncc_def leg_mo_def leg_handle_def)

lemma sip_release_contract:
  assumes "heap_inv w" and "legs w a = Some l" and "sip_kind l"
  shows "wp (sip_release_call a) (\<lambda>_ w'. heap_inv w' \<and> only_leg a w w') w"
proof -
  obtain s x where s: "leg_object l = Sip_object s" "leg_type l = CALL_TYPE_SIP"
    and x: "calls w (leg_call l) = Some x" and t: "a \<notin> set (timers w)"
    using heap_inv_sip [OF assms] .
  note gone = heap_inv_leg_gone [OF assms(1,2) x t] only_leg_gone [OF assms(2), of x]
  show ?thesis
    using assms s x gone heap_invD(1) [OF assms(1)]
    by (cases "sip_state s") (simp_all add: sip_release_call_def wp)
qed

interpretation sip_release: leg_op sip_release_call sip_kind
  by unfold_locales (rule sip_release_contract)

interpretation sip_ring: leg_op sip_ring_call sip_kind
proof
  fix w a l assume h: "heap_inv w" "legs w a = Some l" "sip_kind l"
  obtain s x where "leg_object l = Sip_object s" "leg_type l = CALL_TYPE_SIP"
    using heap_inv_sip [OF h] .
  with h show "wp (sip_ring_call a) (\<lambda>_ w'. heap_inv w' \<and> only_leg a w w') w"
    by (simp add: sip_ring_call_def wp)
qed

interpretation sip_dtmf: leg_op "\<lambda>a. sip_dtmf_call a keypad" sip_kind for keypad
proof
  fix w a l assume h: "heap_inv w" "legs w a = Some l" "sip_kind l"
  obtain s x where "leg_object l = Sip_object s" "leg_type l = CALL_TYPE_SIP"
    using heap_inv_sip [OF h] .
  with h show "wp (sip_dtmf_call a keypad) (\<lambda>_ w'. heap_inv w' \<and> only_leg a w w') w"
    by (simp add: sip_dtmf_call_def wp)
qed

text \<open>Composing SDP changes at most the codec remembered in the SIP leg.\<close>

lemma wp_sdp_create_contract:
  assumes "legs w a = Some l" and "leg_object l = Sip_object s" and "legs w b = Some k"
    and post: "\<And>sdp l' s'. ident l' = ident l \<Longrightarrow> leg_object l' = Sip_object s' \<Longrightarrow>
      nua_handle s' = nua_handle s \<Longrightarrow> sip_direction s' = sip_direction s \<Longrightarrow> sip_state s' = sip_state s \<Longrightarrow>
      Q sdp (w\<lparr>legs := (legs w)(a \<mapsto> l')\<rparr>)"
  shows "wp (sdp_create_file X a b mode) Q w"
proof -
  have "w\<lparr>legs := (legs w)(a \<mapsto> l)\<rparr> = w" using assms(1) by (simp add: fun_upd_idem)
  then have "Q sdp w" for sdp using post [of l s sdp] assms(2) by simp
  moreover have "Q sdp (w\<lparr>legs := (legs w)(a \<mapsto> l\<lparr>leg_object :=
      Sip_object (s\<lparr>wanted_codec := Some c\<rparr>)\<rparr>)\<rparr>)" for sdp c
    by (rule post [where s' = "s\<lparr>wanted_codec := Some c\<rparr>"]) (use assms(2) in \<open>simp_all add: ident_sip_upd\<close>)
  ultimately show ?thesis using assms(1-3) by (simp add: wp)
qed

text \<open>What connect, hold and retrieve have in common: release the leg if the other leg is gone,
  otherwise compose SDP and go on with an operation that keeps the leg's identity.\<close>

lemma sip_sdp_op_contract:
  assumes inv: "heap_inv w" and l: "legs w a = Some l" and k: "sip_kind l"
    and op: "m = mbind (get_leg a) (\<lambda>l. mthen (massert (leg_type l = CALL_TYPE_SIP))
       (mbind (call_leg_other a) (\<lambda>other. case other of None \<Rightarrow> sip_release_call a
          | Some b \<Rightarrow> mbind (sdp_create_file X a b mode) rest)))"
    and rest: "\<And>sdp w l s. heap_inv w \<Longrightarrow> legs w a = Some l \<Longrightarrow> leg_object l = Sip_object s \<Longrightarrow>
       wp (rest sdp) (\<lambda>_ w'. heap_inv w' \<and> only_leg a w w') w"
  shows "wp m (\<lambda>_ w'. heap_inv w' \<and> only_leg a w w') w"
proof -
  obtain s x where s: "leg_object l = Sip_object s" "leg_type l = CALL_TYPE_SIP"
    and x: "calls w (leg_call l) = Some x"
    using heap_inv_sip [OF inv l k] .
  show ?thesis
  proof (cases "other_leg a x")
    case None
    with l s x sip_release_contract [OF inv l k] show ?thesis by (simp add: op wp)
  next
    case (Some b)
    obtain ol where ol: "legs w b = Some ol"
      using other_leg_cases [OF heap_invD(1) [OF inv] l x Some] by blast
    have "wp (sdp_create_file X a b mode) (\<lambda>sdp. wp (rest sdp) (\<lambda>_ w'. heap_inv w' \<and> only_leg a w w')) w"
    proof (rule wp_sdp_create_contract [OF l s(1) ol])
      fix sdp l' s'
      assume l': "ident l' = ident l" "leg_object l' = Sip_object s'"
      let ?w = "w\<lparr>legs := (legs w)(a \<mapsto> l')\<rparr>"
      have "wp (rest sdp) (\<lambda>_ w'. heap_inv w' \<and> only_leg a ?w w') ?w"
        by (rule rest [OF heap_inv_upd_leg [OF l l'(1) inv]]) (simp, fact l')
      then show "wp (rest sdp) (\<lambda>_ w'. heap_inv w' \<and> only_leg a w w') ?w"
        by (rule wp_mono) (use l l'(1) ident_eqD(2) [OF l'(1)] in \<open>auto simp: only_leg_def\<close>)
    qed
    with Some l s x show ?thesis by (simp add: op wp)
  qed
qed

text \<open>Moving a SIP leg to another state and sending something.\<close>

lemma sip_state_step:
  assumes "heap_inv w" and "legs w a = Some l" and "leg_object l = Sip_object s"
  shows "heap_inv (w\<lparr>legs := (legs w)(a \<mapsto> l\<lparr>leg_object := Sip_object (s\<lparr>sip_state := st\<rparr>)\<rparr>)\<rparr>)"
    and "only_leg a w (w\<lparr>legs := (legs w)(a \<mapsto> l\<lparr>leg_object := Sip_object (s\<lparr>sip_state := st\<rparr>)\<rparr>)\<rparr>)"
  using heap_inv_upd_leg [OF assms(2) _ assms(1)] only_leg_upd [OF assms(2)] ident_sip_upd [OF assms(3)]
  by simp_all

interpretation sip_connect: leg_op "sip_connect_call X" sip_kind for X
proof
  fix w a l assume h: "heap_inv w" "legs w a = Some l" "sip_kind l"
  show "wp (sip_connect_call X a) (\<lambda>_ w'. heap_inv w' \<and> only_leg a w w') w"
    by (rule sip_sdp_op_contract [OF h sip_connect_call_def]) (simp add: wp sip_state_step)
qed

interpretation sip_hold: leg_op "sip_hold_call X" sip_kind for X
proof
  fix w a l assume h: "heap_inv w" "legs w a = Some l" "sip_kind l"
  show "wp (sip_hold_call X a) (\<lambda>_ w'. heap_inv w' \<and> only_leg a w w') w"
    by (rule sip_sdp_op_contract [OF h sip_hold_call_def]) (simp add: wp sip_state_step)
qed

interpretation sip_retrieve: leg_op "sip_retrieve_call X" sip_kind for X
proof
  fix w a l assume h: "heap_inv w" "legs w a = Some l" "sip_kind l"
  show "wp (sip_retrieve_call X a) (\<lambda>_ w'. heap_inv w' \<and> only_leg a w w') w"
    by (rule sip_sdp_op_contract [OF h sip_retrieve_call_def]) (simp add: wp sip_state_step)
qed

section \<open>Creating the SIP leg of a call\<close>

text \<open>The SIP leg once the INVITE is out.\<close>

definition invited_leg :: "addr \<Rightarrow> addr \<Rightarrow> string option \<Rightarrow> call_leg" where
  "invited_leg c h codec = (zero_leg c (Sip_object (zero_sip\<lparr>nua_handle := Some h,
       sip_direction := SIP_DIR_MT, wanted_codec := codec\<rparr>)))
     \<lparr>leg_type := CALL_TYPE_SIP, release_call := Some FP_sip_release_call,
      dtmf := Some FP_sip_dtmf_call, hold_call := Some FP_sip_hold_call,
      retrieve_call := Some FP_sip_retrieve_call\<rparr>"

lemma ident_invited_leg: "ident (invited_leg c h codec) = sip_identity c False h"
  by (simp add: invited_leg_def ident_def sip_identity_def zero_leg_def zero_sip_def is_mncc_def
      leg_mo_def leg_handle_def)

lemma invited_leg_ok [simp]:
  "leg_ok (invited_leg c h codec)" "\<not> is_mncc (invited_leg c h codec)"
  "\<not> leg_mo (invited_leg c h codec)" "leg_call (invited_leg c h codec) = c"
  using ident_invited_leg [of c h codec]
  by (auto simp: leg_ok_def ident_def sip_identity_def)

text \<open>The header for the Global Call Reference when there is memory for it, and the SDP sent.\<close>

definition gcr_header :: "ext \<Rightarrow> call \<Rightarrow> string option" where
  "gcr_header X x = (if gcr_present x \<and> x_enc_gcr X (call_gcr x) \<noteq> []
     then Some (''X-Global-Call-Ref: '' @ x_hexdump X (x_enc_gcr X (call_gcr x))) else None)"

definition sdp_towards_sip :: "ext \<Rightarrow> call_leg \<Rightarrow> sdp_mode \<Rightarrow> string" where
  "sdp_towards_sip X ol mode = (if rx_sdp ol = [] then legacy_sdp X ol mode else forwarded_sdp X (rx_sdp ol) mode)"

lemma invite_gcr_result:
  assumes "calls w c = Some x"
    and "\<And>g bs. allocs w = [] \<longrightarrow> g = gcr_header X x \<and> bs = [] \<Longrightarrow> Q g (w\<lparr>allocs := bs\<rparr>)"
  shows "wp (invite_gcr X c) Q w"
proof -
  have "Q g w" if "allocs w = [] \<longrightarrow> g = gcr_header X x" for g using assms(2) [of g "allocs w"] that by simp
  with assms show ?thesis by (auto simp: invite_gcr_def gcr_header_def wp split: list.splits)
qed

lemma sip_create_remote_result:
  assumes c: "calls w c = Some x" and i: "initial x = Some i" and li: "legs w i = Some li"
    and src: "source x = Some s1" "legs w (str_owner s1) \<noteq> None"
    and dst: "dest x = Some s2" "legs w (str_owner s2) \<noteq> None"
    and fr: "\<And>b. next_addr w \<le> b \<Longrightarrow> legs w b = None"
    and fail: "\<And>rc na bs. rc < 0 \<Longrightarrow> next_addr w \<le> na \<Longrightarrow> allocs w \<noteq> [] \<Longrightarrow> Q rc (w\<lparr>next_addr := na, allocs := bs\<rparr>)"
    and ok: "\<And>codec bs g. allocs w = [] \<longrightarrow> g = gcr_header X x \<and> bs = [] \<Longrightarrow>
        Q 0 (w\<lparr>legs := (legs w)(next_addr w \<mapsto> invited_leg c (Suc (next_addr w)) codec),
        calls := (calls w)(c \<mapsto> x\<lparr>remote := Some (next_addr w)\<rparr>),
        next_addr := Suc (Suc (next_addr w)), allocs := bs,
        out := out w @ [Nua_handle_bind (Some (Suc (next_addr w))) (next_addr w),
          Nua_invite (Some (Suc (next_addr w)))
            (Some (sip_uri (str_val s1) (sip_local_addr (g_app w)) (sip_local_port (g_app w))))
            (Some (sip_uri (str_val s2) (sip_remote_addr (g_app w)) (sip_remote_port (g_app w))))
            g (sdp_towards_sip X li sdp_sendrecv)]\<rparr>)"
  shows "wp (sip_create_remote_leg X c) Q w"
proof -
  let ?a = "next_addr w"
  have ne: "i \<noteq> ?a" "str_owner s1 \<noteq> ?a" "str_owner s2 \<noteq> ?a" using fr [of ?a] li src dst by auto
  have id: "(legs w)(?a := None) = legs w" using fr [of ?a] by (simp add: fun_upd_idem)
  have "\<And>codec bs g sdp. (allocs w = [] \<longrightarrow> g = gcr_header X x \<and> bs = []) \<Longrightarrow> sdp = sdp_towards_sip X li sdp_sendrecv \<Longrightarrow>
        Q 0 (w\<lparr>legs := (legs w)(next_addr w \<mapsto> invited_leg c (Suc (next_addr w)) codec),
        calls := (calls w)(c \<mapsto> x\<lparr>remote := Some (next_addr w)\<rparr>),
        next_addr := Suc (Suc (next_addr w)), allocs := bs,
        out := out w @ [Nua_handle_bind (Some (Suc (next_addr w))) (next_addr w),
          Nua_invite (Some (Suc (next_addr w)))
            (Some (sip_uri (str_val s1) (sip_local_addr (g_app w)) (sip_local_port (g_app w))))
            (Some (sip_uri (str_val s2) (sip_remote_addr (g_app w)) (sip_remote_port (g_app w)))) g sdp]\<rparr>)"
    using ok by blast
  note ok' = this [unfolded invited_leg_def zero_leg_def zero_sip_def, simplified]
  have "Q rc w" "Q rc (w\<lparr>allocs := bs\<rparr>)" if "rc < 0" "allocs w \<noteq> []" for rc bs
    using fail [OF that(1) _ that(2), of "next_addr w" "allocs w"] fail [OF that(1) _ that(2), of "next_addr w" bs] by simp_all
  with c i li src dst ne fail show ?thesis
    by (auto simp: sip_create_remote_leg_def talloc_leg_def nua_handle_new_def send_invite_def wp id
        zero_leg_def zero_sip_def sdp_towards_sip_def gcr_header_def split: list.splits intro!: invite_gcr_result ok')
qed

section \<open>Properties\<close>


text \<open>An example: a call from SIP whose INVITE is being answered, at address 2 with handle 9.\<close>

definition example_sip_leg :: "int \<Rightarrow> call_leg" where
  "example_sip_leg cs = (zero_leg 1 (Sip_object (zero_sip\<lparr>nua_handle := Some 9, sip_state := SIP_CC_DLG_CNFD\<rparr>)))
     \<lparr>leg_type := CALL_TYPE_SIP, cause := cs, release_call := Some FP_sip_release_call,
      ring_call := Some FP_sip_ring_call, connect_call := Some FP_sip_connect_call,
      dtmf := Some FP_sip_dtmf_call, hold_call := Some FP_sip_hold_call,
      retrieve_call := Some FP_sip_retrieve_call\<rparr>"

definition example_sip_call :: "int \<Rightarrow> world" where
  "example_sip_call cs = (init_world example_config)\<lparr>legs := [2 \<mapsto> example_sip_leg cs],
     calls := [1 \<mapsto> created_call 5001 2], g_call_list := [1], next_addr := 10\<rparr>"

lemma ident_example_sip_leg: "ident (example_sip_leg cs) = sip_identity 1 True 9"
  by (simp add: ident_def sip_identity_def example_sip_leg_def zero_leg_def zero_sip_def
      is_mncc_def leg_mo_def leg_handle_def)

lemma example_sip_leg_simps:
  "leg_call (example_sip_leg cs) = 1" "leg_mo (example_sip_leg cs)" "leg_ok (example_sip_leg cs)"
  "\<not> is_mncc (example_sip_leg cs)" "cause (example_sip_leg cs) = cs"
  "leg_object (example_sip_leg cs) = Sip_object (zero_sip\<lparr>nua_handle := Some 9, sip_state := SIP_CC_DLG_CNFD\<rparr>)"
  using ident_example_sip_leg [of cs]
  by (auto simp: leg_ok_def) (simp_all add: ident_def sip_identity_def example_sip_leg_def zero_leg_def)

lemma example_sip_call_inv: "heap_inv (example_sip_call cs)"
  by (auto simp: heap_inv_def wf_heap_def legs_ok_def call_wf_def call_ok_def call_legs_iff
      example_sip_call_def init_world_def created_call_def zero_call_def example_sip_leg_simps
      split: if_splits)


text \<open>
  A call from SIP that the mobile side refuses or ends with Normal Call Clearing before it
  was answered is accepted towards SIP: the pending INVITE gets the final response 200.
\<close>

theorem sip_release_normal_clearing_answers:
  assumes "heap_inv w" and "legs w a = Some l" and "leg_object l = Sip_object s"
    and "sip_state s = SIP_CC_DLG_CNFD" and "sip_direction s = SIP_DIR_MO"
    and "cause l = GSM48_CC_CAUSE_NORM_CALL_CLEAR"
  shows "\<exists>w' r. sip_release_call a w = Inr ((), w')
     \<and> out w' = out w @ [Nua_respond (nua_handle s) 200 (Some r) None, Nua_handle_destroy (nua_handle s)]"
proof -
  obtain x where x: "calls w (leg_call l) = Some x"
    using wf_heap_leg_call [OF heap_invD(1) [OF assms(1)] assms(2)] .
  have "leg_type l = CALL_TYPE_SIP"
    using leg_ok_sip(1) [OF heap_invD(2) [OF assms(1,2)]] assms(3) by (simp add: is_mncc_def)
  moreover have "sip_status (cause2status 16) = 200" by code_simp
  ultimately have "wp (sip_release_call a) (\<lambda>_ w'. \<exists>r. out w' = out w @
      [Nua_respond (nua_handle s) 200 (Some r) None, Nua_handle_destroy (nua_handle s)]) w"
    using assms x heap_invD(1) [OF assms(1)] by (simp add: sip_release_call_def wp)
  then show ?thesis by (auto simp: wp_iff_run)
qed

theorem sip_release_normal_clearing_witness:
  "\<exists>w' r. sip_release_call 2 (example_sip_call 16) = Inr ((), w')
     \<and> out w' = [Nua_respond (Some 9) 200 (Some r) None, Nua_handle_destroy (Some 9)]"
  using sip_release_normal_clearing_answers [OF example_sip_call_inv, of 16 2 "example_sip_leg 16"]
  by (auto simp: example_sip_leg_simps zero_sip_def example_sip_call_def init_world_def)

text \<open>
  The agent's URI always carries the configured address: the wildcard the function prepares
  for 0.0.0.0 is never used.
\<close>

theorem make_sip_uri_no_wildcard:
  "make_sip_uri app = ''sip:'' @ sip_local_addr app @ '':'' @ fmt_d (sip_local_port app)
   \<and> make_sip_uri (app\<lparr>sip_local_addr := ''0.0.0.0'', sip_local_port := 5060\<rparr>) = ''sip:0.0.0.0:5060''"
proof -
  have "fmt_d 5060 = ''5060''" by (simp add: fmt_d_def fmt_u.simps)
  then show ?thesis by (simp add: make_sip_uri_def)
qed

end
