(* ===== verification/Mncc_Conn.thy ===== *)
theory Mncc_Conn
  imports Sip_Leg
begin

text \<open>
  The lower half of \<open>src/src/mncc.c\<close> and \<open>app_mncc_disconnected\<close> of \<open>src/src/app.c\<close>: command
  timers, finding legs by call reference, writing to the MNCC socket, the functions reached
  through the pointers of an MNCC leg, and closing the connection, which releases every call
  with an MNCC leg.

  Releasing an MNCC leg may write to the socket, a failing write closes the connection, and
  closing it releases legs again. The recursion is cut by a depth: functions that write take
  the release function for the legs of a closed connection as a parameter \<open>rel\<close>, and
  \<open>release_leg X n\<close> runs out of depth when \<open>n\<close> releases are nested. On a closed connection a
  release does not write, so a depth of two is never exceeded.
\<close>

section \<open>Timers and lookup\<close>

definition mncc_leg_release :: "addr \<Rightarrow> unit io" where
  "mncc_leg_release a = mthen (timer_del a) (call_leg_release a)"

definition start_cmd_timer :: "addr \<Rightarrow> u32 \<Rightarrow> unit io" where
  "start_cmd_timer a expected_next =
     mthen (upd_mncc a (rsp_wanted_update (\<lambda>_. expected_next))) (timer_schedule a)"

definition stop_cmd_timer :: "addr \<Rightarrow> u32 \<Rightarrow> unit io" where
  "stop_cmd_timer a got_res = mbind (get_mncc a) (\<lambda>m.
     if rsp_wanted m \<noteq> got_res then mret () else timer_del a)"

text \<open>Whether a leg pointer is set and points to an MNCC leg with the reference.\<close>

definition leg_has_callref :: "u32 \<Rightarrow> addr option \<Rightarrow> bool io" where
  "leg_has_callref r p = (case p of None \<Rightarrow> mret False | Some a \<Rightarrow> mbind (get_leg a) (\<lambda>l.
     if leg_type l = CALL_TYPE_MNCC then mbind (get_mncc a) (\<lambda>m. mret (callref m = r))
     else mret False))"

fun find_callref :: "u32 \<Rightarrow> addr list \<Rightarrow> addr option io" where
  "find_callref r [] = mret None"
| "find_callref r (c # cs) = mbind (get_call c) (\<lambda>x.
     mbind (leg_has_callref r (initial x)) (\<lambda>found. if found then mret (initial x)
     else mbind (leg_has_callref r (remote x)) (\<lambda>found. if found then mret (remote x)
     else find_callref r cs)))"

definition mncc_find_leg :: "u32 \<Rightarrow> addr option io" where
  "mncc_find_leg r = mbind (mget g_call_list) (\<lambda>cs. find_callref r cs)"

definition mncc_find_leg_not_released :: "u32 \<Rightarrow> addr option io" where
  "mncc_find_leg_not_released r = mbind (mncc_find_leg r) (\<lambda>p. case p of
       None \<Rightarrow> mret None
     | Some a \<Rightarrow> mbind (get_leg a) (\<lambda>l. mret (if in_release l then None else Some a)))"

section \<open>Closing the connection\<close>

definition is_mncc_ptr :: "addr option \<Rightarrow> bool io" where
  "is_mncc_ptr p = (case p of None \<Rightarrow> mret False
     | Some a \<Rightarrow> mbind (get_leg a) (\<lambda>l. mret (leg_type l = CALL_TYPE_MNCC)))"

definition release_ptr :: "(addr \<Rightarrow> unit io) \<Rightarrow> addr option \<Rightarrow> unit io" where
  "release_ptr rel p = (case p of None \<Rightarrow> mret () | Some a \<Rightarrow> rel a)"

text \<open>The loop of \<open>app_mncc_disconnected\<close>. The safe iteration keeps the next entry before the
  body runs; the body takes at most the current call off the list, so the loop visits the
  calls that were listed when it started.\<close>

fun disconnect_calls :: "(addr \<Rightarrow> unit io) \<Rightarrow> addr list \<Rightarrow> unit io" where
  "disconnect_calls rel [] = mret ()"
| "disconnect_calls rel (c # cs) = mbind (get_call c) (\<lambda>x.
     mbind (is_mncc_ptr (initial x)) (\<lambda>mi. mbind (is_mncc_ptr (remote x)) (\<lambda>mr.
     if mi \<or> mr
     then mthen (release_ptr rel (initial x)) (mthen (release_ptr rel (remote x)) (disconnect_calls rel cs))
     else disconnect_calls rel cs)))"

definition app_mncc_disconnected :: "(addr \<Rightarrow> unit io) \<Rightarrow> unit io" where
  "app_mncc_disconnected rel = mbind (mget g_call_list) (\<lambda>cs. disconnect_calls rel cs)"

definition close_connection :: "(addr \<Rightarrow> unit io) \<Rightarrow> unit io" where
  "close_connection rel = mbind (mget conn) (\<lambda>cn.
     if conn_fd cn < 0 then mret ()
     else mthen (mmod (\<lambda>w. w\<lparr>conn := (conn w)\<lparr>conn_fd := -1, reconnect_pending := True,
                                          conn_state := MNCC_DISCONNECTED\<rparr>\<rparr>))
       (case on_disconnect cn of None \<Rightarrow> mret () | Some _ \<Rightarrow> app_mncc_disconnected rel))"

section \<open>Writing\<close>

text \<open>\<open>write\<close> on the socket: it fails on a closed socket and otherwise does what the operating
  system decided.\<close>

definition sock_write :: "int \<Rightarrow> action \<Rightarrow> int io" where
  "sock_write n x = (\<lambda>w.
     if conn_fd (conn w) < 0 then Inr (- 1, w)
     else case writes w of
         [] \<Rightarrow> Inr (n, w\<lparr>out := out w @ [x]\<rparr>)
       | r # rs \<Rightarrow> Inr (r, if r = n then w\<lparr>out := out w @ [x], writes := rs\<rparr> else w\<lparr>writes := rs\<rparr>))"

definition mncc_write :: "ext \<Rightarrow> (addr \<Rightarrow> unit io) \<Rightarrow> gsm_mncc \<Rightarrow> int io" where
  "mncc_write X rel m = mbind (sock_write (x_sizeof_mncc X) (Tx_mncc m)) (\<lambda>rc.
     mthen (mwhen (rc \<noteq> x_sizeof_mncc X) (close_connection rel)) (mret rc))"

definition mncc_fill_header :: "gsm_mncc \<Rightarrow> u32 \<Rightarrow> u32 \<Rightarrow> gsm_mncc io" where
  "mncc_fill_header m msg_type r = (
     let m = m\<lparr>mncc_msg_type := msg_type, mncc_callref := r\<rparr> in
     if MNCC_DISC_REQ = msg_type \<or> MNCC_REL_REQ = msg_type then
       mbind (mncc_find_leg r) (\<lambda>p. mbind (deref p) (\<lambda>a. mbind (get_leg a) (\<lambda>l.
         mret (m\<lparr>mncc_fields := mncc_fields m OR MNCC_F_CAUSE,
                 mncc_cause := \<lparr>cause_coding = GSM48_CAUSE_CODING_GSM,
                   cause_location = GSM48_CAUSE_LOC_PUN_S_LU, cause_value = cause l\<rparr>\<rparr>))))
     else mret m)"

definition mncc_send :: "ext \<Rightarrow> (addr \<Rightarrow> unit io) \<Rightarrow> u32 \<Rightarrow> u32 \<Rightarrow> int io" where
  "mncc_send X rel msg_type r = mbind (mncc_fill_header zero_mncc msg_type r) (\<lambda>m. mncc_write X rel m)"

definition mncc_rtp_write :: "(addr \<Rightarrow> unit io) \<Rightarrow> gsm_mncc_rtp \<Rightarrow> int io" where
  "mncc_rtp_write rel rtp = mbind (sock_write sizeof_rtp (Tx_rtp rtp)) (\<lambda>rc.
     mthen (mwhen (rc \<noteq> sizeof_rtp) (close_connection rel)) (mret rc))"

definition mncc_rtp_send :: "(addr \<Rightarrow> unit io) \<Rightarrow> u32 \<Rightarrow> u32 \<Rightarrow> string option \<Rightarrow> int io" where
  "mncc_rtp_send rel msg_type r sdp = mncc_rtp_write rel
     (zero_rtp\<lparr>rtp_msg_type := msg_type, rtp_callref := r,
        rtp_sdp := (case sdp of None \<Rightarrow> [] | Some s \<Rightarrow> strlcpy SDP_SIZE s)\<rparr>)"

text \<open>After a failed write the function still reads \<open>leg->callref\<close> and \<open>leg->conn\<close>.\<close>

definition send_rtp_connect :: "(addr \<Rightarrow> unit io) \<Rightarrow> addr \<Rightarrow> addr \<Rightarrow> bool io" where
  "send_rtp_connect rel a other = mbind (get_mncc a) (\<lambda>m. mbind (get_leg other) (\<lambda>ol.
     mbind (mncc_rtp_write rel (zero_rtp\<lparr>rtp_msg_type := MNCC_RTP_CONNECT, rtp_callref := callref m,
        rtp_addr := leg_addr ol, rtp_payload_type := payload_type ol,
        rtp_sdp := strlcpy SDP_SIZE (rx_sdp ol)\<rparr>)) (\<lambda>rc.
     if rc \<noteq> sizeof_rtp
     then mthen (get_mncc a) (mthen (close_connection rel) (mret False))
     else mret True)))"

section \<open>Functions reached through the pointers of an MNCC leg\<close>

definition mncc_call_leg_connect :: "ext \<Rightarrow> (addr \<Rightarrow> unit io) \<Rightarrow> addr \<Rightarrow> unit io" where
  "mncc_call_leg_connect X rel a = mbind (get_leg a) (\<lambda>l.
     mthen (massert (leg_type l = CALL_TYPE_MNCC)) (mbind (call_leg_other a) (\<lambda>p.
     mthen (massert (p \<noteq> None)) (mbind (deref p) (\<lambda>other.
     mbind (send_rtp_connect rel a other) (\<lambda>ok.
     if \<not> ok then mret ()
     else mthen (start_cmd_timer a MNCC_SETUP_COMPL_IND)
       (mbind (get_mncc a) (\<lambda>m.
         mthen (mncc_send X rel MNCC_SETUP_RSP (callref m)) (mret ())))))))))"

definition mncc_call_leg_ring :: "ext \<Rightarrow> (addr \<Rightarrow> unit io) \<Rightarrow> addr \<Rightarrow> unit io" where
  "mncc_call_leg_ring X rel a = mbind (get_leg a) (\<lambda>l.
     mthen (massert (leg_type l = CALL_TYPE_MNCC)) (mbind (get_mncc a) (\<lambda>m.
     mbind (mncc_fill_header zero_mncc MNCC_ALERT_REQ (callref m)) (\<lambda>o_mncc.
     mthen (mncc_write X rel (o_mncc\<lparr>mncc_fields := mncc_fields o_mncc OR MNCC_F_PROGRESS,
         mncc_progress := \<lparr>progress_coding = GSM48_CAUSE_CODING_GSM,
           progress_location = GSM48_CAUSE_LOC_PRN_S_LU, progress_descr = GSM48_PROGR_IN_BAND_AVAIL\<rparr>\<rparr>))
     (mbind (call_leg_other a) (\<lambda>p. case p of
         None \<Rightarrow> mret ()
       | Some other \<Rightarrow> mbind (get_leg other) (\<lambda>ol.
           if ss_family (leg_addr ol) \<noteq> AF_UNSPEC \<and> x_sockaddr_port X (leg_addr ol) \<noteq> 0
           then mthen (send_rtp_connect rel a other) (mret ())
           else mret ())))))))"

definition mncc_call_leg_release :: "ext \<Rightarrow> (addr \<Rightarrow> unit io) \<Rightarrow> addr \<Rightarrow> unit io" where
  "mncc_call_leg_release X rel a = mbind (get_leg a) (\<lambda>l.
     mthen (massert (leg_type l = CALL_TYPE_MNCC)) (mbind (get_mncc a) (\<lambda>m. mbind (mget conn) (\<lambda>cn.
     if conn_state cn \<noteq> MNCC_READY then mncc_leg_release a
     else if mncc_state m = MNCC_CC_INITIAL then
       (if mncc_direction m = MNCC_DIR_MO then
          mthen (mncc_send X rel MNCC_REJ_REQ (callref m)) (mthen (timer_del a) (mncc_leg_release a))
        else
          mthen (upd_leg a (in_release_update (\<lambda>_. True)))
          (mthen (start_cmd_timer a MNCC_REL_CNF)
          (mthen (mncc_send X rel MNCC_REL_REQ (callref m)) (mret ()))))
     else
       mthen (upd_leg a (in_release_update (\<lambda>_. True)))
       (mthen (start_cmd_timer a MNCC_REL_IND)
       (mthen (mncc_send X rel MNCC_DISC_REQ (callref m)) (mret ())))))))"

text \<open>\<open>leg->release_call(leg)\<close>, to a depth of nested releases.\<close>

fun release_leg :: "ext \<Rightarrow> nat \<Rightarrow> addr \<Rightarrow> unit io" where
  "release_leg X 0 a = mfail Out_of_depth"
| "release_leg X (Suc n) a = mbind (get_leg a) (\<lambda>l. case release_call l of
       None \<Rightarrow> mfail Null_call
     | Some f \<Rightarrow> (if f = FP_sip_release_call then sip_release_call a
                 else if f = FP_mncc_call_leg_release then mncc_call_leg_release X (release_leg X n) a
                 else mfail Bad_cast))"

abbreviation release :: "ext \<Rightarrow> addr \<Rightarrow> unit io" where
  "release X \<equiv> release_leg X 2"

text \<open>The function \<open>update_rtp\<close> of \<open>mncc.c\<close>.\<close>

definition mncc_update_rtp :: "ext \<Rightarrow> addr \<Rightarrow> unit io" where
  "mncc_update_rtp X a = mbind (get_leg a) (\<lambda>l. case leg_type l of
       CALL_TYPE_MNCC \<Rightarrow> mbind (call_leg_other a) (\<lambda>p. case p of
           None \<Rightarrow> release X a
         | Some other \<Rightarrow> mthen (send_rtp_connect (release X) a other) (mret ()))
     | CALL_TYPE_SIP \<Rightarrow> mbind (call_leg_other a) (\<lambda>p. case p of
           None \<Rightarrow> release X a
         | Some b \<Rightarrow> mthen (send_rtp_connect (release X) b a) (mret ()))
     | CALL_TYPE_NONE \<Rightarrow> mfail Assert_failed)"

text \<open>The timer core takes an expired timer out before it calls \<open>cmd_timeout\<close>.\<close>

definition cmd_timeout :: "ext \<Rightarrow> addr \<Rightarrow> unit io" where
  "cmd_timeout X a = mbind (get_mncc a) (\<lambda>_. mbind (call_leg_other a) (\<lambda>p.
     mthen (release_ptr (release X) p) (mncc_leg_release a)))"

section \<open>Lookup on a heap that satisfies the invariant\<close>

definition has_callref :: "world \<Rightarrow> u32 \<Rightarrow> addr option \<Rightarrow> bool" where
  "has_callref w r p = (\<exists>a l m. p = Some a \<and> legs w a = Some l \<and> leg_object l = Mncc_object m \<and> callref m = r)"

fun lookup_callref :: "world \<Rightarrow> u32 \<Rightarrow> addr list \<Rightarrow> addr option" where
  "lookup_callref w r [] = None"
| "lookup_callref w r (c # cs) = (case calls w c of None \<Rightarrow> None | Some x \<Rightarrow>
     (if has_callref w r (initial x) then initial x
      else if has_callref w r (remote x) then remote x else lookup_callref w r cs))"

lemma wp_leg_has_callref:
  assumes inv: "heap_inv w" and p: "\<And>a. p = Some a \<Longrightarrow> legs w a \<noteq> None"
  shows "wp (leg_has_callref r p) Q w = Q (has_callref w r p) w"
proof (cases p)
  case None
  then show ?thesis by (simp add: leg_has_callref_def has_callref_def wp)
next
  case (Some a)
  then obtain l where l: "legs w a = Some l" using p by blast
  note ok = heap_invD(2) [OF inv l]
  show ?thesis
  proof (cases "is_mncc l")
    case True
    then show ?thesis using leg_ok_mncc(1,9) [OF ok True] l Some
      by (auto simp: leg_has_callref_def has_callref_def wp)
  next
    case False
    then show ?thesis using leg_ok_sip(1,3) [OF ok False] l Some
      by (auto simp: leg_has_callref_def has_callref_def wp)
  qed
qed

lemma wp_find_callref:
  assumes inv: "heap_inv w" and "\<forall>c \<in> set cs. calls w c \<noteq> None"
  shows "wp (find_callref r cs) Q w = Q (lookup_callref w r cs) w"
  using assms(2)
proof (induction cs)
  case Nil
  then show ?case by (simp add: wp)
next
  case (Cons c cs)
  then obtain x where x: "calls w c = Some x" by auto
  have ptr: "wp (leg_has_callref r (initial x)) R w = R (has_callref w r (initial x)) w"
      "wp (leg_has_callref r (remote x)) R w = R (has_callref w r (remote x)) w" for R
    using wf_heap_call_leg_ex [OF heap_invD(1) [OF inv] x] by (auto intro!: wp_leg_has_callref [OF inv])
  from Cons x show ?case by (simp add: wp ptr)
qed

lemma wp_mncc_find_leg:
  assumes "heap_inv w"
  shows "wp (mncc_find_leg r) Q w = Q (lookup_callref w r (g_call_list w)) w"
proof -
  have "\<forall>c \<in> set (g_call_list w). calls w c \<noteq> None"
    using wf_heapD(2) [OF heap_invD(1) [OF assms]] by blast
  then show ?thesis by (simp add: mncc_find_leg_def wp wp_find_callref [OF assms])
qed

lemma lookup_callref_Some:
  "lookup_callref w r cs = Some a \<Longrightarrow>
     \<exists>l m. legs w a = Some l \<and> leg_object l = Mncc_object m \<and> callref m = r"
  by (induction cs) (auto simp: has_callref_def split: option.splits if_splits)

lemma lookup_callref_None:
  assumes "lookup_callref w r cs = None" and "\<forall>c \<in> set cs. calls w c \<noteq> None"
    and "c \<in> set cs" and "calls w c = Some x"
  shows "\<not> has_callref w r (initial x) \<and> \<not> has_callref w r (remote x)"
  using assms by (induction cs) (auto simp: has_callref_def split: option.splits if_splits)

text \<open>Every MNCC leg is found by its reference (or another leg with the same reference is).\<close>

lemma lookup_callref_complete:
  assumes inv: "heap_inv w" and l: "legs w a = Some l" "leg_object l = Mncc_object m"
  shows "lookup_callref w (callref m) (g_call_list w) \<noteq> None"
proof
  assume none: "lookup_callref w (callref m) (g_call_list w) = None"
  note wf = heap_invD(1) [OF inv]
  obtain x where x: "calls w (leg_call l) = Some x" and a: "initial x = Some a \<or> remote x = Some a"
    using wf_heap_leg_call [OF wf l(1)] .
  have "leg_call l \<in> set (g_call_list w)" using wf_heapD(2) [OF wf, of "leg_call l"] x by simp
  with lookup_callref_None [OF none _ _ x] wf_heapD(2) [OF wf] a l show False
    by (auto simp: has_callref_def)
qed

section \<open>Writes on an open connection\<close>

definition open_conn :: "world \<Rightarrow> bool" where
  "open_conn w = (0 \<le> conn_fd (conn w) \<and> writes w = [])"

lemma open_conn_frame [simp]:
  "open_conn (w\<lparr>legs := L\<rparr>) = open_conn w" "open_conn (w\<lparr>calls := C\<rparr>) = open_conn w"
  "open_conn (w\<lparr>timers := ts\<rparr>) = open_conn w" "open_conn (w\<lparr>out := os\<rparr>) = open_conn w"
  "open_conn (w\<lparr>g_call_list := gl\<rparr>) = open_conn w" "open_conn (w\<lparr>next_addr := na\<rparr>) = open_conn w"
  "open_conn (w\<lparr>allocs := bs\<rparr>) = open_conn w" "open_conn (w\<lparr>last_call_id := li\<rparr>) = open_conn w"
  by (simp_all add: open_conn_def)

lemma wp_sock_write_open:
  "open_conn w \<Longrightarrow> wp (sock_write n x) Q w = Q n (w\<lparr>out := out w @ [x]\<rparr>)"
  by (simp add: wp_def sock_write_def open_conn_def)

lemma wp_mncc_write_open:
  "open_conn w \<Longrightarrow> wp (mncc_write X rel m) Q w = Q (x_sizeof_mncc X) (w\<lparr>out := out w @ [Tx_mncc m]\<rparr>)"
  by (simp add: mncc_write_def wp wp_sock_write_open)

lemma wp_mncc_rtp_write_open:
  "open_conn w \<Longrightarrow> wp (mncc_rtp_write rel m) Q w = Q sizeof_rtp (w\<lparr>out := out w @ [Tx_rtp m]\<rparr>)"
  by (simp add: mncc_rtp_write_def wp wp_sock_write_open)

lemma wp_mncc_rtp_send_open:
  "open_conn w \<Longrightarrow> wp (mncc_rtp_send rel t r sdp) Q w = Q sizeof_rtp (w\<lparr>out := out w @ [Tx_rtp
     (zero_rtp\<lparr>rtp_msg_type := t, rtp_callref := r,
        rtp_sdp := (case sdp of None \<Rightarrow> [] | Some s \<Rightarrow> strlcpy SDP_SIZE s)\<rparr>)]\<rparr>)"
  by (simp add: mncc_rtp_send_def wp_mncc_rtp_write_open)

lemma wp_send_rtp_connect_open:
  "open_conn w \<Longrightarrow> wp (send_rtp_connect rel a other) Q w = (\<exists>l m ol. legs w a = Some l
     \<and> leg_object l = Mncc_object m \<and> legs w other = Some ol \<and>
     Q True (w\<lparr>out := out w @ [Tx_rtp (zero_rtp\<lparr>rtp_msg_type := MNCC_RTP_CONNECT, rtp_callref := callref m,
        rtp_addr := leg_addr ol, rtp_payload_type := payload_type ol,
        rtp_sdp := strlcpy SDP_SIZE (rx_sdp ol)\<rparr>)]\<rparr>))"
  by (auto simp: send_rtp_connect_def wp wp_mncc_rtp_write_open)

text \<open>The message \<open>mncc_send\<close> puts on the wire.\<close>

definition mncc_message :: "world \<Rightarrow> u32 \<Rightarrow> u32 \<Rightarrow> gsm_mncc" where
  "mncc_message w t r = (let m = zero_mncc\<lparr>mncc_msg_type := t, mncc_callref := r\<rparr> in
     if MNCC_DISC_REQ = t \<or> MNCC_REL_REQ = t then
       (case lookup_callref w r (g_call_list w) of None \<Rightarrow> m | Some a \<Rightarrow>
         m\<lparr>mncc_fields := MNCC_F_CAUSE,
           mncc_cause := \<lparr>cause_coding = GSM48_CAUSE_CODING_GSM,
             cause_location = GSM48_CAUSE_LOC_PUN_S_LU, cause_value = cause (the (legs w a))\<rparr>\<rparr>)
     else m)"

lemma wp_mncc_send_plain:
  "open_conn w \<Longrightarrow> t \<noteq> MNCC_DISC_REQ \<Longrightarrow> t \<noteq> MNCC_REL_REQ \<Longrightarrow>
   wp (mncc_send X rel t r) Q w =
     Q (x_sizeof_mncc X) (w\<lparr>out := out w @ [Tx_mncc (zero_mncc\<lparr>mncc_msg_type := t, mncc_callref := r\<rparr>)]\<rparr>)"
  by (auto simp: mncc_send_def mncc_fill_header_def wp wp_mncc_write_open)

lemma wp_mncc_send_open:
  assumes inv: "heap_inv w" and op: "open_conn w"
    and l: "legs w a = Some l" "leg_object l = Mncc_object m"
  shows "wp (mncc_send X rel t (callref m)) Q w =
    Q (x_sizeof_mncc X) (w\<lparr>out := out w @ [Tx_mncc (mncc_message w t (callref m))]\<rparr>)"
proof -
  obtain b where b: "lookup_callref w (callref m) (g_call_list w) = Some b"
    using lookup_callref_complete [OF inv l] by auto
  then obtain k where k: "legs w b = Some k" using lookup_callref_Some by blast
  show ?thesis
    by (auto simp: mncc_send_def mncc_fill_header_def mncc_message_def wp wp_mncc_write_open op
        wp_mncc_find_leg [OF inv] b k Let_def zero_mncc_def)
qed

end
