(* ===== verification/Mncc_Safety.thy ===== *)
theory Mncc_Safety
  imports Mncc_Conn
begin

text \<open>
  What the operations of \<open>Mncc_Conn\<close> guarantee. The interface \<open>dropping_release\<close> is what
  \<open>app_mncc_disconnected\<close> relies on; it is discharged by the release functions of both kinds of
  leg and gives that closing the connection frees every MNCC leg. On an open connection the
  functions behind the pointers of an MNCC leg are instances of \<open>framed_op\<close>, so they lead from
  one connected state to another.
\<close>

section \<open>Releasing the calls of a closed connection\<close>

text \<open>
  From \<open>w\<close> to \<open>w'\<close> only the call at \<open>c\<close> and its legs changed, and no leg and no timer is new.
\<close>

definition only_call :: "addr \<Rightarrow> world \<Rightarrow> world \<Rightarrow> bool" where
  "only_call c w w' = ((\<forall>b l'. legs w' b = Some l' \<longrightarrow> (\<exists>l. legs w b = Some l \<and> ident l' = ident l))
     \<and> (\<forall>b l. legs w b = Some l \<and> leg_call l \<noteq> c \<longrightarrow> legs w' b = Some l)
     \<and> (\<forall>d. d \<noteq> c \<longrightarrow> calls w' d = calls w d)
     \<and> conn w' = conn w \<and> writes w' = writes w \<and> g_app w' = g_app w)"

lemma only_callD:
  assumes "only_call c w w'"
  shows "legs w' b = Some l' \<Longrightarrow> \<exists>l. legs w b = Some l \<and> ident l' = ident l"
    and "legs w b = Some l \<Longrightarrow> leg_call l \<noteq> c \<Longrightarrow> legs w' b = Some l"
    and "d \<noteq> c \<Longrightarrow> calls w' d = calls w d"
    and "conn w' = conn w" "writes w' = writes w" "g_app w' = g_app w"
  using assms unfolding only_call_def by (blast, blast, blast, blast, blast, blast)

lemma only_call_refl [simp]: "only_call c w w"
  by (simp add: only_call_def)

lemma only_call_trans:
  assumes "only_call c w v" and "only_call c v u"
  shows "only_call c w u"
proof -
  have "\<exists>l. legs w b = Some l \<and> ident l' = ident l" if "legs u b = Some l'" for b l'
    using only_callD(1) [OF assms(2) that] only_callD(1) [OF assms(1)] by force
  then show ?thesis
    using only_callD(2-) [OF assms(1)] only_callD(2-) [OF assms(2)] by (simp add: only_call_def)
qed

lemma only_leg_only_call:
  assumes "only_leg a w w'" and "legs w a = Some l"
  shows "only_call (leg_call l) w w'"
proof -
  have "legs w' b = Some k" if "legs w b = Some k" "leg_call k \<noteq> leg_call l" for b k
    using only_legD(1) [OF assms(1), of b] that assms(2) by (cases "b = a") auto
  then show ?thesis
    using only_leg_ident [OF assms(1)] only_legD(3) [OF assms(1,2)] only_legD(5-7) [OF assms(1)]
    by (simp add: only_call_def)
qed

text \<open>A call whose MNCC legs were freed one after the other has none left.\<close>

lemma call_mncc_gone:
  assumes wf: "wf_heap w" and x: "calls w c = Some x"
    and oc: "only_call c w v" "only_call c v u"
    and i: "\<forall>a l. initial x = Some a \<and> legs w a = Some l \<and> is_mncc l \<longrightarrow> legs v a = None"
    and r: "\<forall>a l. remote x = Some a \<and> legs v a = Some l \<and> is_mncc l \<longrightarrow> legs u a = None"
    and b: "legs u b = Some l'" "leg_call l' = c"
  shows "\<not> is_mncc l'"
proof
  assume m: "is_mncc l'"
  obtain k where k: "legs v b = Some k" "ident l' = ident k" using only_callD(1) [OF oc(2) b(1)] by blast
  obtain j where j: "legs w b = Some j" "ident k = ident j" using only_callD(1) [OF oc(1) k(1)] by blast
  have "leg_call j = c" "is_mncc k" "is_mncc j"
    using b(2) m ident_eqD(2,3) [OF k(2)] ident_eqD(2,3) [OF j(2)] by simp_all
  moreover have "initial x = Some b \<or> remote x = Some b"
    using wf_heapD(4) [OF wf j(1)] x \<open>leg_call j = c\<close> by (auto simp: call_legs_iff)
  ultimately show False using i r j k b by fastforce
qed

text \<open>The loop over the calls: afterwards the listed calls have no MNCC leg, legs of calls that
  had none are as before, and no leg changed its identity.\<close>

definition call_has_mncc :: "world \<Rightarrow> addr \<Rightarrow> bool" where
  "call_has_mncc w c = (\<exists>b k. legs w b = Some k \<and> leg_call k = c \<and> is_mncc k)"

definition calls_drained :: "addr set \<Rightarrow> world \<Rightarrow> world \<Rightarrow> bool" where
  "calls_drained C w w' = ((\<forall>b l'. legs w' b = Some l' \<longrightarrow> (\<exists>l. legs w b = Some l \<and> ident l' = ident l))
     \<and> (\<forall>b l. legs w b = Some l \<and> \<not> call_has_mncc w (leg_call l) \<longrightarrow> legs w' b = Some l)
     \<and> (\<forall>b l'. legs w' b = Some l' \<and> leg_call l' \<in> C \<longrightarrow> \<not> is_mncc l')
     \<and> conn w' = conn w \<and> writes w' = writes w \<and> g_app w' = g_app w)"

lemma calls_drainedD:
  assumes "calls_drained C w w'"
  shows "legs w' b = Some l' \<Longrightarrow> \<exists>l. legs w b = Some l \<and> ident l' = ident l"
    and "legs w b = Some l \<Longrightarrow> \<not> call_has_mncc w (leg_call l) \<Longrightarrow> legs w' b = Some l"
    and "legs w' b = Some l' \<Longrightarrow> leg_call l' \<in> C \<Longrightarrow> \<not> is_mncc l'"
    and "conn w' = conn w" "writes w' = writes w" "g_app w' = g_app w"
  using assms unfolding calls_drained_def by (blast, blast, blast, blast, blast, blast)

lemma calls_drained_Cons:
  assumes oc: "only_call c w u" and c: "\<forall>b l'. legs u b = Some l' \<and> leg_call l' = c \<longrightarrow> \<not> is_mncc l'"
    and m: "call_has_mncc w c \<or> u = w" and d: "calls_drained C u w'"
  shows "calls_drained (insert c C) w w'"
proof -
  have 1: "\<exists>l. legs w b = Some l \<and> ident l' = ident l" if "legs w' b = Some l'" for b l'
    using calls_drainedD(1) [OF d that] only_callD(1) [OF oc] by force
  have 2: "legs w' b = Some l" if l: "legs w b = Some l" "\<not> call_has_mncc w (leg_call l)" for b l
  proof (rule calls_drainedD(2) [OF d])
    show "legs u b = Some l" using only_callD(2) [OF oc l(1)] l m by blast
    show "\<not> call_has_mncc u (leg_call l)"
      using l(2) only_callD(1) [OF oc] ident_eqD(2,3) unfolding call_has_mncc_def by metis
  qed
  have 3: "\<not> is_mncc l'" if l': "legs w' b = Some l'" "leg_call l' \<in> insert c C" for b l'
  proof (cases "leg_call l' \<in> C")
    case True
    then show ?thesis using calls_drainedD(3) [OF d l'(1)] by simp
  next
    case False
    obtain k where k: "legs u b = Some k" "ident l' = ident k" using calls_drainedD(1) [OF d l'(1)] by blast
    then have "leg_call k = c" "is_mncc l' = is_mncc k"
      using False l'(2) ident_eqD(2,3) [OF k(2)] by simp_all
    then show ?thesis using c k(1) by blast
  qed
  show ?thesis
    unfolding calls_drained_def
    using 1 2 3 calls_drainedD(4-6) [OF d, unfolded only_callD(4-6) [OF oc]] by blast
qed

definition ptr_mncc :: "world \<Rightarrow> addr option \<Rightarrow> bool" where
  "ptr_mncc w p = (\<exists>a l. p = Some a \<and> legs w a = Some l \<and> is_mncc l)"

lemma wp_is_mncc_ptr:
  assumes inv: "heap_inv w" and p: "\<And>a. p = Some a \<Longrightarrow> legs w a \<noteq> None"
  shows "wp (is_mncc_ptr p) Q w = Q (ptr_mncc w p) w"
proof (cases p)
  case None
  then show ?thesis by (simp add: is_mncc_ptr_def ptr_mncc_def wp)
next
  case (Some a)
  then obtain l where l: "legs w a = Some l" using p by blast
  note ok = heap_invD(2) [OF inv l]
  have "(leg_type l = CALL_TYPE_MNCC) = is_mncc l"
    using leg_ok_mncc(1) [OF ok] leg_ok_sip(1) [OF ok] by (cases "is_mncc l") simp_all
  then show ?thesis using l Some by (simp add: is_mncc_ptr_def ptr_mncc_def wp)
qed

text \<open>A leg that never got its callbacks is alone in its call.\<close>

lemma mncc_call_not_bare:
  assumes inv: "heap_inv w" and x: "calls w c = Some x"
    and m: "ptr_mncc w (initial x) \<or> ptr_mncc w (remote x)"
    and a: "initial x = Some a \<or> remote x = Some a" "legs w a = Some l"
  shows "\<not> bare l"
proof
  assume b: "bare l"
  note ok = heap_invD(2) [OF inv a(2)] and cok = heap_invD(3) [OF inv x]
  have n: "\<not> is_mncc l" using leg_ok_mncc(10) [OF ok] b by blast
  then have mo: "leg_mo l" using leg_ok_sip(11) [OF ok] b by blast
  then have i: "initial x = Some a" using cok a unfolding call_ok_def by blast
  then have "ptr_mncc w (remote x)" using m a(2) n by (simp add: ptr_mncc_def)
  then show False using cok i a(2) b unfolding call_ok_def ptr_mncc_def by blast
qed

text \<open>
  What \<open>app_mncc_disconnected\<close> needs from the release functions of the legs once the
  connection is no longer ready: a release stays within the call, does not touch the other leg,
  and frees an MNCC leg at once.
\<close>

locale dropping_release =
  fixes rel :: "addr \<Rightarrow> unit io"
  assumes drops: "heap_inv w \<Longrightarrow> conn_state (conn w) \<noteq> MNCC_READY \<Longrightarrow> legs w a = Some l \<Longrightarrow> \<not> bare l \<Longrightarrow>
    wp (rel a) (\<lambda>_ w'. heap_inv w' \<and> only_call (leg_call l) w w'
       \<and> (\<forall>b. b \<noteq> a \<longrightarrow> legs w' b = legs w b) \<and> (is_mncc l \<longrightarrow> legs w' a = None)) w"
begin

text \<open>One leg pointer of a call.\<close>

lemma release_one:
  assumes inv: "heap_inv v" and nr: "conn_state (conn v) \<noteq> MNCC_READY"
    and p: "\<And>a. p = Some a \<Longrightarrow> \<exists>l. legs v a = Some l \<and> leg_call l = c \<and> \<not> bare l"
  shows "wp (release_ptr rel p) (\<lambda>_ u. heap_inv u \<and> only_call c v u
     \<and> (\<forall>b. p \<noteq> Some b \<longrightarrow> legs u b = legs v b)
     \<and> (\<forall>a l. p = Some a \<and> legs v a = Some l \<and> is_mncc l \<longrightarrow> legs u a = None)) v"
proof (cases p)
  case None
  with inv show ?thesis by (simp add: release_ptr_def wp)
next
  case (Some a)
  with p obtain l where l: "legs v a = Some l" "leg_call l = c" "\<not> bare l" by blast
  show ?thesis
    unfolding release_ptr_def Some option.case
    by (rule wp_mono [OF drops [OF inv nr l(1,3)]]) (use l in auto)
qed

text \<open>Both legs of one call.\<close>

lemma release_both:
  assumes inv: "heap_inv w" and nr: "conn_state (conn w) \<noteq> MNCC_READY" and x: "calls w c = Some x"
    and nb: "\<And>a l. initial x = Some a \<or> remote x = Some a \<Longrightarrow> legs w a = Some l \<Longrightarrow> \<not> bare l"
    and rest: "\<And>u. heap_inv u \<Longrightarrow> only_call c w u \<Longrightarrow>
        \<forall>b l'. legs u b = Some l' \<and> leg_call l' = c \<longrightarrow> \<not> is_mncc l' \<Longrightarrow> wp k Q u"
  shows "wp (mthen (release_ptr rel (initial x)) (mthen (release_ptr rel (remote x)) k)) Q w"
proof -
  note wf = heap_invD(1) [OF inv]
  have live: "\<exists>l. legs w a = Some l \<and> leg_call l = c \<and> \<not> bare l"
    if "initial x = Some a \<or> remote x = Some a" for a
    using wf_heap_call_leg_ex [OF wf x that] nb [OF that] by blast
  let ?P = "\<lambda>v. heap_inv v \<and> only_call c w v \<and> (\<forall>b. initial x \<noteq> Some b \<longrightarrow> legs v b = legs w b)
       \<and> (\<forall>a l. initial x = Some a \<and> legs w a = Some l \<and> is_mncc l \<longrightarrow> legs v a = None)"
  have first: "wp (release_ptr rel (initial x)) (\<lambda>_. ?P) w"
    by (rule release_one [OF inv nr]) (use live in blast)
  have second: "wp (release_ptr rel (remote x)) (\<lambda>_ u. heap_inv u \<and> only_call c w u
       \<and> (\<forall>b l'. legs u b = Some l' \<and> leg_call l' = c \<longrightarrow> \<not> is_mncc l')) v" if P: "?P v" for v
  proof -
    have r: "legs v a = legs w a" if "remote x = Some a" for a
      using P wf_heap_distinct_legs [OF wf x, of a] that by blast
    have "wp (release_ptr rel (remote x)) (\<lambda>_ u. heap_inv u \<and> only_call c v u
       \<and> (\<forall>b. remote x \<noteq> Some b \<longrightarrow> legs u b = legs v b)
       \<and> (\<forall>a l. remote x = Some a \<and> legs v a = Some l \<and> is_mncc l \<longrightarrow> legs u a = None)) v"
    proof (rule release_one)
      show "heap_inv v" using P by (elim conjE)
      have "only_call c w v" using P by (elim conjE)
      then show "conn_state (conn v) \<noteq> MNCC_READY" using nr only_callD(4) by simp
      show "\<exists>l. legs v a = Some l \<and> leg_call l = c \<and> \<not> bare l" if "remote x = Some a" for a
        using live [of a] r that by simp
    qed
    then show ?thesis
    proof (rule wp_mono)
      fix u
      assume u: "heap_inv u \<and> only_call c v u \<and> (\<forall>b. remote x \<noteq> Some b \<longrightarrow> legs u b = legs v b)
       \<and> (\<forall>a l. remote x = Some a \<and> legs v a = Some l \<and> is_mncc l \<longrightarrow> legs u a = None)"
      have oc: "only_call c w v" "only_call c v u" using P u by simp_all
      have gone: "\<forall>a l. initial x = Some a \<and> legs w a = Some l \<and> is_mncc l \<longrightarrow> legs v a = None"
          "\<forall>a l. remote x = Some a \<and> legs v a = Some l \<and> is_mncc l \<longrightarrow> legs u a = None"
        using P u by simp_all
      show "heap_inv u \<and> only_call c w u \<and> (\<forall>b l'. legs u b = Some l' \<and> leg_call l' = c \<longrightarrow> \<not> is_mncc l')"
        using u only_call_trans [OF oc] call_mncc_gone [OF wf x oc gone] by blast
    qed
  qed
  have both: "wp (mthen (release_ptr rel (remote x)) k) Q v" if "?P v" for v
    unfolding wp_mthen by (rule wp_mono [OF second [OF that]]) (use rest in blast)
  show ?thesis
    by (subst wp_mthen) (rule wp_mono [OF first], rule both)
qed

text \<open>The whole loop.\<close>

lemma disconnect_calls_drains:
  assumes "heap_inv w" and "conn_state (conn w) \<noteq> MNCC_READY"
    and "distinct cs" and "\<forall>c \<in> set cs. calls w c \<noteq> None"
  shows "wp (disconnect_calls rel cs) (\<lambda>_ w'. heap_inv w' \<and> calls_drained (set cs) w w') w"
  using assms
proof (induction cs arbitrary: w)
  case Nil
  then show ?case by (simp add: wp calls_drained_def)
next
  case (Cons c cs)
  note inv = Cons.prems(1) and nr = Cons.prems(2)
  note wf = heap_invD(1) [OF inv]
  from Cons.prems obtain x where x: "calls w c = Some x" by auto
  have ptr: "wp (is_mncc_ptr (initial x)) R w = R (ptr_mncc w (initial x)) w"
      "wp (is_mncc_ptr (remote x)) R w = R (ptr_mncc w (remote x)) w" for R
    using wf_heap_call_leg_ex [OF wf x] by (auto intro!: wp_is_mncc_ptr [OF inv])
  let ?Q = "\<lambda>w'. heap_inv w' \<and> calls_drained (set (c # cs)) w w'"
  have step: "wp (disconnect_calls rel cs) (\<lambda>_. ?Q) u"
    if u: "heap_inv u" "only_call c w u" "\<forall>b l'. legs u b = Some l' \<and> leg_call l' = c \<longrightarrow> \<not> is_mncc l'"
      "call_has_mncc w c \<or> u = w" for u
  proof (rule wp_mono [OF Cons.IH [OF u(1)]])
    show "conn_state (conn u) \<noteq> MNCC_READY" using nr only_callD(4) [OF u(2)] by simp
    show "distinct cs" using Cons.prems by simp
    have "calls u d = calls w d" if "d \<in> set cs" for d
      using only_callD(3) [OF u(2)] Cons.prems(3) that by fastforce
    then show "\<forall>d \<in> set cs. calls u d \<noteq> None" using Cons.prems(4) by simp
    show "?Q w'" if "heap_inv w' \<and> calls_drained (set cs) u w'" for w'
      using that calls_drained_Cons [OF u(2-)] by simp
  qed
  show ?case
  proof (cases "ptr_mncc w (initial x) \<or> ptr_mncc w (remote x)")
    case True
    then have m: "call_has_mncc w c"
      using wf_heap_call_leg_ex [OF wf x] by (fastforce simp: ptr_mncc_def call_has_mncc_def)
    have "wp (mthen (release_ptr rel (initial x)) (mthen (release_ptr rel (remote x)) (disconnect_calls rel cs)))
        (\<lambda>_. ?Q) w"
      by (rule release_both [OF inv nr x mncc_call_not_bare [OF inv x True] step]) (use m in simp_all)
    then show ?thesis using True by (simp add: wp x ptr)
  next
    case False
    have "\<not> is_mncc l" if "legs w b = Some l" "leg_call l = c" for b l
      using False wf_heapD(4) [OF wf that(1)] x that by (auto simp: ptr_mncc_def call_legs_iff)
    then have "wp (disconnect_calls rel cs) (\<lambda>_. ?Q) w" by (intro step [OF inv]) (simp, blast, simp)
    then show ?thesis using False by (simp add: wp x ptr)
  qed
qed

end

text \<open>\<open>mncc_leg_release\<close>: the timer is off and the leg is gone.\<close>

lemma wp_mncc_leg_release:
  assumes inv: "heap_inv w" and l: "legs w a = Some l" and x: "calls w (leg_call l) = Some x"
  shows "wp (mncc_leg_release a) Q w =
    Q () (leg_gone a (leg_call l) x (w\<lparr>timers := removeAll a (timers w)\<rparr>))"
  using wp_call_leg_release [of "w\<lparr>timers := removeAll a (timers w)\<rparr>" a l x]
    heap_invD(1) [OF heap_inv_timers_removeAll [OF inv, of a]] l x
  by (simp add: mncc_leg_release_def wp)

lemma mncc_leg_gone:
  assumes inv: "heap_inv w" and l: "legs w a = Some l" and x: "calls w (leg_call l) = Some x"
  shows "heap_inv (leg_gone a (leg_call l) x (w\<lparr>timers := removeAll a (timers w)\<rparr>))"
    and "only_call (leg_call l) w (leg_gone a (leg_call l) x (w\<lparr>timers := removeAll a (timers w)\<rparr>))"
proof -
  show "heap_inv (leg_gone a (leg_call l) x (w\<lparr>timers := removeAll a (timers w)\<rparr>))"
    by (rule heap_inv_leg_gone [OF heap_inv_timers_removeAll [OF inv]]) (use l x in simp_all)
  show "only_call (leg_call l) w (leg_gone a (leg_call l) x (w\<lparr>timers := removeAll a (timers w)\<rparr>))"
    using l by (auto simp: only_call_def leg_gone_def)
qed

interpretation closed_release: dropping_release "release_leg X (Suc n)" for X n
proof
  fix w a l
  assume inv: "heap_inv w" and nr: "conn_state (conn w) \<noteq> MNCC_READY" and l: "legs w a = Some l" and b: "\<not> bare l"
  note ok = heap_invD(2) [OF inv l]
  let ?Q = "\<lambda>w'. heap_inv w' \<and> only_call (leg_call l) w w' \<and> (\<forall>b. b \<noteq> a \<longrightarrow> legs w' b = legs w b)
       \<and> (is_mncc l \<longrightarrow> legs w' a = None)"
  show "wp (release_leg X (Suc n) a) (\<lambda>_. ?Q) w"
  proof (cases "is_mncc l")
    case True
    obtain x where x: "calls w (leg_call l) = Some x" using wf_heap_leg_call [OF heap_invD(1) [OF inv] l] .
    have "?Q (leg_gone a (leg_call l) x (w\<lparr>timers := removeAll a (timers w)\<rparr>))"
      using mncc_leg_gone [OF inv l x] by (simp add: leg_gone_def)
    then show ?thesis
      using leg_ok_mncc(1,4,9) [OF ok True] l nr
      by (auto simp: mncc_call_leg_release_def wp wp_mncc_leg_release [OF inv l x])
  next
    case False
    have "wp (sip_release_call a) (\<lambda>_. ?Q) w"
      by (rule wp_mono [OF sip_release.contract [OF inv l]])
         (use ok b False l in \<open>auto simp: sip_kind_def dest: only_leg_only_call only_legD(1)\<close>)
    then show ?thesis using leg_ok_sip(4) [OF ok False b] l by (simp add: wp)
  qed
qed

text \<open>Closing an open connection.\<close>

lemma close_connection_ok:
  assumes inv: "heap_inv w" and od: "on_disconnect (conn w) = Some FP_app_mncc_disconnected"
    and fd: "0 \<le> conn_fd (conn w)"
  shows "wp (close_connection (release_leg X (Suc n))) (\<lambda>_ w'. inv w' \<and> timers w' = []
     \<and> conn w' = (conn w)\<lparr>conn_fd := -1, reconnect_pending := True, conn_state := MNCC_DISCONNECTED\<rparr>
     \<and> calls_drained (set (g_call_list w)) w (w'\<lparr>conn := conn w\<rparr>)) w"
proof -
  let ?w = "w\<lparr>conn := (conn w)\<lparr>conn_fd := -1, reconnect_pending := True, conn_state := MNCC_DISCONNECTED\<rparr>\<rparr>"
  note wf = heap_invD(1) [OF inv]
  have "wp (disconnect_calls (release_leg X (Suc n)) (g_call_list w))
      (\<lambda>_ w'. heap_inv w' \<and> calls_drained (set (g_call_list w)) ?w w') ?w"
    by (rule closed_release.disconnect_calls_drains) (use inv wf_heapD(1,2) [OF wf] in auto)
  then have "wp (disconnect_calls (release_leg X (Suc n)) (g_call_list w)) (\<lambda>_ w'. inv w' \<and> timers w' = []
     \<and> conn w' = conn ?w \<and> calls_drained (set (g_call_list w)) w (w'\<lparr>conn := conn w\<rparr>)) ?w"
  proof (rule wp_mono)
    fix w' assume d: "heap_inv w' \<and> calls_drained (set (g_call_list w)) ?w w'"
    then have h: "heap_inv w'" and d': "calls_drained (set (g_call_list w)) ?w w'" by simp_all
    have no: "\<not> is_mncc l'" if l': "legs w' b = Some l'" for b l'
    proof -
      obtain l where l: "legs w b = Some l" "ident l' = ident l" using calls_drainedD(1) [OF d' l'] by auto
      obtain x where "calls w (leg_call l) = Some x" using wf_heap_leg_call [OF wf l(1)] .
      then have "leg_call l' \<in> set (g_call_list w)"
        using wf_heapD(2) [OF wf, of "leg_call l"] ident_eqD(2) [OF l(2)] by simp
      then show ?thesis using calls_drainedD(3) [OF d' l'] by simp
    qed
    have t: "timers w' = []"
      using wf_heapD(7) [OF heap_invD(1) [OF h]] no by (cases "timers w'") auto
    have "conn_ok w'" using no od calls_drainedD(4) [OF d'] by (auto simp: conn_ok_def)
    moreover have "calls_drained (set (g_call_list w)) w (w'\<lparr>conn := conn w\<rparr>)"
      using d' by (simp add: calls_drained_def call_has_mncc_def) blast
    ultimately show "inv w' \<and> timers w' = [] \<and> conn w' = conn ?w
        \<and> calls_drained (set (g_call_list w)) w (w'\<lparr>conn := conn w\<rparr>)"
      using h t calls_drainedD(4) [OF d'] by (simp add: inv_iff)
  qed
  then show ?thesis using fd od by (simp add: close_connection_def app_mncc_disconnected_def wp)
qed

section \<open>The operations of an MNCC leg on an open connection\<close>

lemma heap_inv_mncc:
  assumes "heap_inv w" and "legs w a = Some l" and "is_mncc l"
  obtains m x where "leg_object l = Mncc_object m" and "leg_type l = CALL_TYPE_MNCC"
    and "calls w (leg_call l) = Some x"
  using leg_ok_mncc(1,9) [OF heap_invD(2) [OF assms(1,2)] assms(3)]
    wf_heap_leg_call [OF heap_invD(1) [OF assms(1)] assms(2)] by blast

lemma ident_mncc_upd [simp]:
  "leg_object l = Mncc_object m \<Longrightarrow> mncc_direction m' = mncc_direction m \<Longrightarrow>
     ident (l\<lparr>leg_object := Mncc_object m'\<rparr>) = ident l"
  by (simp add: ident_def is_mncc_def leg_mo_def leg_handle_def)

lemma ident_leg_upd [simp]:
  "ident (l\<lparr>in_release := r\<rparr>) = ident l" "ident (l\<lparr>cause := c\<rparr>) = ident l"
  "ident (l\<lparr>rx_sdp := s\<rparr>) = ident l" "ident (l\<lparr>rx_sdp_changed := f\<rparr>) = ident l"
  "ident (l\<lparr>leg_addr := ad\<rparr>) = ident l" "ident (l\<lparr>payload_type := pt\<rparr>) = ident l"
  "ident (l\<lparr>payload_msg_type := pm\<rparr>) = ident l"
  by (simp_all add: ident_def is_mncc_def leg_mo_def leg_handle_def)

text \<open>Starting and stopping the command timer.\<close>

lemma wp_start_cmd_timer:
  assumes inv: "heap_inv w" and l: "legs w a = Some l" and m: "leg_object l = Mncc_object m"
    and Q: "\<And>w'. heap_inv w' \<Longrightarrow> leg_frame a w w' \<Longrightarrow> timers w' = a # removeAll a (timers w) \<Longrightarrow> out w' = out w \<Longrightarrow>
       g_call_list w' = g_call_list w \<Longrightarrow> calls w' = calls w \<Longrightarrow>
       legs w' = (legs w)(a \<mapsto> l\<lparr>leg_object := Mncc_object (m\<lparr>rsp_wanted := r\<rparr>)\<rparr>) \<Longrightarrow> Q () w'"
  shows "wp (start_cmd_timer a r) Q w"
proof -
  let ?l = "l\<lparr>leg_object := Mncc_object (m\<lparr>rsp_wanted := r\<rparr>)\<rparr>"
  have i: "ident ?l = ident l" using m by simp
  have "heap_inv (w\<lparr>legs := (legs w)(a \<mapsto> ?l), timers := a # removeAll a (timers w)\<rparr>)"
    by (rule heap_inv_timers [OF heap_inv_upd_leg [OF l i inv]])
       (auto simp: is_mncc_def dest: wf_heapD(7) [OF heap_invD(1) [OF inv]])
  then show ?thesis
    using l m leg_frame_upd [OF l i] by (simp add: start_cmd_timer_def wp) (auto intro!: Q)
qed

interpretation stop_timer: framed_op "\<lambda>a. stop_cmd_timer a r" is_mncc "\<lambda>_ _. True" for r
proof
  fix w a l assume h: "heap_inv w" "legs w a = Some l" "is_mncc l"
  obtain m x where "leg_object l = Mncc_object m" using heap_inv_mncc [OF h] by blast
  then show "wp (stop_cmd_timer a r) (\<lambda>_ w'. heap_inv w' \<and> leg_frame a w w') w"
    using h heap_inv_timers_removeAll [OF h(1), of a] by (simp add: stop_cmd_timer_def wp)
qed

interpretation leg_release: framed_op mncc_leg_release is_mncc "\<lambda>_ _. True"
proof
  fix w a l assume h: "heap_inv w" "legs w a = Some l" "is_mncc l"
  obtain m x where x: "calls w (leg_call l) = Some x" using heap_inv_mncc [OF h] by blast
  show "wp (mncc_leg_release a) (\<lambda>_ w'. heap_inv w' \<and> leg_frame a w w') w"
    using mncc_leg_gone(1) [OF h(1,2) x]
    by (simp add: wp_mncc_leg_release [OF h(1,2) x] leg_frame_def leg_gone_def)
qed

text \<open>Setting the release flag, starting the timer and sending: the end of a release that waits
  for the MSC.\<close>

lemma mncc_release_wait:
  assumes inv: "heap_inv w" and op: "open_conn w" and l: "legs w a = Some l" and m: "leg_object l = Mncc_object m"
  shows "wp (mthen (upd_leg a (in_release_update (\<lambda>_. True))) (mthen (start_cmd_timer a r)
      (mthen (mncc_send X rel t (callref m)) (mret ()))))
    (\<lambda>_ w'. heap_inv w' \<and> leg_frame a w w' \<and> timers w' = a # removeAll a (timers w)
      \<and> legs w' a = Some (l\<lparr>in_release := True, leg_object := Mncc_object (m\<lparr>rsp_wanted := r\<rparr>)\<rparr>)
      \<and> (\<exists>o'. out w' = out w @ [Tx_mncc o'] \<and> mncc_msg_type o' = t \<and> mncc_callref o' = callref m)) w"
proof -
  let ?l = "l\<lparr>in_release := True\<rparr>" and ?w = "w\<lparr>legs := (legs w)(a \<mapsto> l\<lparr>in_release := True\<rparr>)\<rparr>"
  let ?Q = "\<lambda>w'. heap_inv w' \<and> leg_frame a w w' \<and> timers w' = a # removeAll a (timers w)
      \<and> legs w' a = Some (l\<lparr>in_release := True, leg_object := Mncc_object (m\<lparr>rsp_wanted := r\<rparr>)\<rparr>)
      \<and> (\<exists>o'. out w' = out w @ [Tx_mncc o'] \<and> mncc_msg_type o' = t \<and> mncc_callref o' = callref m)"
  have i: "ident ?l = ident l" by simp
  have "wp (start_cmd_timer a r) (\<lambda>_. wp (mthen (mncc_send X rel t (callref m)) (mret ())) (\<lambda>_. ?Q)) ?w"
  proof (rule wp_start_cmd_timer [OF heap_inv_upd_leg [OF l i inv], of a ?l m])
    fix w' assume w': "heap_inv w'" "leg_frame a ?w w'" "timers w' = a # removeAll a (timers ?w)" "out w' = out ?w"
      "legs w' = (legs ?w)(a \<mapsto> ?l\<lparr>leg_object := Mncc_object (m\<lparr>rsp_wanted := r\<rparr>)\<rparr>)"
    have o': "open_conn w'" using op leg_frameD(3,4) [OF w'(2)] by (simp add: open_conn_def)
    have l': "legs w' a = Some (?l\<lparr>leg_object := Mncc_object (m\<lparr>rsp_wanted := r\<rparr>)\<rparr>)" using w'(5) by simp
    have "mncc_msg_type (mncc_message w' t (callref m)) = t" "mncc_callref (mncc_message w' t (callref m)) = callref m"
      by (auto simp: mncc_message_def Let_def split: option.splits)
    then show "wp (mthen (mncc_send X rel t (callref m)) (mret ())) (\<lambda>_. ?Q) w'"
      using wp_mncc_send_open [OF w'(1) o' l', of "m\<lparr>rsp_wanted := r\<rparr>" X rel t] w'
        leg_frame_trans [OF leg_frame_upd [OF l i] w'(2)] by (simp add: wp)
  qed (use m in simp_all)
  then show ?thesis using l by (simp add: wp)
qed

interpretation mncc_release: framed_op "mncc_call_leg_release X rel" is_mncc "\<lambda>w _. open_conn w" for X rel
proof
  fix w a l assume h: "heap_inv w" "open_conn w" "legs w a = Some l" "is_mncc l"
  obtain m x where m: "leg_object l = Mncc_object m" "leg_type l = CALL_TYPE_MNCC"
    using heap_inv_mncc [OF h(1,3,4)] by blast
  let ?Q = "\<lambda>_ w'. heap_inv w' \<and> leg_frame a w w'"
  have wait: "wp (mthen (upd_leg a (in_release_update (\<lambda>_. True))) (mthen (start_cmd_timer a r)
      (mthen (mncc_send X rel t (callref m)) (mret ())))) ?Q w" for r t
    by (rule wp_mono [OF mncc_release_wait [OF h(1-3) m(1)]]) simp
  have gone: "wp (mncc_leg_release a) ?Q w" by (rule leg_release.framed [OF h(1) _ h(3,4)]) simp
  let ?v = "\<lambda>o'. w\<lparr>timers := removeAll a (timers w), out := o'\<rparr>"
  have rej: "wp (mncc_leg_release a) ?Q (?v o')" for o'
  proof (rule wp_mono [OF leg_release.framed [of "?v o'" a l]])
    show "heap_inv (?v o')" using heap_inv_timers_removeAll [OF h(1), of a] by simp
  qed (use h in \<open>auto simp: leg_frame_def\<close>)
  show "wp (mncc_call_leg_release X rel a) ?Q w"
    using h m wait gone rej
    by (simp add: mncc_call_leg_release_def wp wp_mncc_send_plain [OF h(2)])
qed

text \<open>Through the function pointer, on either kind of leg.\<close>

interpretation release: framed_op "release_leg X (Suc n)" "\<lambda>l. \<not> bare l" "\<lambda>w _. open_conn w" for X n
proof
  fix w a l assume h: "heap_inv w" "open_conn w" "legs w a = Some l" "\<not> bare l"
  note ok = heap_invD(2) [OF h(1,3)]
  show "wp (release_leg X (Suc n) a) (\<lambda>_ w'. heap_inv w' \<and> leg_frame a w w') w"
  proof (cases "is_mncc l")
    case True
    then show ?thesis
      using mncc_release.framed [OF h(1-3)] leg_ok_mncc(4) [OF ok] h(3) by (simp add: wp)
  next
    case False
    then show ?thesis
      using sip_release.framed [OF h(1) _ h(3)] leg_ok_sip(4) [OF ok] h(3,4) by (simp add: wp sip_kind_def)
  qed
qed

definition has_other :: "world \<Rightarrow> addr \<Rightarrow> bool" where
  "has_other w a = (\<exists>l x. legs w a = Some l \<and> calls w (leg_call l) = Some x \<and> other_leg a x \<noteq> None)"

interpretation mncc_connect: framed_op "mncc_call_leg_connect X rel" is_mncc
  "\<lambda>w a. open_conn w \<and> has_other w a" for X rel
proof
  fix w a l assume h: "heap_inv w" "open_conn w \<and> has_other w a" "legs w a = Some l" "is_mncc l"
  obtain m where m: "leg_object l = Mncc_object m" "leg_type l = CALL_TYPE_MNCC"
    using heap_inv_mncc [OF h(1,3,4)] by blast
  obtain x b where x: "calls w (leg_call l) = Some x" "other_leg a x = Some b" using h by (auto simp: has_other_def)
  obtain k where k: "legs w b = Some k" using other_leg_cases [OF heap_invD(1) [OF h(1)] h(3) x] by blast
  let ?v = "\<lambda>o'. w\<lparr>out := o'\<rparr>"
  have "wp (start_cmd_timer a MNCC_SETUP_COMPL_IND) (\<lambda>_. wp (mbind (get_mncc a) (\<lambda>m.
         mthen (mncc_send X rel MNCC_SETUP_RSP (callref m)) (mret ()))) (\<lambda>_ w'. heap_inv w' \<and> leg_frame a w w')) (?v o')" for o'
    by (rule wp_start_cmd_timer [of "?v o'" a l m])
       (use h m in \<open>auto simp: wp wp_mncc_send_plain open_conn_def leg_frame_def\<close>)
  then show "wp (mncc_call_leg_connect X rel a) (\<lambda>_ w'. heap_inv w' \<and> leg_frame a w w') w"
    using h m x k by (simp add: mncc_call_leg_connect_def wp wp_send_rtp_connect_open)
qed

interpretation mncc_ring: framed_op "mncc_call_leg_ring X rel" is_mncc "\<lambda>w _. open_conn w" for X rel
proof
  fix w a l assume h: "heap_inv w" "open_conn w" "legs w a = Some l" "is_mncc l"
  obtain m x where m: "leg_object l = Mncc_object m" "leg_type l = CALL_TYPE_MNCC" "calls w (leg_call l) = Some x"
    using heap_inv_mncc [OF h(1,3,4)] by blast
  have "\<exists>k. legs w b = Some k" if "other_leg a x = Some b" for b
    using other_leg_cases [OF heap_invD(1) [OF h(1)] h(3) m(3) that] by blast
  then show "wp (mncc_call_leg_ring X rel a) (\<lambda>_ w'. heap_inv w' \<and> leg_frame a w w') w"
    using h m by (auto simp: mncc_call_leg_ring_def mncc_fill_header_def wp wp_mncc_write_open
        wp_send_rtp_connect_open split: option.splits)
qed

section \<open>Safe states\<close>

text \<open>The states between two events, while the writes to an open socket succeed.\<close>

definition safe :: "world \<Rightarrow> bool" where
  "safe w = (inv w \<and> writes w = [])"

definition connected :: "world \<Rightarrow> bool" where
  "connected w = (inv w \<and> open_conn w)"

lemma connected_safe: "connected w \<longleftrightarrow> safe w \<and> 0 \<le> conn_fd (conn w)"
  by (auto simp: connected_def safe_def open_conn_def)

lemma connectedD:
  assumes "connected w"
  shows "inv w" "open_conn w" "heap_inv w"
  using assms by (auto simp: connected_def inv_iff)

lemma connected_frame: "leg_frame a w w' \<Longrightarrow> heap_inv w' \<Longrightarrow> connected w \<Longrightarrow> connected w'"
  using leg_frame_conn_ok [of a w w'] leg_frameD(3,4) [of a w w']
  by (simp add: connected_def inv_iff open_conn_def)

lemma connected_simps [simp]:
  "connected (w\<lparr>out := os\<rparr>) = connected w" "connected (w\<lparr>allocs := bs\<rparr>) = connected w"
  by (simp_all add: connected_def inv_iff)

text \<open>A framed operation that needs no more than an open connection leads from a connected
  state to a connected state.\<close>

context framed_op
begin

lemma keeps_connected:
  assumes "connected w" and "cond w a" and "legs w a = Some l" and "good l"
  shows "wp (op a) (\<lambda>_ w'. connected w' \<and> leg_frame a w w') w"
  by (rule wp_mono [OF framed [OF connectedD(3) [OF assms(1)] assms(2-4)]])
     (use connected_frame assms(1) in blast)

end

text \<open>A leg that has a partner is fully set up.\<close>

lemma pair_not_bare:
  assumes inv: "heap_inv w" and l: "legs w a = Some l" and x: "calls w (leg_call l) = Some x"
    and b: "other_leg a x = Some b" and k: "legs w b = Some k"
  shows "\<not> bare l" "\<not> bare k" "is_mncc l \<noteq> is_mncc k" "leg_mo l \<noteq> leg_mo k"
proof -
  note wf = heap_invD(1) [OF inv] and cok = heap_invD(3) [OF inv x]
  have "initial x = Some a \<or> remote x = Some a" using wf_heap_leg_call [OF wf l] x by force
  then have ab: "initial x = Some a \<and> remote x = Some b \<or> initial x = Some b \<and> remote x = Some a"
    using b wf_heap_distinct_legs [OF wf x] by (auto simp: other_leg_def split: if_splits)
  show "is_mncc l \<noteq> is_mncc k" using ab l k cok unfolding call_ok_def by blast
  have rm: "\<not> bare j" if "legs w c = Some j" "\<not> leg_mo j" for c j
    using leg_ok_sip(11) [OF heap_invD(2) [OF inv that(1)]] leg_ok_mncc(10) [OF heap_invD(2) [OF inv that(1)]] that
    by blast
  show "\<not> bare l" "\<not> bare k" using ab l k cok rm unfolding call_ok_def by (blast, blast)
  show "leg_mo l \<noteq> leg_mo k" using ab l k cok unfolding call_ok_def by blast
qed

lemma release_connected:
  assumes "connected w" and "legs w a = Some l" and "\<not> bare l"
  shows "wp (release X a) (\<lambda>_ w'. connected w' \<and> leg_frame a w w') w"
  using release.keeps_connected [OF assms(1) connectedD(2) [OF assms(1)] assms(2,3), of X 1]
  by (simp only: numeral_2_eq_2 One_nat_def)

lemma mncc_update_rtp_connected:
  assumes c: "connected w" and l: "legs w a = Some l" "\<not> bare l"
  shows "wp (mncc_update_rtp X a) (\<lambda>_. connected) w"
proof -
  note inv = connectedD(3) [OF c] and op = connectedD(2) [OF c]
  note ok = heap_invD(2) [OF inv l(1)]
  obtain x where x: "calls w (leg_call l) = Some x" using wf_heap_leg_call [OF heap_invD(1) [OF inv] l(1)] .
  have rel: "wp (release X a) (\<lambda>_. connected) w"
    by (rule wp_mono [OF release_connected [OF c l]]) simp
  have other: "\<exists>k. legs w b = Some k \<and> is_mncc l \<noteq> is_mncc k" if b: "other_leg a x = Some b" for b
    using other_leg_cases [OF heap_invD(1) [OF inv] l(1) x b] pair_not_bare(3) [OF inv l(1) x b] by blast
  show ?thesis
  proof (cases "is_mncc l")
    case True
    then obtain m where "leg_object l = Mncc_object m" "leg_type l = CALL_TYPE_MNCC"
      using heap_inv_mncc [OF inv l(1)] by blast
    then show ?thesis
      using c l x rel other
      by (auto simp: mncc_update_rtp_def wp wp_send_rtp_connect_open [OF op] split: option.splits)
  next
    case False
    have "\<exists>k m. legs w b = Some k \<and> leg_object k = Mncc_object m" if b: "other_leg a x = Some b" for b
      using other [OF b] False heap_inv_mncc [OF inv] by blast
    then show ?thesis
      using c l x rel leg_ok_sip(1) [OF ok False]
      by (auto simp: mncc_update_rtp_def wp wp_send_rtp_connect_open [OF op] split: option.splits)
  qed
qed

text \<open>When the command timer of a leg fires, the other leg is released and the leg is dropped.\<close>

lemma cmd_timeout_connected:
  assumes c: "connected w" and l: "legs w a = Some l" "is_mncc l"
  shows "wp (cmd_timeout X a) (\<lambda>_ w'. connected w' \<and> legs w' a = None) w"
proof -
  note inv = connectedD(3) [OF c]
  obtain m x where m: "leg_object l = Mncc_object m" and x: "calls w (leg_call l) = Some x"
    using heap_inv_mncc [OF inv l] by blast
  have drop: "wp (mncc_leg_release a) (\<lambda>_ w'. connected w' \<and> legs w' a = None) v"
    if v: "connected v" "legs v a = Some l" for v
  proof -
    obtain y where "calls v (leg_call l) = Some y" using heap_inv_mncc [OF connectedD(3) [OF v(1)] v(2) l(2)] by blast
    then have "wp (mncc_leg_release a) (\<lambda>_ w'. legs w' a = None) v"
      using v by (simp add: wp_mncc_leg_release [OF connectedD(3) [OF v(1)]] leg_gone_def)
    then show ?thesis using leg_release.keeps_connected [OF v(1) _ v(2) l(2)] by (auto simp: wp_iff_run)
  qed
  have "wp (release_ptr (release X) (other_leg a x))
      (\<lambda>_. wp (mncc_leg_release a) (\<lambda>_ w'. connected w' \<and> legs w' a = None)) w"
  proof (cases "other_leg a x")
    case None
    then show ?thesis using drop [OF c l(1)] by (simp add: release_ptr_def wp)
  next
    case (Some b)
    obtain k where k: "legs w b = Some k" "b \<noteq> a" using other_leg_cases [OF heap_invD(1) [OF inv] l(1) x Some] by blast
    have "wp (release X b) (\<lambda>_ w'. connected w' \<and> leg_frame b w w') w"
      by (rule release_connected [OF c k(1) pair_not_bare(2) [OF inv l(1) x Some k(1)]])
    then show ?thesis unfolding release_ptr_def Some option.case
      by (rule wp_mono) (use k l(1) in \<open>auto intro!: drop dest: leg_frameD(1)\<close>)
  qed
  then show ?thesis using l m x by (simp add: cmd_timeout_def wp)
qed

section \<open>A connected example\<close>

text \<open>A call from the mobile (leg 2) that was forwarded to SIP (leg 3).\<close>

definition example_mncc_leg :: "mncc_cc_state \<Rightarrow> call_leg" where
  "example_mncc_leg s = (zero_leg 1 (Mncc_object (zero_mncc_leg\<lparr>mncc_state := s, callref := 77\<rparr>)))
     \<lparr>leg_type := CALL_TYPE_MNCC, cause := 31, ring_call := Some FP_mncc_call_leg_ring,
      connect_call := Some FP_mncc_call_leg_connect, release_call := Some FP_mncc_call_leg_release,
      update_rtp := Some FP_update_rtp\<rparr>"

definition example_remote_leg :: call_leg where
  "example_remote_leg = (zero_leg 1 (Sip_object (zero_sip\<lparr>nua_handle := Some 9, sip_direction := SIP_DIR_MT\<rparr>)))
     \<lparr>leg_type := CALL_TYPE_SIP, release_call := Some FP_sip_release_call, dtmf := Some FP_sip_dtmf_call,
      hold_call := Some FP_sip_hold_call, retrieve_call := Some FP_sip_retrieve_call\<rparr>"

definition ready_conn :: mncc_connection where
  "ready_conn = \<lparr>conn_state = MNCC_READY, conn_fd = 5, reconnect_pending = False,
     on_disconnect = Some FP_app_mncc_disconnected\<rparr>"

definition example_bridge :: "mncc_cc_state \<Rightarrow> int list \<Rightarrow> world" where
  "example_bridge s ws = (init_world example_config)\<lparr>legs := [2 \<mapsto> example_mncc_leg s, 3 \<mapsto> example_remote_leg],
     calls := [1 \<mapsto> (created_call 5001 2)\<lparr>remote := Some 3\<rparr>], g_call_list := [1], next_addr := 10,
     timers := [2], conn := ready_conn, writes := ws\<rparr>"

lemma example_leg_idents:
  "ident (example_mncc_leg s) = mncc_identity 1 True" "ident example_remote_leg = sip_identity 1 False 9"
  by (simp_all add: ident_def mncc_identity_def sip_identity_def example_mncc_leg_def example_remote_leg_def
      zero_leg_def zero_mncc_leg_def zero_sip_def is_mncc_def leg_mo_def leg_handle_def)

lemma example_leg_simps [simp]:
  "leg_call (example_mncc_leg s) = 1" "leg_mo (example_mncc_leg s)" "leg_ok (example_mncc_leg s)"
  "is_mncc (example_mncc_leg s)" "\<not> bare (example_mncc_leg s)"
  "leg_call example_remote_leg = 1" "\<not> leg_mo example_remote_leg" "leg_ok example_remote_leg"
  "\<not> is_mncc example_remote_leg"
  using example_leg_idents(1) [of s] example_leg_idents(2)
  by (auto simp: leg_ok_def bare_def) (auto simp: ident_def mncc_identity_def sip_identity_def bare_identity_def)

lemma example_bridge_simps [simp]:
  "legs (example_bridge s ws) 2 = Some (example_mncc_leg s)" "legs (example_bridge s ws) 3 = Some example_remote_leg"
  "calls (example_bridge s ws) 1 = Some ((created_call 5001 2)\<lparr>remote := Some 3\<rparr>)"
  "conn (example_bridge s ws) = ready_conn" "writes (example_bridge s ws) = ws" "out (example_bridge s ws) = []"
  "timers (example_bridge s ws) = [2]" "g_call_list (example_bridge s ws) = [1]"
  by (simp_all add: example_bridge_def init_world_def)

lemma example_bridge_inv: "inv (example_bridge s ws)"
  by (auto simp: inv_def wf_heap_def legs_ok_def call_wf_def call_ok_def call_legs_iff conn_ok_def
      example_bridge_def init_world_def created_call_def zero_call_def ready_conn_def split: if_splits)

lemma example_bridge_connected: "connected (example_bridge s [])"
  using example_bridge_inv [of s "[]"] by (simp add: connected_def open_conn_def ready_conn_def)

lemma close_connection_drains:
  assumes "inv w" and "0 \<le> conn_fd (conn w)"
  obtains w' where "close_connection (release X) w = Inr ((), w')" "inv w'" "timers w' = []"
    "conn w' = (conn w)\<lparr>conn_fd := -1, reconnect_pending := True, conn_state := MNCC_DISCONNECTED\<rparr>"
    "calls_drained (set (g_call_list w)) w (w'\<lparr>conn := conn w\<rparr>)"
proof -
  have "on_disconnect (conn w) = Some FP_app_mncc_disconnected"
    using invD(3) [OF assms(1)] by (simp add: conn_ok_def)
  from close_connection_ok [OF _ this assms(2), of X 1] assms(1) that show ?thesis
    by (auto simp: inv_iff wp_iff_run numeral_2_eq_2)
qed

section \<open>Properties\<close>

text \<open>
  C9. Closing the MNCC connection never faults. Afterwards no MNCC leg and no command timer is
  left, the connection is disconnected with a reconnect scheduled, calls without an MNCC leg
  keep their legs, and the invariant of the connector holds.
\<close>

theorem close_connection_correct:
  assumes "inv w" and "0 \<le> conn_fd (conn w)"
  shows "\<exists>w'. close_connection (release X) w = Inr ((), w') \<and> inv w' \<and> timers w' = []
     \<and> (\<forall>a l'. legs w' a = Some l' \<longrightarrow> \<not> is_mncc l' \<and> (\<exists>l. legs w a = Some l \<and> ident l' = ident l))
     \<and> (\<forall>a l. legs w a = Some l \<and> \<not> call_has_mncc w (leg_call l) \<longrightarrow> legs w' a = Some l)
     \<and> conn w' = (conn w)\<lparr>conn_fd := -1, reconnect_pending := True, conn_state := MNCC_DISCONNECTED\<rparr>"
proof -
  obtain w' where w': "close_connection (release X) w = Inr ((), w')" "inv w'" "timers w' = []"
      "conn w' = (conn w)\<lparr>conn_fd := -1, reconnect_pending := True, conn_state := MNCC_DISCONNECTED\<rparr>"
      "calls_drained (set (g_call_list w)) w (w'\<lparr>conn := conn w\<rparr>)"
    by (rule close_connection_drains [OF assms])
  have "\<not> is_mncc l" if "legs w' a = Some l" for a l
    using invD(3) [OF w'(2)] w'(4) that by (auto simp: conn_ok_def)
  with w' show ?thesis using calls_drainedD(1,2) [OF w'(5)] by simp
qed

theorem close_connection_witness:
  "\<exists>w'. close_connection (release example_sdp_ext) (example_bridge MNCC_CC_CONNECTED []) = Inr ((), w')
     \<and> inv w' \<and> timers w' = [] \<and> legs w' 2 = None"
proof -
  have "0 \<le> conn_fd (conn (example_bridge MNCC_CC_CONNECTED []))" by (simp add: ready_conn_def)
  from close_connection_correct [OF example_bridge_inv this, of example_sdp_ext]
  obtain w' where w': "close_connection (release example_sdp_ext) (example_bridge MNCC_CC_CONNECTED []) = Inr ((), w')"
    "inv w'" "timers w' = []" and gone: "\<And>a l'. legs w' a = Some l' \<Longrightarrow> \<not> is_mncc l'
       \<and> (\<exists>l. legs (example_bridge MNCC_CC_CONNECTED []) a = Some l \<and> ident l' = ident l)" by blast
  have "legs w' 2 = None"
  proof (rule ccontr)
    assume "legs w' 2 \<noteq> None"
    then obtain l' where l': "legs w' 2 = Some l'" by blast
    then have "ident l' = ident (example_mncc_leg MNCC_CC_CONNECTED)" "\<not> is_mncc l'"
      using gone [OF l'] by simp_all
    then show False using ident_eqD(3) by force
  qed
  with w' show ?thesis by blast
qed

end
