(* ===== verification/App_Route.thy ===== *)
theory App_Route
  imports Mncc_Safety
begin

text \<open>
  Hooking the two sides together: \<open>mncc_create_remote_leg\<close> of \<open>src/src/mncc.c\<close>, which starts a
  call towards the mobile network, and \<open>route_to_sip\<close>, \<open>route_to_mncc\<close> and \<open>app_route_call\<close>
  of \<open>src/src/app.c\<close>, which give a new call its second leg or release the first.
\<close>

section \<open>Operations\<close>

text \<open>The room in \<open>gsm_mncc_number.number\<close>; the code prints it with \<open>%.32s\<close>.\<close>

definition NUMBER_SIZE :: nat where "NUMBER_SIZE = 33"

text \<open>The calling number: a leading plus sign becomes the type of number.\<close>

definition calling_party :: "string \<Rightarrow> gsm_mncc_number" where
  "calling_party s = (case s of
       CHR ''+'' # s' \<Rightarrow> \<lparr>num_type = GSM48_TON_INTERNATIONAL, num_plan = GSM48_NPI_ISDN_E164,
                          num_number = strlcpy NUMBER_SIZE s'\<rparr>
     | _ \<Rightarrow> \<lparr>num_type = GSM48_TON_UNKNOWN, num_plan = GSM48_NPI_ISDN_E164,
             num_number = strlcpy NUMBER_SIZE s\<rparr>)"

text \<open>\<open>snprintf\<close> into 15 of the 16 characters of \<open>imsi\<close>, or the called number.\<close>

definition called_party :: "bool \<Rightarrow> string \<Rightarrow> gsm_mncc \<Rightarrow> gsm_mncc" where
  "called_party use_imsi d m = (if use_imsi then m\<lparr>mncc_imsi := strlcpy 15 d\<rparr>
     else m\<lparr>mncc_fields := mncc_fields m OR MNCC_F_CALLED,
            mncc_called := \<lparr>num_type = GSM48_TON_UNKNOWN, num_plan = GSM48_NPI_ISDN_E164,
                            num_number = strlcpy NUMBER_SIZE d\<rparr>\<rparr>)"

text \<open>The Global Call Reference, where a message buffer can be allocated and it can be encoded.\<close>

definition setup_gcr :: "ext \<Rightarrow> call \<Rightarrow> gsm_mncc \<Rightarrow> gsm_mncc io" where
  "setup_gcr X x m = (if gcr_present x then mbind alloc_ok (\<lambda>msg.
       let g = x_enc_gcr X (call_gcr x) in
       mret (if msg \<and> g \<noteq> [] then m\<lparr>mncc_gcr := g @ drop (length g) (mncc_gcr m),
                                       mncc_fields := mncc_fields m OR MNCC_F_GCR\<rparr> else m))
     else mret m)"

text \<open>The SDP of the initial leg, if it is new; its change flag is cleared.\<close>

definition setup_sdp :: "addr option \<Rightarrow> gsm_mncc \<Rightarrow> gsm_mncc io" where
  "setup_sdp p m = (case p of None \<Rightarrow> mret m | Some i \<Rightarrow> mbind (get_leg i) (\<lambda>l.
     if rx_sdp_changed l
     then mthen (upd_leg i (rx_sdp_changed_update (\<lambda>_. False)))
            (mret (m\<lparr>mncc_sdp := strlcpy SDP_SIZE (rx_sdp l)\<rparr>))
     else mret m))"

definition mncc_create_remote_leg :: "ext \<Rightarrow> addr \<Rightarrow> int io" where
  "mncc_create_remote_leg X c = mbind (talloc_leg c (Mncc_object zero_mncc_leg)) (\<lambda>p. case p of
       None \<Rightarrow> mret (- 1)
     | Some a \<Rightarrow>
         mthen (upd_leg a (\<lambda>l. l\<lparr>leg_type := CALL_TYPE_MNCC, connect_call := Some FP_mncc_call_leg_connect,
             ring_call := Some FP_mncc_call_leg_ring, release_call := Some FP_mncc_call_leg_release,
             leg_call := c, update_rtp := Some FP_update_rtp\<rparr>))
         (mbind (get_call c) (\<lambda>x.
         mthen (upd_mncc a (\<lambda>m. m\<lparr>callref := call_id x, mncc_state := MNCC_CC_INITIAL,
             mncc_direction := MNCC_DIR_MT\<rparr>))
         (mbind (get_str (source x)) (\<lambda>src. mbind (get_str (dest x)) (\<lambda>dst.
         mbind (mget g_app) (\<lambda>app.
         mbind (setup_gcr X x (called_party (use_imsi_as_id app \<noteq> 0) dst
           (zero_mncc\<lparr>mncc_msg_type := MNCC_SETUP_REQ, mncc_callref := call_id x,
              mncc_fields := MNCC_F_CALLING, mncc_calling := calling_party src\<rparr>))) (\<lambda>m.
         mbind (setup_sdp (initial x) m) (\<lambda>m.
         mbind (mncc_write X (release X) m) (\<lambda>rc.
         if rc \<noteq> x_sizeof_mncc X then mthen (talloc_free_leg a) (mret (- 1))
         else mthen (upd_call c (remote_update (\<lambda>_. Some a))) (mret 0)))))))))))"

text \<open>\<open>call->initial->release_call(call->initial)\<close>\<close>

definition release_initial :: "ext \<Rightarrow> addr \<Rightarrow> unit io" where
  "release_initial X c = mbind (get_call c) (\<lambda>x. mbind (deref (initial x)) (\<lambda>i. release X i))"

definition route_to_sip :: "ext \<Rightarrow> addr \<Rightarrow> unit io" where
  "route_to_sip X c = mbind (sip_create_remote_leg X c) (\<lambda>rc. mwhen (rc \<noteq> 0) (release_initial X c))"

definition route_to_mncc :: "ext \<Rightarrow> addr \<Rightarrow> unit io" where
  "route_to_mncc X c = mbind (mncc_create_remote_leg X c) (\<lambda>rc. mwhen (rc \<noteq> 0) (release_initial X c))"

definition app_route_call :: "ext \<Rightarrow> addr \<Rightarrow> owned_str option \<Rightarrow> owned_str option \<Rightarrow> unit io" where
  "app_route_call X c src dst =
     (if src = None \<or> dst = None then release_initial X c
      else mthen (upd_call c (\<lambda>x. x\<lparr>source := src, dest := dst\<rparr>))
        (mbind (get_call c) (\<lambda>x. mbind (deref (initial x)) (\<lambda>i. mbind (get_leg i) (\<lambda>l.
          if leg_type l = CALL_TYPE_MNCC then route_to_sip X c else route_to_mncc X c)))))"

definition app_setup :: "unit io" where
  "app_setup = mmod (\<lambda>w. w\<lparr>conn := (conn w)\<lparr>on_disconnect := Some FP_app_mncc_disconnected\<rparr>\<rparr>)"

section \<open>Starting a call towards the mobile network\<close>

text \<open>What the SETUP request says: the call's id as reference, the caller, the called number or
  the IMSI (at most 14 digits of it), and the SDP of the initial leg if it is new.\<close>

definition mt_setup_msg :: "app_config \<Rightarrow> call \<Rightarrow> call_leg \<Rightarrow> string \<Rightarrow> string \<Rightarrow> gsm_mncc \<Rightarrow> bool" where
  "mt_setup_msg app x li src dst m = (mncc_msg_type m = MNCC_SETUP_REQ \<and> mncc_callref m = call_id x
     \<and> mncc_calling m = calling_party src
     \<and> (if use_imsi_as_id app \<noteq> 0 then mncc_imsi m = take 14 dst \<and> mncc_called m = zero_number
        else mncc_imsi m = [] \<and> num_number (mncc_called m) = take 32 dst)
     \<and> mncc_sdp m = (if rx_sdp_changed li then strlcpy SDP_SIZE (rx_sdp li) else []))"

text \<open>The MNCC leg once the SETUP request is out.\<close>

definition setup_leg :: "addr \<Rightarrow> u32 \<Rightarrow> call_leg" where
  "setup_leg c r = (zero_leg c (Mncc_object (zero_mncc_leg\<lparr>callref := r, mncc_direction := MNCC_DIR_MT\<rparr>)))
     \<lparr>leg_type := CALL_TYPE_MNCC, ring_call := Some FP_mncc_call_leg_ring,
      connect_call := Some FP_mncc_call_leg_connect, release_call := Some FP_mncc_call_leg_release,
      update_rtp := Some FP_update_rtp\<rparr>"

lemma ident_setup_leg: "ident (setup_leg c r) = mncc_identity c False"
  by (simp add: setup_leg_def ident_def mncc_identity_def zero_leg_def zero_mncc_leg_def is_mncc_def
      leg_mo_def leg_handle_def)

lemma setup_leg_ok [simp]:
  "leg_ok (setup_leg c r)" "is_mncc (setup_leg c r)" "\<not> leg_mo (setup_leg c r)" "leg_call (setup_leg c r) = c"
  using ident_setup_leg [of c r] by (auto simp: leg_ok_def ident_def mncc_identity_def)

lemma wp_setup_sdp:
  "wp (setup_sdp (Some i) m) Q w = (\<exists>l. legs w i = Some l \<and>
     Q (if rx_sdp_changed l then m\<lparr>mncc_sdp := strlcpy SDP_SIZE (rx_sdp l)\<rparr> else m)
       (w\<lparr>legs := (legs w)(i \<mapsto> l\<lparr>rx_sdp_changed := False\<rparr>)\<rparr>))"
proof -
  have "w\<lparr>legs := (legs w)(i \<mapsto> l\<lparr>rx_sdp_changed := False\<rparr>)\<rparr> = w" if "legs w i = Some l" "\<not> rx_sdp_changed l" for l
  proof -
    have "l\<lparr>rx_sdp_changed := False\<rparr> = l" using that(2) by (cases l) simp
    then show ?thesis using that(1) by (simp add: fun_upd_idem)
  qed
  then show ?thesis by (auto simp: setup_sdp_def wp)
qed

lemma setup_gcr_result:
  assumes "\<And>m' bs. mncc_msg_type m' = mncc_msg_type m \<Longrightarrow> mncc_callref m' = mncc_callref m \<Longrightarrow>
      mncc_calling m' = mncc_calling m \<Longrightarrow> mncc_called m' = mncc_called m \<Longrightarrow> mncc_imsi m' = mncc_imsi m \<Longrightarrow>
      mncc_sdp m' = mncc_sdp m \<Longrightarrow> Q m' (w\<lparr>allocs := bs\<rparr>)"
  shows "wp (setup_gcr X x m) Q w"
proof -
  note * = assms [where bs = "allocs w", simplified]
  show ?thesis using assms * by (auto simp: setup_gcr_def wp Let_def split: list.splits)
qed

lemma mncc_create_remote_result:
  assumes c: "calls w c = Some x" and i: "initial x = Some i" and li: "legs w i = Some li"
    and src: "source x = Some s1" "legs w (str_owner s1) \<noteq> None"
    and dst: "dest x = Some s2" "legs w (str_owner s2) \<noteq> None"
    and fr: "\<And>b. next_addr w \<le> b \<Longrightarrow> legs w b = None" and ws: "writes w = []"
    and fail: "\<And>f na bs. next_addr w \<le> na \<Longrightarrow> allocs w \<noteq> [] \<or> conn_fd (conn w) < 0 \<Longrightarrow> Q (- 1) (w\<lparr>legs := (legs w)(i \<mapsto> li\<lparr>rx_sdp_changed := f\<rparr>),
        next_addr := na, allocs := bs\<rparr>)"
    and ok: "\<And>m bs. 0 \<le> conn_fd (conn w) \<Longrightarrow> mt_setup_msg (g_app w) x li (str_val s1) (str_val s2) m \<Longrightarrow>
        Q 0 (w\<lparr>legs := (legs w)(next_addr w \<mapsto> setup_leg c (call_id x), i \<mapsto> li\<lparr>rx_sdp_changed := False\<rparr>),
          calls := (calls w)(c \<mapsto> x\<lparr>remote := Some (next_addr w)\<rparr>),
          next_addr := Suc (next_addr w), allocs := bs, out := out w @ [Tx_mncc m]\<rparr>)"
  shows "wp (mncc_create_remote_leg X c) Q w"
proof -
  let ?a = "next_addr w"
  have ne: "i \<noteq> ?a" "str_owner s1 \<noteq> ?a" "str_owner s2 \<noteq> ?a" using fr [of ?a] li src dst by auto
  let ?m = "called_party (use_imsi_as_id (g_app w) \<noteq> 0) (str_val s2)
           (zero_mncc\<lparr>mncc_msg_type := MNCC_SETUP_REQ, mncc_callref := call_id x,
              mncc_fields := MNCC_F_CALLING, mncc_calling := calling_party (str_val s1)\<rparr>)"
  let ?v = "\<lambda>bs. w\<lparr>legs := (legs w)(?a \<mapsto> setup_leg c (call_id x)), next_addr := Suc ?a, allocs := bs\<rparr>"
  let ?K = "\<lambda>m. mbind (setup_sdp (initial x) m) (\<lambda>m. mbind (mncc_write X (release X) m) (\<lambda>rc.
         if rc \<noteq> x_sizeof_mncc X then mthen (talloc_free_leg ?a) (mret (- 1))
         else mthen (upd_call c (remote_update (\<lambda>_. Some ?a))) (mret 0)))"
  have K: "wp (?K m) Q (?v bs)" if m: "mt_setup_msg (g_app w) x (li\<lparr>rx_sdp_changed := False\<rparr>) (str_val s1) (str_val s2) m" for m bs
  proof -
    let ?m = "if rx_sdp_changed li then m\<lparr>mncc_sdp := strlcpy SDP_SIZE (rx_sdp li)\<rparr> else m"
    let ?u = "w\<lparr>legs := (legs w)(?a \<mapsto> setup_leg c (call_id x), i \<mapsto> li\<lparr>rx_sdp_changed := False\<rparr>), next_addr := Suc ?a, allocs := bs\<rparr>"
    have m': "mt_setup_msg (g_app w) x li (str_val s1) (str_val s2) ?m" using m by (simp add: mt_setup_msg_def)
    have id: "((legs w)(?a \<mapsto> setup_leg c (call_id x), i \<mapsto> li\<lparr>rx_sdp_changed := False\<rparr>))(?a := None) = (legs w)(i \<mapsto> li\<lparr>rx_sdp_changed := False\<rparr>)"
      using ne fr [of ?a] by (auto simp: fun_eq_iff)
    have "wp (mbind (mncc_write X (release X) ?m) (\<lambda>rc.
         if rc \<noteq> x_sizeof_mncc X then mthen (talloc_free_leg ?a) (mret (- 1))
         else mthen (upd_call c (remote_update (\<lambda>_. Some ?a))) (mret 0))) Q ?u"
    proof (cases "0 \<le> conn_fd (conn w)")
      case True
      then have "open_conn ?u" using ws by (simp add: open_conn_def)
      then show ?thesis using ok [OF True m', of bs] c by (simp add: wp wp_mncc_write_open)
    next
      case False
      then have sw: "wp (sock_write n y) P ?u = P (- 1) ?u" for n y P by (simp add: wp_def sock_write_def)
      have cl: "wp (close_connection rel) P ?u = P () ?u" for rel P using False by (simp add: close_connection_def wp)
      show ?thesis using fail [where na = "Suc ?a" and f = False and bs = bs] False ne id
        by (simp add: wp mncc_write_def sw cl)
    qed
    then show ?thesis using li ne i by (simp add: wp_setup_sdp wp)
  qed
  have "wp (setup_gcr X x ?m) (\<lambda>m. wp (?K m) Q) (?v bs)" for bs
    by (rule setup_gcr_result) (auto simp: mt_setup_msg_def called_party_def zero_mncc_def strlcpy_def NUMBER_SIZE_def intro!: K)
  then have go: "wp (mbind (setup_gcr X x ?m) ?K) Q (?v bs)" for bs by (simp add: wp)
  have none: "Q (- 1) (w\<lparr>allocs := bs\<rparr>)" if "allocs w \<noteq> []" for bs
  proof -
    have "li\<lparr>rx_sdp_changed := rx_sdp_changed li\<rparr> = li" by (cases li) simp
    then show ?thesis using that fail [where na = "next_addr w" and f = "rx_sdp_changed li" and bs = bs] li by (simp add: fun_upd_idem)
  qed
  note go' = go [unfolded setup_leg_def zero_leg_def zero_mncc_leg_def, simplified]
  show ?thesis
    using c src dst ne none go' go' [of "allocs w"]
    by (auto simp: mncc_create_remote_leg_def talloc_leg_def wp zero_leg_def zero_mncc_leg_def split: list.splits)
qed

section \<open>Routing keeps the state safe\<close>

lemma wf_heap_next_addr: "wf_heap w \<Longrightarrow> next_addr w \<le> na \<Longrightarrow> wf_heap (w\<lparr>next_addr := na\<rparr>)"
  by (auto simp: wf_heap_def call_wf_def intro: less_le_trans)

lemma heap_inv_next_addr: "heap_inv w \<Longrightarrow> next_addr w \<le> na \<Longrightarrow> heap_inv (w\<lparr>next_addr := na\<rparr>)"
  using wf_heap_next_addr [of w na] by (auto simp: heap_inv_def legs_ok_def call_ok_def)

lemma heap_inv_upd_call:
  assumes inv: "heap_inv w" and c: "calls w c = Some x" and x': "initial x' = initial x" "remote x' = remote x"
  shows "heap_inv (w\<lparr>calls := (calls w)(c \<mapsto> x')\<rparr>)"
proof -
  have cl: "call_legs x' = call_legs x" using x' by (simp add: call_legs_def)
  have "call_wf (w\<lparr>calls := C\<rparr>) d y = call_wf w d y" "call_ok (w\<lparr>calls := C\<rparr>) y = call_ok w y" for C d y
    by (simp_all add: call_wf_def call_ok_def)
  moreover have "call_wf w c x' = call_wf w c x" "call_ok w x' = call_ok w x"
    using x' by (simp_all add: call_wf_def call_ok_def cl)
  moreover have "a \<in> call_legs x" if "legs w a = Some l" "leg_call l = c" for a l
    using wf_heapD(4) [OF heap_invD(1) [OF inv] that(1)] that(2) c by simp
  ultimately show ?thesis
    using inv c cl by (auto simp: heap_inv_def wf_heap_def legs_ok_def)
qed

lemma safeD:
  assumes "safe w"
  shows "inv w" "heap_inv w" "wf_heap w" "conn_ok w" "writes w = []"
  using assms by (auto simp: safe_def inv_iff heap_inv_def)

lemma safe_iff: "safe w \<longleftrightarrow> heap_inv w \<and> conn_ok w \<and> writes w = []"
  by (auto simp: safe_def inv_iff)

lemma safe_mncc_connected: "safe w \<Longrightarrow> legs w a = Some l \<Longrightarrow> is_mncc l \<Longrightarrow> connected w"
  using safeD(4) [of w] by (fastforce simp: connected_safe conn_ok_def)

lemma safe_frame: "leg_frame a w w' \<Longrightarrow> heap_inv w' \<Longrightarrow> safe w \<Longrightarrow> safe w'"
  using leg_frame_conn_ok [of a w w'] leg_frameD(4) [of a w w'] by (simp add: safe_iff)

lemma safe_simps [simp]:
  "safe (w\<lparr>out := os\<rparr>) = safe w" "safe (w\<lparr>allocs := bs\<rparr>) = safe w" "safe (w\<lparr>g_app := ga\<rparr>) = safe w"
  by (simp_all add: safe_iff)

lemma release_safe:
  assumes s: "safe w" and l: "legs w a = Some l" "\<not> bare l"
  shows "wp (release X a) (\<lambda>_ w'. safe w' \<and> leg_frame a w w') w"
proof (cases "is_mncc l")
  case True
  note c = safe_mncc_connected [OF s l(1) True]
  show ?thesis by (rule wp_mono [OF release_connected [OF c l]]) (simp add: connected_safe)
next
  case False
  note inv = safeD(2) [OF s]
  have "wp (sip_release_call a) (\<lambda>_ w'. safe w' \<and> leg_frame a w w') w"
    by (rule wp_mono [OF sip_release.framed [OF inv _ l(1)]])
       (use False s safe_frame in \<open>auto simp: sip_kind_def\<close>)
  then show ?thesis
    using leg_ok_sip(4) [OF heap_invD(2) [OF inv l(1)] False l(2)] l(1) by (simp add: numeral_2_eq_2 wp)
qed

text \<open>A call that waits for its second leg.\<close>

definition routable :: "world \<Rightarrow> addr \<Rightarrow> addr \<Rightarrow> bool" where
  "routable w c i = (safe w \<and> (\<exists>x l. calls w c = Some x \<and> initial x = Some i \<and> remote x = None
     \<and> legs w i = Some l \<and> \<not> bare l))"

lemma routableE:
  assumes "routable w c i"
  obtains x l where "safe w" "calls w c = Some x" "initial x = Some i" "remote x = None"
    "legs w i = Some l" "\<not> bare l" "leg_call l = c" "leg_ok l"
proof -
  from assms obtain x l where x: "safe w" "calls w c = Some x" "initial x = Some i" "remote x = None"
    "legs w i = Some l" "\<not> bare l" unfolding routable_def by blast
  moreover have "leg_call l = c" using wf_heap_call_leg_ex [OF safeD(3) [OF x(1)] x(2), of i] x(3,5) by simp
  ultimately show ?thesis using that heap_invD(2) [OF safeD(2) [OF x(1)] x(5)] by blast
qed

lemma release_initial_safe:
  assumes "routable w c i"
  shows "wp (release_initial X c) (\<lambda>_ w'. safe w' \<and> conn w' = conn w) w"
proof -
  obtain x l where r: "safe w" "calls w c = Some x" "initial x = Some i" "legs w i = Some l" "\<not> bare l"
    using routableE [OF assms] by blast
  have "wp (release X i) (\<lambda>_ w'. safe w' \<and> conn w' = conn w) w"
    by (rule wp_mono [OF release_safe [OF r(1,4,5)]]) (use leg_frameD(3) in blast)
  then show ?thesis using r by (simp add: release_initial_def wp)
qed

lemma routable_upd:
  assumes "routable w c i" and l: "legs w i = Some l" "ident l' = ident l" and na: "next_addr w \<le> na"
  shows "routable (w\<lparr>legs := (legs w)(i \<mapsto> l'), next_addr := na, allocs := bs\<rparr>) c i"
proof -
  obtain x where x: "safe w" "calls w c = Some x" "initial x = Some i" "remote x = None" "\<not> bare l"
    using assms(1) l(1) by (auto elim: routableE)
  let ?v = "w\<lparr>legs := (legs w)(i \<mapsto> l')\<rparr>"
  have "heap_inv (?v\<lparr>next_addr := na\<rparr>)"
    by (rule heap_inv_next_addr [OF heap_inv_upd_leg [OF l safeD(2) [OF x(1)]]]) (use na in simp)
  moreover have "conn_ok ?v" by (rule conn_ok_upd_leg [OF l safeD(4) [OF x(1)]])
  ultimately show ?thesis using x safeD(5) [OF x(1)] ident_eqD(6) [OF l(2)] by (simp add: routable_def safe_iff)
qed

lemma routable_call:
  assumes "routable w c i" and "calls w c = Some x" and "initial x' = initial x" and "remote x' = remote x"
  shows "routable (w\<lparr>calls := (calls w)(c \<mapsto> x')\<rparr>) c i"
  using assms heap_inv_upd_call [of w c x x'] by (auto simp: routable_def safe_iff)

text \<open>Linking the second leg, on either side.\<close>

lemma safe_add_remote:
  assumes r: "routable w c i" and x: "calls w c = Some x" and li: "legs w i = Some li" "ident li' = ident li"
    and a: "a = next_addr w" "a < na" and k: "leg_ok k" "leg_call k = c" "\<not> leg_mo k" "is_mncc k \<noteq> is_mncc li"
    and cn: "is_mncc k \<longrightarrow> 0 \<le> conn_fd (conn w)"
  shows "safe (w\<lparr>legs := (legs w)(a \<mapsto> k, i \<mapsto> li'), calls := (calls w)(c \<mapsto> x\<lparr>remote := Some a\<rparr>), next_addr := na\<rparr>)"
proof -
  have s: "safe w" "initial x = Some i" "remote x = None" "\<not> bare li"
    using r x li by (auto elim!: routableE)
  let ?v = "w\<lparr>legs := (legs w)(i \<mapsto> li')\<rparr>"
  have ia: "i \<noteq> a" using fresh_not_allocated(1) [OF safeD(3) [OF s(1)], of a] li(1) a(1) by auto
  have "heap_inv (?v\<lparr>legs := (legs ?v)(a \<mapsto> k), calls := (calls ?v)(c \<mapsto> x\<lparr>remote := Some a\<rparr>), next_addr := na\<rparr>)"
    by (rule heap_inv_add_remote [OF heap_inv_upd_leg [OF li safeD(2) [OF s(1)]], where i = i and li = li'])
       (use x s a k ident_eqD(3,6) [OF li(2)] in simp_all)
  moreover have "(legs w)(i \<mapsto> li', a \<mapsto> k) = (legs w)(a \<mapsto> k, i \<mapsto> li')" using ia by (simp add: fun_upd_twist)
  moreover have "conn_ok (w\<lparr>legs := (legs w)(i \<mapsto> li', a \<mapsto> k)\<rparr>)"
    using conn_ok_upd_leg [OF li safeD(4) [OF s(1)]] cn by (auto simp: conn_ok_def)
  ultimately show ?thesis using safeD(5) [OF s(1)] by (simp add: safe_iff)
qed

lemma route_to_sip_safe:
  assumes r: "routable w c i" and x: "calls w c = Some x" "source x = Some s1" "str_owner s1 = i"
      "dest x = Some s2" "str_owner s2 = i" and li: "legs w i = Some li" "is_mncc li"
  shows "wp (route_to_sip X c) (\<lambda>_ w'. safe w' \<and> conn w' = conn w) w"
proof -
  have s: "safe w" "initial x = Some i" using r x by (auto elim!: routableE)
  note fr = fresh_not_allocated(1) [OF safeD(3) [OF s(1)]]
  have "wp (sip_create_remote_leg X c) (\<lambda>rc. wp (mwhen (rc \<noteq> 0) (release_initial X c)) (\<lambda>_ w'. safe w' \<and> conn w' = conn w)) w"
  proof (rule sip_create_remote_result [OF x(1) s(2) li(1) x(2) _ x(4)])
    fix rc :: int and na bs assume "rc < 0" and na: "next_addr w \<le> na"
    have "routable (w\<lparr>next_addr := na, allocs := bs\<rparr>) c i"
      using routable_upd [OF r li(1) refl na, of bs] li(1) by (simp add: fun_upd_idem)
    then show "wp (mwhen (rc \<noteq> 0) (release_initial X c)) (\<lambda>_ w'. safe w' \<and> conn w' = conn w) (w\<lparr>next_addr := na, allocs := bs\<rparr>)"
      using release_initial_safe [of "w\<lparr>next_addr := na, allocs := bs\<rparr>" c i X] \<open>rc < 0\<close> by (simp add: wp)
  next
    fix codec bs g
    have "safe (w\<lparr>legs := (legs w)(next_addr w \<mapsto> invited_leg c (Suc (next_addr w)) codec, i \<mapsto> li),
        calls := (calls w)(c \<mapsto> x\<lparr>remote := Some (next_addr w)\<rparr>), next_addr := Suc (Suc (next_addr w))\<rparr>)"
      by (rule safe_add_remote [OF r x(1) li(1) refl refl]) (use li(2) in simp_all)
    moreover have "i \<noteq> next_addr w" using fr [of i] li(1) by auto
    then have "(legs w)(next_addr w \<mapsto> k, i \<mapsto> li) = (legs w)(next_addr w \<mapsto> k)" for k
      using li(1) by (auto simp: fun_eq_iff)
    ultimately show "wp (mwhen (0 \<noteq> 0) (release_initial X c)) (\<lambda>_ w'. safe w' \<and> conn w' = conn w)
        (w\<lparr>legs := (legs w)(next_addr w \<mapsto> invited_leg c (Suc (next_addr w)) codec),
        calls := (calls w)(c \<mapsto> x\<lparr>remote := Some (next_addr w)\<rparr>),
        next_addr := Suc (Suc (next_addr w)), allocs := bs, out := out w @ [Nua_handle_bind (Some (Suc (next_addr w))) (next_addr w),
          Nua_invite (Some (Suc (next_addr w)))
            (Some (sip_uri (str_val s1) (sip_local_addr (g_app w)) (sip_local_port (g_app w))))
            (Some (sip_uri (str_val s2) (sip_remote_addr (g_app w)) (sip_remote_port (g_app w))))
            g (sdp_towards_sip X li sdp_sendrecv)]\<rparr>)"
      by (simp add: wp)
  qed (use x li fr in simp_all)
  then show ?thesis by (simp add: route_to_sip_def wp)
qed

lemma route_to_mncc_safe:
  assumes r: "routable w c i" and x: "calls w c = Some x" "source x = Some s1" "str_owner s1 = i"
      "dest x = Some s2" "str_owner s2 = i" and li: "legs w i = Some li" "\<not> is_mncc li"
  shows "wp (route_to_mncc X c) (\<lambda>_ w'. safe w' \<and> conn w' = conn w) w"
proof -
  have s: "safe w" "initial x = Some i" using r x by (auto elim!: routableE)
  note fr = fresh_not_allocated(1) [OF safeD(3) [OF s(1)]]
  have "wp (mncc_create_remote_leg X c) (\<lambda>rc. wp (mwhen (rc \<noteq> 0) (release_initial X c)) (\<lambda>_ w'. safe w' \<and> conn w' = conn w)) w"
  proof (rule mncc_create_remote_result [OF x(1) s(2) li(1) x(2) _ x(4) _ fr safeD(5) [OF s(1)]])
    fix f na bs assume na: "next_addr w \<le> na"
    let ?v = "w\<lparr>legs := (legs w)(i \<mapsto> li\<lparr>rx_sdp_changed := f\<rparr>), next_addr := na, allocs := bs\<rparr>"
    have "routable ?v c i" by (rule routable_upd [OF r li(1) _ na]) simp
    then show "wp (mwhen (- 1 \<noteq> (0::int)) (release_initial X c)) (\<lambda>_ w'. safe w' \<and> conn w' = conn w) ?v"
      using release_initial_safe [of ?v c i X] by (simp add: wp)
  next
    fix m bs assume fd: "0 \<le> conn_fd (conn w)"
    have "safe (w\<lparr>legs := (legs w)(next_addr w \<mapsto> setup_leg c (call_id x), i \<mapsto> li\<lparr>rx_sdp_changed := False\<rparr>),
        calls := (calls w)(c \<mapsto> x\<lparr>remote := Some (next_addr w)\<rparr>), next_addr := Suc (next_addr w)\<rparr>)"
      by (rule safe_add_remote [OF r x(1) li(1) _ refl]) (use li(2) fd in simp_all)
    then show "wp (mwhen (0 \<noteq> (0::int)) (release_initial X c)) (\<lambda>_ w'. safe w' \<and> conn w' = conn w)
       (w\<lparr>legs := (legs w)(next_addr w \<mapsto> setup_leg c (call_id x), i \<mapsto> li\<lparr>rx_sdp_changed := False\<rparr>),
          calls := (calls w)(c \<mapsto> x\<lparr>remote := Some (next_addr w)\<rparr>),
          next_addr := Suc (next_addr w), allocs := bs, out := out w @ [Tx_mncc m]\<rparr>)"
      by (simp add: wp)
  qed (use x li in simp_all)
  then show ?thesis by (simp add: route_to_mncc_def wp)
qed

lemma app_route_call_safe:
  assumes r: "routable w c i" and s: "\<And>s. src = Some s \<Longrightarrow> str_owner s = i" "\<And>s. dst = Some s \<Longrightarrow> str_owner s = i"
  shows "wp (app_route_call X c src dst) (\<lambda>_ w'. safe w' \<and> conn w' = conn w) w"
proof (cases "src = None \<or> dst = None")
  case True
  then show ?thesis using release_initial_safe [OF r] by (simp add: app_route_call_def)
next
  case False
  obtain x l where x: "calls w c = Some x" "initial x = Some i" "legs w i = Some l" "leg_ok l"
    using routableE [OF r] by blast
  let ?x = "x\<lparr>source := src, dest := dst\<rparr>" and ?v = "w\<lparr>calls := (calls w)(c \<mapsto> x\<lparr>source := src, dest := dst\<rparr>)\<rparr>"
  have rv: "routable ?v c i" by (rule routable_call [OF r x(1)]) simp_all
  obtain s1 s2 where s12: "src = Some s1" "dst = Some s2" "str_owner s1 = i" "str_owner s2 = i" using False s by auto
  have "wp (route_to_sip X c) (\<lambda>_ w'. safe w' \<and> conn w' = conn w) ?v" if "is_mncc l"
    by (rule wp_mono [OF route_to_sip_safe [OF rv _ _ s12(3) _ s12(4), of ?x l]]) (use x s12 that in simp_all)
  moreover have "wp (route_to_mncc X c) (\<lambda>_ w'. safe w' \<and> conn w' = conn w) ?v" if "\<not> is_mncc l"
    by (rule wp_mono [OF route_to_mncc_safe [OF rv _ _ s12(3) _ s12(4), of ?x l]]) (use x s12 that in simp_all)
  ultimately show ?thesis
    using False s12(1,2) x leg_ok_mncc(1) [OF x(4)] leg_ok_sip(1) [OF x(4)]
    by (cases "is_mncc l") (simp_all add: app_route_call_def wp)
qed

section \<open>Properties\<close>

text \<open>A new call from SIP (leg 2, handle 9), with the MNCC connection up or down.\<close>

definition example_incoming :: "mncc_connection \<Rightarrow> app_config \<Rightarrow> world" where
  "example_incoming cn app = (example_sip_call 0)\<lparr>conn := cn, g_app := app\<rparr>"

lemma ready_conn_fd: "0 \<le> conn_fd ready_conn"
  by (simp add: ready_conn_def)

definition down_conn :: mncc_connection where
  "down_conn = ready_conn\<lparr>conn_fd := - 1, conn_state := MNCC_DISCONNECTED, reconnect_pending := True\<rparr>"

lemma example_incoming_routable:
  assumes "cn = ready_conn \<or> cn = down_conn"
  shows "routable (example_incoming cn app) 1 2"
proof -
  have "\<not> bare (example_sip_leg 0)"
    using ident_example_sip_leg [of 0] by (auto simp: bare_def sip_identity_def bare_identity_def)
  moreover have "heap_inv (example_incoming cn app)"
    using example_sip_call_inv [of 0] by (simp add: example_incoming_def)
  moreover have lg: "legs (example_incoming cn app) = [2 \<mapsto> example_sip_leg 0]" "writes (example_incoming cn app) = []"
      "conn (example_incoming cn app) = cn"
    by (simp_all add: example_incoming_def example_sip_call_def init_world_def)
  then have "conn_ok (example_incoming cn app)"
    using assms by (auto simp: conn_ok_def ready_conn_def down_conn_def example_sip_leg_simps split: if_splits)
  ultimately show ?thesis
    using lg by (simp add: routable_def safe_iff)
      (simp add: example_incoming_def example_sip_call_def init_world_def created_call_def zero_call_def)
qed

lemma example_incoming_simps [simp]:
  "calls (example_incoming cn app) 1 = Some (created_call 5001 2)"
  "calls (example_incoming cn app) (Suc 0) = Some (created_call 5001 2)"
  "legs (example_incoming cn app) 2 = Some (example_sip_leg 0)" "conn (example_incoming cn app) = cn"
  "g_app (example_incoming cn app) = app" "allocs (example_incoming cn app) = []" "out (example_incoming cn app) = []"
  "next_addr (example_incoming cn app) = 10"
  by (simp_all add: example_incoming_def example_sip_call_def init_world_def)

lemma app_route_call_mncc:
  assumes r: "routable w c i" and x: "calls w c = Some x" and l: "legs w i = Some l" "leg_type l \<noteq> CALL_TYPE_MNCC"
    and v: "v = w\<lparr>calls := (calls w)(c \<mapsto> x\<lparr>source := Some s1, dest := Some s2\<rparr>)\<rparr>"
  shows "wp (app_route_call X c (Some s1) (Some s2)) Q w = wp (route_to_mncc X c) Q v"
  using assms by (auto simp: app_route_call_def wp elim!: routableE)

lemma app_route_call_setup:
  assumes "routable w c i" and "calls w c = Some x" and "legs w i = Some l" and "\<not> is_mncc l"
    and "0 \<le> conn_fd (conn w)" and "allocs w = []" and "str_owner s1 = i" and "str_owner s2 = i"
  shows "\<exists>w' m. app_route_call X c (Some s1) (Some s2) w = Inr ((), w') \<and> safe w'
     \<and> out w' = out w @ [Tx_mncc m] \<and> mt_setup_msg (g_app w) x l (str_val s1) (str_val s2) m
     \<and> calls w' c = Some (x\<lparr>source := Some s1, dest := Some s2, remote := Some (next_addr w)\<rparr>)
     \<and> legs w' (next_addr w) = Some (setup_leg c (call_id x))"
proof -
  have s: "safe w" "initial x = Some i" using assms(1,2) by (auto elim!: routableE)
  let ?x = "x\<lparr>source := Some s1, dest := Some s2\<rparr>"
  let ?v = "w\<lparr>calls := (calls w)(c \<mapsto> ?x)\<rparr>"
  note fr = fresh_not_allocated(1) [OF safeD(3) [OF s(1)]]
  have ty: "leg_type l \<noteq> CALL_TYPE_MNCC" using leg_ok_sip(1) [OF heap_invD(2) [OF safeD(2) [OF s(1)] assms(3)] assms(4)] by simp
  have rv: "routable ?v c i" by (rule routable_call [OF assms(1,2)]) simp_all
  let ?Q = "\<lambda>w'. \<exists>m. out w' = out w @ [Tx_mncc m] \<and> mt_setup_msg (g_app w) ?x l (str_val s1) (str_val s2) m
     \<and> calls w' c = Some (?x\<lparr>remote := Some (next_addr w)\<rparr>) \<and> legs w' (next_addr w) = Some (setup_leg c (call_id x))"
  have "wp (mncc_create_remote_leg X c) (\<lambda>rc. wp (mwhen (rc \<noteq> 0) (release_initial X c)) (\<lambda>_. ?Q)) ?v"
    by (rule mncc_create_remote_result [of ?v c ?x i l s1 s2])
       (use s assms fr safeD(5) [OF s(1)] in \<open>auto simp: wp\<close>)
  then have "wp (app_route_call X c (Some s1) (Some s2)) (\<lambda>_. ?Q) w"
    by (simp add: app_route_call_mncc [OF assms(1-3) ty refl] route_to_mncc_def wp)
  moreover have "wp (app_route_call X c (Some s1) (Some s2)) (\<lambda>_. safe) w"
    by (rule wp_mono [OF app_route_call_safe [OF assms(1)]]) (use assms in auto)
  ultimately show ?thesis
    by (auto simp: wp_iff_run mt_setup_msg_def split: if_splits)
qed

text \<open>
  C12. A call from SIP is offered to the mobile network: on a working connection exactly one
  SETUP request is written, it carries the call's id as reference, the caller (a leading plus
  sign becomes the type of number), the called number or, if so configured, the IMSI, and the
  SDP offer if there is a new one; the call gets an MNCC leg with that reference as its second
  leg, and the state stays safe.
\<close>

theorem mt_call_offered:
  assumes "routable w c i" and "calls w c = Some x" and "legs w i = Some l" and "\<not> is_mncc l"
    and "0 \<le> conn_fd (conn w)" and "allocs w = []" and "str_owner s1 = i" and "str_owner s2 = i"
  shows "\<exists>w' m. app_route_call X c (Some s1) (Some s2) w = Inr ((), w') \<and> safe w'
     \<and> out w' = out w @ [Tx_mncc m] \<and> mncc_msg_type m = MNCC_SETUP_REQ \<and> mncc_callref m = call_id x
     \<and> mncc_calling m = calling_party (str_val s1)
     \<and> (if use_imsi_as_id (g_app w) \<noteq> 0 then mncc_imsi m = take 14 (str_val s2)
        else num_number (mncc_called m) = take 32 (str_val s2))
     \<and> mncc_sdp m = (if rx_sdp_changed l then strlcpy SDP_SIZE (rx_sdp l) else [])
     \<and> calls w' c = Some (x\<lparr>source := Some s1, dest := Some s2, remote := Some (next_addr w)\<rparr>)
     \<and> legs w' (next_addr w) = Some (setup_leg c (call_id x))"
  using app_route_call_setup [OF assms, of X] unfolding mt_setup_msg_def by (metis (no_types, lifting))

theorem mt_call_offered_witness:
  "\<exists>w' m. app_route_call example_sdp_ext 1 (Some \<lparr>str_owner = 2, str_val = ''+4930''\<rparr>)
        (Some \<lparr>str_owner = 2, str_val = ''1234''\<rparr>) (example_incoming ready_conn example_config) = Inr ((), w')
     \<and> out w' = [Tx_mncc m] \<and> mncc_callref m = 5001
     \<and> mncc_calling m = \<lparr>num_type = 1, num_plan = 1, num_number = ''4930''\<rparr>"
proof -
  let ?w = "example_incoming ready_conn example_config"
  let ?s = "\<lparr>str_owner = 2, str_val = ''+4930''\<rparr>" and ?d = "\<lparr>str_owner = 2, str_val = ''1234''\<rparr>"
  obtain w' m where "app_route_call example_sdp_ext 1 (Some ?s) (Some ?d) ?w = Inr ((), w')"
    "out w' = [Tx_mncc m]" "mncc_callref m = 5001" "mncc_calling m = calling_party ''+4930''"
    using mt_call_offered [OF example_incoming_routable [of ready_conn example_config],
      of "created_call 5001 2" "example_sip_leg 0" ?s ?d example_sdp_ext]
    by (auto simp: example_sip_leg_simps ready_conn_fd created_call_def)
  then show ?thesis by (auto simp: calling_party_def strlcpy_def NUMBER_SIZE_def)
qed



text \<open>
  C31. While the MNCC connection is down, a new call from SIP is refused at once: the INVITE is
  answered with 480 and the Reason for cause 0, the handle is destroyed, the leg and the call
  are freed, and nothing is written to MNCC.
\<close>

theorem mt_call_refused_when_down:
  assumes "routable w c i" and "calls w c = Some x" and "legs w i = Some l" and "leg_object l = Sip_object s"
    and "sip_state s = SIP_CC_DLG_CNFD" and "sip_direction s = SIP_DIR_MO" and "cause l = 0"
    and "conn_fd (conn w) < 0" and "str_owner s1 = i" and "str_owner s2 = i"
  shows "\<exists>w'. app_route_call X c (Some s1) (Some s2) w = Inr ((), w') \<and> safe w'
     \<and> legs w' i = None \<and> calls w' c = None
     \<and> out w' = out w @ [Nua_respond (nua_handle s) 480 (Some (release_reason 0)) None,
                          Nua_handle_destroy (nua_handle s)]"
proof -
  have s: "safe w" "initial x = Some i" "remote x = None" "leg_call l = c" using assms(1-3) by (auto elim!: routableE)
  have nm: "\<not> is_mncc l" using assms(4) by (simp add: is_mncc_def)
  note ok = heap_invD(2) [OF safeD(2) [OF s(1)] assms(3)]
  have ty: "leg_type l = CALL_TYPE_SIP" "release_call l = Some FP_sip_release_call"
    using leg_ok_sip(1,4) [OF ok nm] assms(1,3) by (auto elim!: routableE)
  let ?x = "x\<lparr>source := Some s1, dest := Some s2\<rparr>" and ?v = "w\<lparr>calls := (calls w)(c \<mapsto> x\<lparr>source := Some s1, dest := Some s2\<rparr>)\<rparr>"
  note fr = fresh_not_allocated(1) [OF safeD(3) [OF s(1)]]
  have rv: "routable ?v c i" by (rule routable_call [OF assms(1,2)]) simp_all
  have st: "sip_status (cause2status 0) = 480" by code_simp
  let ?Q = "\<lambda>w'. legs w' i = None \<and> calls w' c = None \<and> out w' = out w @
      [Nua_respond (nua_handle s) 480 (Some (release_reason 0)) None, Nua_handle_destroy (nua_handle s)]"
  have fail: "wp (release_initial X c) (\<lambda>_. ?Q) (?v\<lparr>legs := (legs w)(i \<mapsto> l\<lparr>rx_sdp_changed := f\<rparr>), next_addr := na, allocs := bs\<rparr>)"
    (is "wp _ _ ?u") if "next_addr w \<le> na" for f na bs
  proof -
    have "routable ?u c i" using routable_upd [OF rv, of l "l\<lparr>rx_sdp_changed := f\<rparr>" na bs] assms(3) that by simp
    then have "wf_heap ?u" by (auto elim!: routableE dest: safeD(3))
    then have "wf_heap (?u\<lparr>out := o'\<rparr>)" for o' by simp
    then show ?thesis
      using s assms ty st
      by (simp add: release_initial_def sip_release_call_def numeral_2_eq_2 wp leg_gone_def other_leg_def)
  qed
  have "wp (mncc_create_remote_leg X c) (\<lambda>rc. wp (mwhen (rc \<noteq> 0) (release_initial X c)) (\<lambda>_. ?Q)) ?v"
    by (rule mncc_create_remote_result [of ?v c ?x i l s1 s2])
       (use s assms fr safeD(5) [OF s(1)] fail in \<open>simp_all add: wp\<close>)
  then have "wp (app_route_call X c (Some s1) (Some s2)) (\<lambda>_. ?Q) w"
    using ty by (simp add: app_route_call_mncc [OF assms(1-3) _ refl] route_to_mncc_def wp)
  moreover have "wp (app_route_call X c (Some s1) (Some s2)) (\<lambda>_. safe) w"
    by (rule wp_mono [OF app_route_call_safe [OF assms(1)]]) (use assms in auto)
  ultimately show ?thesis by (auto simp: wp_iff_run)
qed

theorem mt_call_refused_witness:
  "\<exists>w'. app_route_call example_sdp_ext 1 (Some \<lparr>str_owner = 2, str_val = ''100''\<rparr>)
        (Some \<lparr>str_owner = 2, str_val = ''200''\<rparr>) (example_incoming down_conn example_config) = Inr ((), w')
     \<and> calls w' 1 = None
     \<and> out w' = [Nua_respond (Some 9) 480 (Some (release_reason 0)) None, Nua_handle_destroy (Some 9)]"
  using mt_call_refused_when_down [OF example_incoming_routable [of down_conn example_config],
      of "created_call 5001 2" "example_sip_leg 0" _ "\<lparr>str_owner = 2, str_val = ''100''\<rparr>"
      "\<lparr>str_owner = 2, str_val = ''200''\<rparr>" example_sdp_ext]
  by (auto simp: example_sip_leg_simps down_conn_def zero_sip_def)

end
