(* ===== verification/Mncc_Handlers.thy ===== *)
theory Mncc_Handlers
  imports App_Route
begin

text \<open>
  The upper half of \<open>src/src/mncc.c\<close>: the handlers of the messages the MSC sends, their dispatch
  in \<open>mncc_data\<close>, and the connection's life cycle. Every handler takes the buffer and the length
  that \<open>read\<close> returned. A call through a function pointer of a leg goes through one of the
  dispatchers below, which fault on a NULL pointer.
\<close>

section \<open>Calls through the pointers of a leg\<close>

definition ring :: "ext \<Rightarrow> addr \<Rightarrow> unit io" where
  "ring X a = mbind (get_leg a) (\<lambda>l. case ring_call l of
       None \<Rightarrow> mfail Null_call
     | Some f \<Rightarrow> (if f = FP_sip_ring_call then sip_ring_call a
                 else if f = FP_mncc_call_leg_ring then mncc_call_leg_ring X (release X) a
                 else mfail Bad_cast))"

definition connect :: "ext \<Rightarrow> addr \<Rightarrow> unit io" where
  "connect X a = mbind (get_leg a) (\<lambda>l. case connect_call l of
       None \<Rightarrow> mfail Null_call
     | Some f \<Rightarrow> (if f = FP_sip_connect_call then sip_connect_call X a
                 else if f = FP_mncc_call_leg_connect then mncc_call_leg_connect X (release X) a
                 else mfail Bad_cast))"

definition hold :: "ext \<Rightarrow> addr \<Rightarrow> unit io" where
  "hold X a = mbind (get_leg a) (\<lambda>l. case hold_call l of
       None \<Rightarrow> mfail Null_call
     | Some f \<Rightarrow> (if f = FP_sip_hold_call then sip_hold_call X a else mfail Bad_cast))"

definition retrieve :: "ext \<Rightarrow> addr \<Rightarrow> unit io" where
  "retrieve X a = mbind (get_leg a) (\<lambda>l. case retrieve_call l of
       None \<Rightarrow> mfail Null_call
     | Some f \<Rightarrow> (if f = FP_sip_retrieve_call then sip_retrieve_call X a else mfail Bad_cast))"

text \<open>\<open>if (other_leg->dtmf) other_leg->dtmf(...)\<close>\<close>

definition send_dtmf :: "addr \<Rightarrow> int \<Rightarrow> unit io" where
  "send_dtmf a keypad = mbind (get_leg a) (\<lambda>l. case dtmf l of
       None \<Rightarrow> mret ()
     | Some f \<Rightarrow> (if f = FP_sip_dtmf_call then sip_dtmf_call a keypad else mfail Bad_cast))"

text \<open>Setting the cause of a leg and releasing it.\<close>

definition release_with_cause :: "ext \<Rightarrow> addr option \<Rightarrow> int \<Rightarrow> unit io" where
  "release_with_cause X p v = (case p of None \<Rightarrow> mret ()
     | Some b \<Rightarrow> mthen (upd_leg b (cause_update (\<lambda>_. v))) (release X b))"

text \<open>New SDP of the other leg, which clears its change flag.\<close>

definition new_sdp :: "addr option \<Rightarrow> string option io" where
  "new_sdp p = (case p of None \<Rightarrow> mret None | Some b \<Rightarrow> mbind (get_leg b) (\<lambda>l.
     if rx_sdp l \<noteq> [] \<and> rx_sdp_changed l
     then mthen (upd_leg b (rx_sdp_changed_update (\<lambda>_. False))) (mret (Some (rx_sdp l)))
     else mret None))"

section \<open>Continuing a call\<close>

definition continue_mo_call :: "ext \<Rightarrow> addr \<Rightarrow> unit io" where
  "continue_mo_call X a = mbind (get_mncc a) (\<lambda>m.
     mthen (mncc_send X (release X) MNCC_CALL_PROC_REQ (callref m))
     (mthen (upd_mncc a (mncc_state_update (\<lambda>_. MNCC_CC_PROCEEDING)))
     (mbind (get_mncc a) (\<lambda>m.
     mbind (talloc_str a (if num_type (called m) = GSM340_TYPE_INTERNATIONAL
         then CHR ''+'' # prec_s 32 (num_number (called m)) else prec_s 32 (num_number (called m)))) (\<lambda>dst.
     mbind (mget g_app) (\<lambda>app.
     mbind (talloc_str a (if use_imsi_as_id app \<noteq> 0 then prec_s 16 (imsi m)
         else prec_s 32 (num_number (calling m)))) (\<lambda>src.
     mbind (get_leg a) (\<lambda>l. app_route_call X (leg_call l) src dst))))))))"

definition continue_mt_call :: "addr \<Rightarrow> unit io" where
  "continue_mt_call a = mbind (call_leg_other a) (\<lambda>p. case p of None \<Rightarrow> mret ()
     | Some b \<Rightarrow> mbind (get_leg a) (\<lambda>l. upd_leg b (payload_type_update (\<lambda>_. payload_type l))))"

definition continue_call :: "ext \<Rightarrow> addr \<Rightarrow> unit io" where
  "continue_call X a = mbind (get_mncc a) (\<lambda>m.
     if mncc_direction m = MNCC_DIR_MO then continue_mo_call X a else continue_mt_call a)"

section \<open>Handlers\<close>

definition check_rtp_connect :: "ext \<Rightarrow> mncc_buf \<Rightarrow> int \<Rightarrow> unit io" where
  "check_rtp_connect X buf rc = (if rc < sizeof_rtp then close_connection (release X)
     else let rtp = as_rtp buf in
       mbind (mncc_find_leg_not_released (rtp_callref rtp)) (\<lambda>p. case p of
         None \<Rightarrow> mthen (mncc_send X (release X) MNCC_REJ_REQ (rtp_callref rtp)) (mret ())
       | Some a \<Rightarrow> mthen (call_leg_rx_sdp a (Some (rtp_sdp rtp)))
           (if ss_family (rtp_addr rtp) \<noteq> AF_UNSPEC \<or> x_sockaddr_port X (rtp_addr rtp) \<noteq> 0
               \<or> rtp_payload_type rtp \<noteq> 0
            then mret ()
            else mbind (call_leg_other a) (\<lambda>other.
              mthen (release_ptr (release X) other) (release X a)))))"

definition check_rtp_create :: "ext \<Rightarrow> mncc_buf \<Rightarrow> int \<Rightarrow> unit io" where
  "check_rtp_create X buf rc = (if rc < sizeof_rtp then close_connection (release X)
     else let rtp = as_rtp buf in
       mbind (mncc_find_leg_not_released (rtp_callref rtp)) (\<lambda>p. case p of
         None \<Rightarrow> mthen (mncc_send X (release X) MNCC_REJ_REQ (rtp_callref rtp)) (mret ())
       | Some a \<Rightarrow>
           mthen (upd_leg a (\<lambda>l. l\<lparr>leg_addr := rtp_addr rtp, payload_type := rtp_payload_type rtp,
               payload_msg_type := rtp_payload_msg_type rtp\<rparr>))
           (mthen (call_leg_rx_sdp a (Some (rtp_sdp rtp)))
           (mthen (stop_cmd_timer a MNCC_RTP_CREATE) (continue_call X a)))))"

definition continue_setup :: "gsm_mncc \<Rightarrow> bool" where
  "continue_setup m = (num_plan (mncc_called m) = GSM340_PLAN_UNKNOWN
     \<or> num_plan (mncc_called m) = GSM340_PLAN_ISDN)"

text \<open>The type of the number is initialised with \<open>CALL_TYPE_MNCC\<close>, the third constant of its
  enumeration.\<close>

definition emergency_number :: gsm_mncc_number where
  "emergency_number = \<lparr>num_type = 2, num_plan = GSM48_NPI_UNKNOWN, num_number = ''emergency''\<rparr>"

definition setup_reject :: "ext \<Rightarrow> gsm_mncc \<Rightarrow> unit io" where
  "setup_reject X m = mthen (mncc_send X (release X) MNCC_REJ_REQ (mncc_callref m)) (mret ())"

text \<open>The second half of \<open>check_setup\<close>: the call is screened, \<open>num\<close> is the number to call and
  \<open>g\<close> the decoded Global Call Reference, if the message has one.\<close>

definition setup_call :: "ext \<Rightarrow> gsm_mncc \<Rightarrow> gsm_mncc_number \<Rightarrow> gcr option \<Rightarrow> unit io" where
  "setup_call X m num g = mbind call_mncc_create (\<lambda>p. case p of
       None \<Rightarrow> setup_reject X m
     | Some c \<Rightarrow> mbind (get_call c) (\<lambda>x. mbind (deref (initial x)) (\<lambda>a.
         mthen (upd_leg a (\<lambda>l. l\<lparr>connect_call := Some FP_mncc_call_leg_connect,
             ring_call := Some FP_mncc_call_leg_ring, release_call := Some FP_mncc_call_leg_release,
             update_rtp := Some FP_update_rtp\<rparr>))
         (mthen (upd_mncc a (\<lambda>ml. ml\<lparr>callref := mncc_callref m, mncc_state := MNCC_CC_INITIAL,
             mncc_direction := MNCC_DIR_MO, called := num, calling := mncc_calling m, imsi := mncc_imsi m\<rparr>))
         (mthen (call_leg_rx_sdp a (Some (mncc_sdp m)))
         (mthen (case g of None \<Rightarrow> mret ()
                 | Some gr \<Rightarrow> upd_call c (\<lambda>x. x\<lparr>gcr_present := True, call_gcr := gr\<rparr>))
         (mbind (call_leg_other a) (\<lambda>other. mbind (new_sdp other) (\<lambda>sdp.
         mthen (start_cmd_timer a MNCC_RTP_CREATE)
         (mthen (mncc_rtp_send (release X) MNCC_RTP_CREATE (mncc_callref m) sdp) (mret ())))))))))))"

definition check_setup :: "ext \<Rightarrow> mncc_buf \<Rightarrow> int \<Rightarrow> unit io" where
  "check_setup X buf rc = (if rc < x_sizeof_mncc X then close_connection (release X)
     else let m = as_mncc buf in
       if mncc_fields m AND MNCC_F_CALLED = 0 \<and> mncc_emergency m = 0 then setup_reject X m
       else let num = (if mncc_fields m AND MNCC_F_CALLED = 0 then emergency_number else mncc_called m) in
       if mncc_fields m AND MNCC_F_CALLING = 0 then setup_reject X m
       else if \<not> continue_setup m then setup_reject X m
       else if mncc_fields m AND MNCC_F_GCR \<noteq> 0 then
         (case x_dec_gcr X (mncc_gcr m) of None \<Rightarrow> setup_reject X m
          | Some g \<Rightarrow> setup_call X m num (Some g))
       else setup_call X m num None)"

definition find_leg :: "ext \<Rightarrow> mncc_buf \<Rightarrow> int \<Rightarrow> addr option io" where
  "find_leg X buf rc = (if rc < x_sizeof_mncc X
     then mthen (close_connection (release X)) (mret None)
     else mncc_find_leg (mncc_callref (as_mncc buf)))"

text \<open>\<open>leg = find_leg(...); if (!leg) return;\<close> and the rest of the handler.\<close>

definition on_leg :: "ext \<Rightarrow> mncc_buf \<Rightarrow> int \<Rightarrow> (addr \<Rightarrow> unit io) \<Rightarrow> unit io" where
  "on_leg X buf rc k = mbind (find_leg X buf rc) (\<lambda>p. case p of None \<Rightarrow> mret () | Some a \<Rightarrow> k a)"

text \<open>\<open>mncc_send(leg->conn, type, leg->callref)\<close>\<close>

definition leg_send :: "ext \<Rightarrow> u32 \<Rightarrow> addr \<Rightarrow> unit io" where
  "leg_send X t a = mbind (get_mncc a) (\<lambda>m. mthen (mncc_send X (release X) t (callref m)) (mret ()))"

definition disc_ind :: "ext \<Rightarrow> gsm_mncc \<Rightarrow> addr \<Rightarrow> unit io" where
  "disc_ind X d a = mthen (upd_leg a (in_release_update (\<lambda>_. True)))
     (mthen (start_cmd_timer a MNCC_REL_CNF)
     (mthen (leg_send X MNCC_REL_REQ a)
     (mbind (call_leg_other a) (\<lambda>other. release_with_cause X other (cause_value (mncc_cause d))))))"

definition check_disc_ind :: "ext \<Rightarrow> mncc_buf \<Rightarrow> int \<Rightarrow> unit io" where
  "check_disc_ind X buf rc = on_leg X buf rc (disc_ind X (as_mncc buf))"

definition rel_ind :: "ext \<Rightarrow> gsm_mncc \<Rightarrow> addr \<Rightarrow> unit io" where
  "rel_ind X d a = mbind (get_leg a) (\<lambda>l.
     mthen (if in_release l then stop_cmd_timer a MNCC_REL_IND
            else mbind (call_leg_other a) (\<lambda>other. release_with_cause X other (cause_value (mncc_cause d))))
       (mncc_leg_release a))"

definition check_rel_ind :: "ext \<Rightarrow> mncc_buf \<Rightarrow> int \<Rightarrow> unit io" where
  "check_rel_ind X buf rc = on_leg X buf rc (rel_ind X (as_mncc buf))"

definition check_rel_cnf :: "ext \<Rightarrow> mncc_buf \<Rightarrow> int \<Rightarrow> unit io" where
  "check_rel_cnf X buf rc = on_leg X buf rc (\<lambda>a.
     mthen (stop_cmd_timer a MNCC_REL_CNF) (mncc_leg_release a))"

definition check_stp_cmpl_ind :: "ext \<Rightarrow> mncc_buf \<Rightarrow> int \<Rightarrow> unit io" where
  "check_stp_cmpl_ind X buf rc = on_leg X buf rc (\<lambda>a.
     mthen (call_leg_rx_sdp a (Some (mncc_sdp (as_mncc buf))))
     (mthen (stop_cmd_timer a MNCC_SETUP_COMPL_IND)
     (upd_mncc a (mncc_state_update (\<lambda>_. MNCC_CC_CONNECTED)))))"

definition rej_ind :: "ext \<Rightarrow> gsm_mncc \<Rightarrow> addr \<Rightarrow> unit io" where
  "rej_ind X d a = mthen (upd_mncc a (mncc_leg_cause_update (\<lambda>_. cause_value (mncc_cause d))))
     (mbind (call_leg_other a) (\<lambda>other.
     mthen (release_with_cause X other (cause_value (mncc_cause d))) (mncc_leg_release a)))"

definition check_rej_ind :: "ext \<Rightarrow> mncc_buf \<Rightarrow> int \<Rightarrow> unit io" where
  "check_rej_ind X buf rc = on_leg X buf rc (rej_ind X (as_mncc buf))"

definition cnf_ind :: "ext \<Rightarrow> gsm_mncc \<Rightarrow> addr \<Rightarrow> unit io" where
  "cnf_ind X d a = mthen (call_leg_rx_sdp a (Some (mncc_sdp d)))
     (mbind (call_leg_other a) (\<lambda>other. mbind (new_sdp other) (\<lambda>sdp.
     mthen (start_cmd_timer a MNCC_RTP_CREATE)
     (mthen (mncc_rtp_send (release X) MNCC_RTP_CREATE (mncc_callref d) sdp) (mret ())))))"

definition check_cnf_ind :: "ext \<Rightarrow> mncc_buf \<Rightarrow> int \<Rightarrow> unit io" where
  "check_cnf_ind X buf rc = on_leg X buf rc (cnf_ind X (as_mncc buf))"

definition alrt_ind :: "ext \<Rightarrow> gsm_mncc \<Rightarrow> addr \<Rightarrow> unit io" where
  "alrt_ind X d a = mthen (call_leg_rx_sdp a (Some (mncc_sdp d)))
     (mbind (call_leg_other a) (\<lambda>p. case p of
         None \<Rightarrow> mncc_call_leg_release X (release X) a
       | Some b \<Rightarrow> ring X b))"

definition check_alrt_ind :: "ext \<Rightarrow> mncc_buf \<Rightarrow> int \<Rightarrow> unit io" where
  "check_alrt_ind X buf rc = on_leg X buf rc (alrt_ind X (as_mncc buf))"

definition hold_ind :: "ext \<Rightarrow> addr \<Rightarrow> unit io" where
  "hold_ind X a = mbind (call_leg_other a) (\<lambda>p. case p of
       None \<Rightarrow> leg_send X MNCC_HOLD_REJ a
     | Some b \<Rightarrow> mthen (hold X b) (mthen (leg_send X MNCC_HOLD_CNF a)
         (upd_mncc a (mncc_state_update (\<lambda>_. MNCC_CC_HOLD)))))"

definition check_hold_ind :: "ext \<Rightarrow> mncc_buf \<Rightarrow> int \<Rightarrow> unit io" where
  "check_hold_ind X buf rc = on_leg X buf rc (hold_ind X)"

definition retrieve_ind :: "ext \<Rightarrow> addr \<Rightarrow> unit io" where
  "retrieve_ind X a = mbind (call_leg_other a) (\<lambda>p. case p of
       None \<Rightarrow> mthen (leg_send X MNCC_RETRIEVE_CNF a) (mncc_call_leg_release X (release X) a)
     | Some b \<Rightarrow> mthen (retrieve X b) (mthen (leg_send X MNCC_RETRIEVE_CNF a)
         (mthen (upd_mncc a (mncc_state_update (\<lambda>_. MNCC_CC_CONNECTED)))
         (mthen (send_rtp_connect (release X) a b) (mret ())))))"

definition check_retrieve_ind :: "ext \<Rightarrow> mncc_buf \<Rightarrow> int \<Rightarrow> unit io" where
  "check_retrieve_ind X buf rc = on_leg X buf rc (retrieve_ind X)"

definition stp_cnf :: "ext \<Rightarrow> gsm_mncc \<Rightarrow> addr \<Rightarrow> unit io" where
  "stp_cnf X d a = mthen (call_leg_rx_sdp a (Some (mncc_sdp d)))
     (mbind (call_leg_other a) (\<lambda>p. case p of
         None \<Rightarrow> mncc_call_leg_release X (release X) a
       | Some b \<Rightarrow> mbind (send_rtp_connect (release X) a b) (\<lambda>ok.
           if \<not> ok then mret ()
           else mthen (upd_mncc a (mncc_state_update (\<lambda>_. MNCC_CC_CONNECTED)))
             (mthen (leg_send X MNCC_SETUP_COMPL_REQ a) (connect X b)))))"

definition check_stp_cnf :: "ext \<Rightarrow> mncc_buf \<Rightarrow> int \<Rightarrow> unit io" where
  "check_stp_cnf X buf rc = on_leg X buf rc (stp_cnf X (as_mncc buf))"

text \<open>The answer to a DTMF request repeats the key.\<close>

definition dtmf_rsp :: "ext \<Rightarrow> u32 \<Rightarrow> gsm_mncc \<Rightarrow> addr \<Rightarrow> unit io" where
  "dtmf_rsp X t d a = mbind (get_mncc a) (\<lambda>m. mbind (mncc_fill_header zero_mncc t (callref m)) (\<lambda>out_mncc.
     mthen (mncc_write X (release X) (out_mncc\<lparr>mncc_fields := mncc_fields out_mncc OR MNCC_F_KEYPAD,
         mncc_keypad := mncc_keypad d\<rparr>)) (mret ())))"

definition dtmf_start :: "ext \<Rightarrow> gsm_mncc \<Rightarrow> addr \<Rightarrow> unit io" where
  "dtmf_start X d a = mthen (call_leg_rx_sdp a (Some (mncc_sdp d)))
     (mbind (call_leg_other a) (\<lambda>p.
     mthen (case p of None \<Rightarrow> mret () | Some b \<Rightarrow> send_dtmf b (mncc_keypad d))
       (dtmf_rsp X MNCC_START_DTMF_RSP d a)))"

definition check_dtmf_start :: "ext \<Rightarrow> mncc_buf \<Rightarrow> int \<Rightarrow> unit io" where
  "check_dtmf_start X buf rc = on_leg X buf rc (dtmf_start X (as_mncc buf))"

definition check_dtmf_stop :: "ext \<Rightarrow> mncc_buf \<Rightarrow> int \<Rightarrow> unit io" where
  "check_dtmf_stop X buf rc = on_leg X buf rc (\<lambda>a.
     mthen (call_leg_rx_sdp a (Some (mncc_sdp (as_mncc buf))))
       (dtmf_rsp X MNCC_STOP_DTMF_RSP (as_mncc buf) a))"

definition check_hello :: "ext \<Rightarrow> mncc_buf \<Rightarrow> int \<Rightarrow> unit io" where
  "check_hello X buf rc = (if rc \<noteq> sizeof_hello then close_connection (release X)
     else if hello_version (as_hello buf) \<noteq> MNCC_SOCK_VERSION then close_connection (release X)
     else mmod (\<lambda>w. w\<lparr>conn := (conn w)\<lparr>conn_state := MNCC_READY\<rparr>\<rparr>))"

section \<open>The connection\<close>

text \<open>\<open>rc\<close> is the result of \<open>osmo_sock_unix_init_ofd\<close>: the new file descriptor, or negative.\<close>

definition mncc_reconnect :: "int \<Rightarrow> unit io" where
  "mncc_reconnect rc = mmod (\<lambda>w. w\<lparr>conn := (if rc < 0
     then (conn w)\<lparr>conn_state := MNCC_DISCONNECTED, conn_fd := - 1, reconnect_pending := True\<rparr>
     else (conn w)\<lparr>conn_fd := rc, conn_state := MNCC_WAIT_VERSION\<rparr>)\<rparr>)"

text \<open>The SDP that \<open>log_mncc\<close> quotes, if any. The code compares the length with the size of the
  two pointers, eight bytes, not of the structures.\<close>

definition log_mncc :: "mncc_buf \<Rightarrow> int \<Rightarrow> string option" where
  "log_mncc buf buflen = (if buflen < 4 then None
     else if as_msg_type buf \<in> {MNCC_SETUP_IND, MNCC_DISC_IND, MNCC_REL_IND, MNCC_REJ_IND, MNCC_REL_CNF,
          MNCC_SETUP_COMPL_IND, MNCC_SETUP_CNF, MNCC_CALL_CONF_IND, MNCC_ALERT_IND, MNCC_HOLD_IND,
          MNCC_RETRIEVE_IND} then
       (if buflen < 8 then None else Some (mncc_sdp (as_mncc buf)))
     else if as_msg_type buf \<in> {MNCC_RTP_CREATE, MNCC_RTP_CONNECT} then
       (if buflen < 8 then None else Some (rtp_sdp (as_rtp buf)))
     else None)"

definition mncc_data :: "ext \<Rightarrow> mncc_buf \<Rightarrow> int \<Rightarrow> unit io" where
  "mncc_data X buf rc = (let t = as_msg_type buf in
     if rc \<le> 0 then close_connection (release X)
     else if rc \<le> 4 then close_connection (release X)
     else if t = MNCC_SOCKET_HELLO then check_hello X buf rc
     else if t = MNCC_SETUP_IND then check_setup X buf rc
     else if t = MNCC_RTP_CREATE then check_rtp_create X buf rc
     else if t = MNCC_RTP_CONNECT then check_rtp_connect X buf rc
     else if t = MNCC_DISC_IND then check_disc_ind X buf rc
     else if t = MNCC_REL_IND then check_rel_ind X buf rc
     else if t = MNCC_REJ_IND then check_rej_ind X buf rc
     else if t = MNCC_REL_CNF then check_rel_cnf X buf rc
     else if t = MNCC_SETUP_COMPL_IND then check_stp_cmpl_ind X buf rc
     else if t = MNCC_SETUP_CNF then check_stp_cnf X buf rc
     else if t = MNCC_CALL_CONF_IND then check_cnf_ind X buf rc
     else if t = MNCC_ALERT_IND then check_alrt_ind X buf rc
     else if t = MNCC_HOLD_IND then check_hold_ind X buf rc
     else if t = MNCC_RETRIEVE_IND then check_retrieve_ind X buf rc
     else if t = MNCC_START_DTMF_IND then check_dtmf_start X buf rc
     else if t = MNCC_STOP_DTMF_IND then check_dtmf_stop X buf rc
     else mret ())"

text \<open>The callbacks are fixed in the model, and \<open>conn->app\<close> always is the one configuration.\<close>

definition mncc_connection_init :: "unit io" where
  "mncc_connection_init = mmod (\<lambda>w. w\<lparr>conn := (conn w)\<lparr>conn_fd := - 1,
     conn_state := MNCC_DISCONNECTED\<rparr>\<rparr>)"

definition mncc_connection_start :: "unit io" where
  "mncc_connection_start = mmod (\<lambda>w. w\<lparr>conn := (conn w)\<lparr>reconnect_pending := True\<rparr>\<rparr>)"

definition mncc_conn_state_vals :: "(mncc_conn_state \<times> string) list" where
  "mncc_conn_state_vals = [(MNCC_DISCONNECTED, ''DISCONNECTED''), (MNCC_WAIT_VERSION, ''WAITING''),
     (MNCC_READY, ''READY'')]"

end
