(* ===== verification/Handler_Safety.thy ===== *)
theory Handler_Safety
  imports Mncc_Handlers
begin

text \<open>
  No message from a conforming MSC makes a handler of \<open>Mncc_Handlers\<close> fault: from a connected
  state every handler leads to a safe state. The steps of a handler that keep all legs and
  calls in place are instances of the interface \<open>quiet_op\<close>; the steps that release a leg are
  instances of \<open>framed_op\<close>.
\<close>

section \<open>Operations that keep every leg in place\<close>

definition shape :: "world \<Rightarrow> (addr \<Rightarrow> call option) \<times> (addr \<Rightarrow> identity option)" where
  "shape w = (calls w, \<lambda>b. map_option ident (legs w b))"

lemma shapeD:
  assumes "shape v = shape w"
  shows "calls v = calls w" and "map_option ident (legs v b) = map_option ident (legs w b)"
  using assms by (auto simp: shape_def fun_eq_iff)

lemma shape_leg:
  assumes "shape v = shape w" and "legs w b = Some l"
  obtains l' where "legs v b = Some l'" and "ident l' = ident l"
  using shapeD(2) [OF assms(1), of b] assms(2) by (cases "legs v b") auto

lemma shape_upd [simp]:
  "legs w a = Some l \<Longrightarrow> ident l' = ident l \<Longrightarrow> shape (w\<lparr>legs := (legs w)(a \<mapsto> l')\<rparr>) = shape w"
  by (auto simp: shape_def fun_eq_iff)

lemma shape_frame [simp]:
  "shape (w\<lparr>out := os\<rparr>) = shape w" "shape (w\<lparr>timers := ts\<rparr>) = shape w" "shape (w\<lparr>allocs := bs\<rparr>) = shape w"
  by (simp_all add: shape_def)

text \<open>An MNCC leg with its direction and its partner, as the shape shows them.\<close>

definition mncc_at :: "world \<Rightarrow> addr \<Rightarrow> bool \<Rightarrow> addr option \<Rightarrow> bool" where
  "mncc_at w a mo p = (\<exists>l x. legs w a = Some l \<and> is_mncc l \<and> leg_mo l = mo
     \<and> calls w (leg_call l) = Some x \<and> other_leg a x = p)"

lemma mncc_at_shape:
  assumes s: "shape v = shape w" and m: "mncc_at w a mo p"
  shows "mncc_at v a mo p"
proof -
  from m obtain l x where l: "legs w a = Some l" "is_mncc l" "leg_mo l = mo"
      "calls w (leg_call l) = Some x" "other_leg a x = p" by (auto simp: mncc_at_def)
  obtain l' where l': "legs v a = Some l'" "ident l' = ident l" using shape_leg [OF s l(1)] .
  show ?thesis
    using l l' ident_eqD(2-4) [OF l'(2)] shapeD(1) [OF s] by (auto simp: mncc_at_def)
qed

lemma mncc_at_other: "mncc_at w a mo p \<Longrightarrow> wp (call_leg_other a) Q w = Q p w"
  by (auto simp: mncc_at_def wp)

lemma mncc_atE:
  assumes "mncc_at w a mo p" and "heap_inv w"
  obtains l m x where "legs w a = Some l" "is_mncc l" "\<not> bare l" "leg_mo l = mo" "leg_object l = Mncc_object m"
    "calls w (leg_call l) = Some x" "other_leg a x = p"
proof -
  from assms(1) obtain l x where l: "legs w a = Some l" "is_mncc l" "leg_mo l = mo"
      "calls w (leg_call l) = Some x" "other_leg a x = p" by (auto simp: mncc_at_def)
  then show ?thesis using that leg_ok_mncc(9,10) [OF heap_invD(2) [OF assms(2) l(1)] l(2)] by blast
qed

definition mncc_leg_at :: "world \<Rightarrow> addr \<Rightarrow> bool" where
  "mncc_leg_at w a = (\<exists>mo p. mncc_at w a mo p)"

lemma mncc_leg_atI [intro]: "mncc_at w a mo p \<Longrightarrow> mncc_leg_at w a"
  by (auto simp: mncc_leg_at_def)

lemma mncc_leg_atE:
  assumes "mncc_leg_at w a" and "connected w"
  obtains l m where "legs w a = Some l" "is_mncc l" "leg_object l = Mncc_object m"
  using assms mncc_atE [OF _ connectedD(3) [OF assms(2)]] unfolding mncc_leg_at_def by metis

text \<open>The partner is a SIP leg of the other direction.\<close>

lemma mncc_at_partner:
  assumes m: "mncc_at w a mo (Some b)" and inv: "heap_inv w"
  obtains k where "legs w b = Some k" "\<not> is_mncc k" "\<not> bare k" "leg_mo k = (\<not> mo)" "b \<noteq> a"
proof -
  obtain l x where l: "legs w a = Some l" "is_mncc l" "leg_mo l = mo"
      "calls w (leg_call l) = Some x" "other_leg a x = Some b" using m by (auto simp: mncc_at_def)
  obtain k where k: "legs w b = Some k" "b \<noteq> a"
    using other_leg_cases [OF heap_invD(1) [OF inv] l(1,4,5)] by blast
  show ?thesis using that pair_not_bare [OF inv l(1,4,5) k(1)] k l(2,3) by blast
qed

text \<open>The interface of an operation that keeps the shape of a connected state.\<close>

locale quiet_op =
  fixes op :: "'a io" and pre :: "world \<Rightarrow> bool"
  assumes quiet: "connected w \<Longrightarrow> pre w \<Longrightarrow> wp op (\<lambda>_ v. connected v \<and> shape v = shape w) w"
begin

lemma quiet_then:
  assumes "connected w" and "pre w"
    and "\<And>v. connected v \<Longrightarrow> shape v = shape w \<Longrightarrow> wp n Q v"
  shows "wp (mthen op n) Q w"
  unfolding wp_mthen by (rule wp_mono [OF quiet [OF assms(1,2)]]) (use assms(3) in blast)

lemma quiet_bind:
  assumes "connected w" and "pre w"
    and "\<And>r v. connected v \<Longrightarrow> shape v = shape w \<Longrightarrow> wp (n r) Q v"
  shows "wp (mbind op n) Q w"
  unfolding wp_mbind by (rule wp_mono [OF quiet [OF assms(1,2)]]) (use assms(3) in blast)

lemma quiet_last:
  assumes "connected w" and "pre w"
  shows "wp op (\<lambda>_. safe) w"
  by (rule wp_mono [OF quiet [OF assms]]) (simp add: connected_safe)

end

lemma connected_upd:
  assumes "connected w" and "legs w a = Some l" and "ident l' = ident l"
  shows "connected (w\<lparr>legs := (legs w)(a \<mapsto> l')\<rparr>)"
  using assms heap_inv_upd_leg [OF assms(2,3)] conn_ok_upd_leg [OF assms(2,3)]
  by (simp add: connected_def inv_iff)

text \<open>Updates that do not touch what identifies the leg.\<close>

locale ident_update =
  fixes f :: "call_leg \<Rightarrow> call_leg"
  assumes ident_f: "ident (f l) = ident l"
begin

sublocale quiet_op "upd_leg a f" "\<lambda>w. legs w a \<noteq> None" for a
proof
  fix w assume w: "connected w" "legs w a \<noteq> None"
  then obtain l where "legs w a = Some l" by blast
  then show "wp (upd_leg a f) (\<lambda>_ v. connected v \<and> shape v = shape w) w"
    using connected_upd [OF w(1) _ ident_f] by (simp add: wp ident_f)
qed

end

interpretation set_in_release: ident_update "in_release_update (\<lambda>_. v)" for v
  by unfold_locales simp

interpretation set_cause: ident_update "cause_update (\<lambda>_. v)" for v
  by unfold_locales simp

interpretation clear_changed: ident_update "rx_sdp_changed_update (\<lambda>_. v)" for v
  by unfold_locales simp

interpretation set_payload: ident_update "payload_type_update (\<lambda>_. v)" for v
  by unfold_locales simp

interpretation set_rtp: ident_update "\<lambda>l. l\<lparr>leg_addr := ad, payload_type := pt, payload_msg_type := pm\<rparr>" for ad pt pm
  by unfold_locales (simp add: ident_def is_mncc_def leg_mo_def leg_handle_def)

interpretation rx: quiet_op "call_leg_rx_sdp a s" "\<lambda>w. legs w a \<noteq> None" for a s
proof
  fix w assume w: "connected w" "legs w a \<noteq> None"
  then obtain l where l: "legs w a = Some l" by blast
  have "ident (l\<lparr>rx_sdp := t, rx_sdp_changed := True\<rparr>) = ident l" for t
    by (simp add: ident_def is_mncc_def leg_mo_def leg_handle_def)
  then show "wp (call_leg_rx_sdp a s) (\<lambda>_ v. connected v \<and> shape v = shape w) w"
    using w l by (auto simp: wp intro: connected_upd split: option.splits)
qed

interpretation new_sdp: quiet_op "new_sdp p" "\<lambda>w. p = None \<or> (\<exists>b. p = Some b \<and> legs w b \<noteq> None)" for p
proof
  fix w assume w: "connected w" "p = None \<or> (\<exists>b. p = Some b \<and> legs w b \<noteq> None)"
  show "wp (new_sdp p) (\<lambda>_ v. connected v \<and> shape v = shape w) w"
  proof (cases p)
    case None
    then show ?thesis using w by (simp add: new_sdp_def wp)
  next
    case (Some b)
    then obtain l where l: "legs w b = Some l" using w by auto
    then show ?thesis
      using w connected_upd [OF w(1) l, of "l\<lparr>rx_sdp_changed := False\<rparr>"] Some by (simp add: new_sdp_def wp)
  qed
qed

text \<open>Updates of the MNCC part that keep the direction.\<close>

interpretation mncc_upd: quiet_op "upd_mncc a f"
  "\<lambda>w. (\<forall>m. mncc_direction (f m) = mncc_direction m) \<and> mncc_leg_at w a" for a f
proof
  fix w assume w: "connected w" "(\<forall>m. mncc_direction (f m) = mncc_direction m) \<and> mncc_leg_at w a"
  then obtain l m where l: "legs w a = Some l" "leg_object l = Mncc_object m" by (blast elim: mncc_leg_atE)
  then show "wp (upd_mncc a f) (\<lambda>_ v. connected v \<and> shape v = shape w) w"
    using w by (auto simp: wp intro: connected_upd)
qed

interpretation start_timer: quiet_op "start_cmd_timer a r" "\<lambda>w. mncc_leg_at w a" for a r
proof
  fix w assume w: "connected w" "mncc_leg_at w a"
  then obtain l m where l: "legs w a = Some l" "leg_object l = Mncc_object m" by (blast elim: mncc_leg_atE)
  show "wp (start_cmd_timer a r) (\<lambda>_ v. connected v \<and> shape v = shape w) w"
    by (rule wp_start_cmd_timer [OF connectedD(3) [OF w(1)] l])
       (use l w(1) connected_frame in \<open>auto simp: shape_def fun_eq_iff\<close>)
qed

interpretation stop_timer: quiet_op "stop_cmd_timer a r" "\<lambda>w. mncc_leg_at w a" for a r
proof
  fix w assume w: "connected w" "mncc_leg_at w a"
  then obtain l m where l: "legs w a = Some l" "is_mncc l" "leg_object l = Mncc_object m" by (blast elim: mncc_leg_atE)
  have "connected (w\<lparr>timers := removeAll a (timers w)\<rparr>)"
    using w(1) heap_inv_timers_removeAll [of w a] by (auto simp: connected_def inv_iff)
  then show "wp (stop_cmd_timer a r) (\<lambda>_ v. connected v \<and> shape v = shape w) w"
    using l w(1) by (auto simp: stop_cmd_timer_def wp)
qed

interpretation send: quiet_op "leg_send X t a" "\<lambda>w. mncc_leg_at w a" for X t a
proof
  fix w assume w: "connected w" "mncc_leg_at w a"
  then obtain l m where l: "legs w a = Some l" "leg_object l = Mncc_object m" by (blast elim: mncc_leg_atE)
  then show "wp (leg_send X t a) (\<lambda>_ v. connected v \<and> shape v = shape w) w"
    using w(1) by (simp add: leg_send_def wp wp_mncc_send_open [OF connectedD(3,2) [OF w(1)] l])
qed

interpretation reject: quiet_op "mncc_send X rel MNCC_REJ_REQ r" "\<lambda>_. True" for X rel r
  by unfold_locales (simp add: wp_mncc_send_plain connectedD)

interpretation rtp_send: quiet_op "mncc_rtp_send rel t r s" "\<lambda>_. True" for rel t r s
  by unfold_locales (simp add: wp_mncc_rtp_send_open connectedD)

interpretation rtp_connect: quiet_op "send_rtp_connect rel a b"
  "\<lambda>w. mncc_leg_at w a \<and> legs w b \<noteq> None" for rel a b
proof
  fix w assume w: "connected w" "mncc_leg_at w a \<and> legs w b \<noteq> None"
  then obtain l m where l: "legs w a = Some l" "leg_object l = Mncc_object m" by (blast elim: mncc_leg_atE)
  then show "wp (send_rtp_connect rel a b) (\<lambda>_ v. connected v \<and> shape v = shape w) w"
    using w by (auto simp: wp_send_rtp_connect_open connectedD)
qed

section \<open>Steps on the partner\<close>

lemma connected_mncc_leg_at:
  assumes "connected w" and "legs w a = Some l" and "is_mncc l"
  shows "mncc_leg_at w a"
  using heap_inv_mncc [OF connectedD(3) [OF assms(1)] assms(2,3)] assms(2,3)
  by (auto simp: mncc_leg_at_def mncc_at_def)

text \<open>An operation on the partner leaves the MNCC leg as it is.\<close>

context framed_op
begin

lemma on_partner:
  assumes c: "connected w" and m: "mncc_at w a mo (Some b)"
    and ok: "\<And>k. legs w b = Some k \<Longrightarrow> \<not> is_mncc k \<Longrightarrow> \<not> bare k \<Longrightarrow> leg_mo k = (\<not> mo) \<Longrightarrow> good k \<and> cond w b"
    and rest: "\<And>v l. connected v \<Longrightarrow> legs w a = Some l \<Longrightarrow> legs v a = Some l \<Longrightarrow> mncc_leg_at v a \<Longrightarrow> wp n Q v"
  shows "wp (mthen (op b) n) Q w"
proof -
  obtain k where k: "legs w b = Some k" "\<not> is_mncc k" "\<not> bare k" "leg_mo k = (\<not> mo)" "b \<noteq> a"
    using mncc_at_partner [OF m connectedD(3) [OF c]] .
  obtain l where l: "legs w a = Some l" "is_mncc l" using mncc_atE [OF m connectedD(3) [OF c]] by blast
  have "wp (op b) (\<lambda>_ v. connected v \<and> leg_frame b w v) w"
    using keeps_connected [OF c _ k(1)] ok [OF k(1-4)] by blast
  then show ?thesis unfolding wp_mthen
  proof (rule wp_mono)
    fix v assume v: "connected v \<and> leg_frame b w v"
    then have "legs v a = Some l" using leg_frameD(1) [of b w v a] k(5) l(1) by simp
    then show "wp n Q v" using rest [OF _ l(1)] v connected_mncc_leg_at [OF _ _ l(2)] by blast
  qed
qed

lemma on_partner_last:
  assumes c: "connected w" and m: "mncc_at w a mo (Some b)"
    and ok: "\<And>k. legs w b = Some k \<Longrightarrow> \<not> is_mncc k \<Longrightarrow> \<not> bare k \<Longrightarrow> leg_mo k = (\<not> mo) \<Longrightarrow> good k \<and> cond w b"
  shows "wp (op b) (\<lambda>_. safe) w"
proof -
  obtain k where k: "legs w b = Some k" "\<not> is_mncc k" "\<not> bare k" "leg_mo k = (\<not> mo)"
    using mncc_at_partner [OF m connectedD(3) [OF c]] .
  show ?thesis
    by (rule wp_mono [OF keeps_connected [OF c _ k(1)]]) (use ok [OF k] in \<open>auto simp: connected_safe\<close>)
qed

end

interpretation ring: framed_op "ring X" "\<lambda>k. \<not> is_mncc k \<and> \<not> bare k \<and> leg_mo k" "\<lambda>_ _. True" for X
proof
  fix w a l assume h: "heap_inv w" "legs w a = Some l" "\<not> is_mncc l \<and> \<not> bare l \<and> leg_mo l"
  then have "ring_call l = Some FP_sip_ring_call" using leg_ok_sip(8) [OF heap_invD(2) [OF h(1,2)]] by simp
  then show "wp (ring X a) (\<lambda>_ w'. heap_inv w' \<and> leg_frame a w w') w"
    using sip_ring.framed [OF h(1) _ h(2)] h by (simp add: ring_def wp sip_kind_def)
qed

interpretation connect: framed_op "connect X" "\<lambda>k. \<not> is_mncc k \<and> \<not> bare k \<and> leg_mo k" "\<lambda>_ _. True" for X
proof
  fix w a l assume h: "heap_inv w" "legs w a = Some l" "\<not> is_mncc l \<and> \<not> bare l \<and> leg_mo l"
  then have "connect_call l = Some FP_sip_connect_call" using leg_ok_sip(9) [OF heap_invD(2) [OF h(1,2)]] by simp
  then show "wp (connect X a) (\<lambda>_ w'. heap_inv w' \<and> leg_frame a w w') w"
    using sip_connect.framed [OF h(1) _ h(2)] h by (simp add: connect_def wp sip_kind_def)
qed

interpretation hold: framed_op "hold X" "\<lambda>k. \<not> is_mncc k \<and> \<not> bare k" "\<lambda>_ _. True" for X
proof
  fix w a l assume h: "heap_inv w" "legs w a = Some l" "\<not> is_mncc l \<and> \<not> bare l"
  then have "hold_call l = Some FP_sip_hold_call" using leg_ok_sip(6) [OF heap_invD(2) [OF h(1,2)]] by simp
  then show "wp (hold X a) (\<lambda>_ w'. heap_inv w' \<and> leg_frame a w w') w"
    using sip_hold.framed [OF h(1) _ h(2)] h by (simp add: hold_def wp sip_kind_def)
qed

interpretation send_dtmf: framed_op "\<lambda>b. send_dtmf b keypad" "\<lambda>k. \<not> is_mncc k \<and> \<not> bare k" "\<lambda>_ _. True" for keypad
proof
  fix w a l assume h: "heap_inv w" "legs w a = Some l" "\<not> is_mncc l \<and> \<not> bare l"
  then have "dtmf l = Some FP_sip_dtmf_call" using leg_ok_sip(5) [OF heap_invD(2) [OF h(1,2)]] by simp
  then show "wp (send_dtmf a keypad) (\<lambda>_ w'. heap_inv w' \<and> leg_frame a w w') w"
    using sip_dtmf.framed [OF h(1) _ h(2)] h by (simp add: send_dtmf_def wp sip_kind_def)
qed

interpretation cause_release: framed_op "\<lambda>b. release_with_cause X (Some b) v" "\<lambda>k. \<not> bare k" "\<lambda>w _. open_conn w" for X v
proof
  fix w a l assume h: "heap_inv w" "open_conn w" "legs w a = Some l" "\<not> bare l"
  let ?w = "w\<lparr>legs := (legs w)(a \<mapsto> l\<lparr>cause := v\<rparr>)\<rparr>"
  have i: "ident (l\<lparr>cause := v\<rparr>) = ident l" by simp
  have "wp (release_leg X (Suc 1) a) (\<lambda>_ w'. heap_inv w' \<and> leg_frame a ?w w') ?w"
    by (rule release.framed [OF heap_inv_upd_leg [OF h(3) i h(1)], where l = "l\<lparr>cause := v\<rparr>"]) (use h ident_eqD(6) [OF i] in simp_all)
  then have "wp (release X a) (\<lambda>_ w'. heap_inv w' \<and> leg_frame a ?w w') ?w" by (simp only: numeral_2_eq_2 One_nat_def)
  then have "wp (release X a) (\<lambda>_ w'. heap_inv w' \<and> leg_frame a w w') ?w"
    by (rule wp_mono) (use leg_frame_trans [OF leg_frame_upd [OF h(3) i]] in blast)
  then show "wp (release_with_cause X (Some a) v) (\<lambda>_ w'. heap_inv w' \<and> leg_frame a w w') w"
    using h(3) by (simp add: release_with_cause_def wp)
qed

text \<open>Retrieving keeps the SIP leg while it has a partner.\<close>

lemma retrieve_partner:
  assumes c: "connected w" and m: "mncc_at w a mo (Some b)"
    and rest: "\<And>v l. connected v \<Longrightarrow> legs v a = Some l \<Longrightarrow> mncc_leg_at v a \<Longrightarrow> legs v b \<noteq> None \<Longrightarrow> wp n Q v"
  shows "wp (mthen (retrieve X b) n) Q w"
proof -
  note inv = connectedD(3) [OF c]
  obtain l x where l: "legs w a = Some l" "is_mncc l" "calls w (leg_call l) = Some x" "other_leg a x = Some b"
    using m by (auto simp: mncc_at_def)
  obtain k where k: "legs w b = Some k" "leg_call k = leg_call l" "b \<noteq> a" "other_leg b x = Some a"
    using other_leg_cases [OF heap_invD(1) [OF inv] l(1,3,4)] .
  note nb = pair_not_bare [OF inv l(1,3,4) k(1)]
  obtain s where s: "leg_object k = Sip_object s" "leg_type k = CALL_TYPE_SIP" "retrieve_call k = Some FP_sip_retrieve_call"
    using leg_ok_sip(1,3,7) [OF heap_invD(2) [OF inv k(1)]] nb l(2) by auto
  have "wp (sip_retrieve_call X b) (\<lambda>_ w'. legs w' b \<noteq> None) w"
    using l k s by (simp add: sip_retrieve_call_def wp)
  moreover have "wp (sip_retrieve_call X b) (\<lambda>_ v. connected v \<and> leg_frame b w v) w"
    by (rule sip_retrieve.keeps_connected [OF c _ k(1)]) (use nb l(2) in \<open>simp_all add: sip_kind_def\<close>)
  ultimately obtain v where v: "sip_retrieve_call X b w = Inr ((), v)" "legs v b \<noteq> None" "connected v" "leg_frame b w v"
    by (auto simp: wp_iff_run)
  have "legs v a = Some l" using leg_frameD(1) [OF v(4)] k(3) l(1) by simp
  then have "wp n Q v" using rest v connected_mncc_leg_at [OF v(3) _ l(2)] by blast
  then have "wp (sip_retrieve_call X b) (\<lambda>_. wp n Q) w" using v(1) by (simp add: wp_iff_run)
  then show ?thesis using s k by (simp add: retrieve_def wp)
qed

section \<open>The handlers\<close>

lemma close_connection_safe: "safe w \<Longrightarrow> wp (close_connection (release X)) (\<lambda>_. safe) w"
proof (cases "0 \<le> conn_fd (conn w)")
  case True
  assume s: "safe w"
  have "on_disconnect (conn w) = Some FP_app_mncc_disconnected" using safeD(4) [OF s] by (simp add: conn_ok_def)
  from close_connection_ok [OF safeD(2) [OF s] this True, of X 1]
  have "wp (close_connection (release X)) (\<lambda>_ w'. inv w' \<and> calls_drained (set (g_call_list w)) w (w'\<lparr>conn := conn w\<rparr>)) w"
    unfolding numeral_2_eq_2 One_nat_def by (rule wp_mono) blast
  then show ?thesis
    by (rule wp_mono) (use safeD(5) [OF s] in \<open>auto simp: safe_def dest: calls_drainedD(5)\<close>)
next
  case False
  assume "safe w"
  with False show ?thesis by (simp add: close_connection_def wp)
qed

lemma lookup_mncc_at:
  assumes c: "connected w" and "lookup_callref w r (g_call_list w) = Some a"
  obtains mo p where "mncc_at w a mo p"
proof -
  obtain l m where l: "legs w a = Some l" "leg_object l = Mncc_object m" using lookup_callref_Some [OF assms(2)] by blast
  then have "is_mncc l" by (simp add: is_mncc_def)
  from connected_mncc_leg_at [OF c l(1) this] that show ?thesis by (auto simp: mncc_leg_at_def)
qed

text \<open>The handlers that start with \<open>find_leg\<close>; \<open>ok\<close> is what the handler needs of the peer.\<close>

lemma on_leg_safe:
  assumes c: "connected w"
    and k: "\<And>a mo p. lookup_callref w (mncc_callref (as_mncc buf)) (g_call_list w) = Some a \<Longrightarrow> mncc_at w a mo p \<Longrightarrow>
      wp (k a) (\<lambda>_. safe) w"
  shows "wp (on_leg X buf rc k) (\<lambda>_. safe) w"
proof (cases "rc < x_sizeof_mncc X")
  case True
  have "wp (close_connection (release X)) (\<lambda>_. safe) w"
    by (rule close_connection_safe) (use c in \<open>simp add: connected_safe\<close>)
  then show ?thesis using True by (simp add: on_leg_def find_leg_def wp wp_mret_fun)
next
  case False
  show ?thesis
  proof (cases "lookup_callref w (mncc_callref (as_mncc buf)) (g_call_list w)")
    case None
    then show ?thesis using c False by (simp add: on_leg_def find_leg_def wp wp_mncc_find_leg connectedD connected_safe)
  next
    case (Some a)
    then obtain mo p where "mncc_at w a mo p" using lookup_mncc_at [OF c] by blast
    then show ?thesis using k [OF Some] Some False by (simp add: on_leg_def find_leg_def wp wp_mncc_find_leg connectedD [OF c])
  qed
qed

lemma drop_safe:
  assumes "connected v" and "mncc_leg_at v a"
  shows "wp (mncc_leg_release a) (\<lambda>_. safe) v"
proof -
  obtain l where l: "legs v a = Some l" "is_mncc l" using mncc_leg_atE [OF assms(2,1)] by blast
  show ?thesis by (rule wp_mono [OF leg_release.keeps_connected [OF assms(1) _ l]]) (simp_all add: connected_safe)
qed

lemma mncc_release_safe:
  assumes "connected v" and "mncc_leg_at v a"
  shows "wp (mncc_call_leg_release X (release X) a) (\<lambda>_. safe) v"
proof -
  obtain l where l: "legs v a = Some l" "is_mncc l" using mncc_leg_atE [OF assms(2,1)] by blast
  show ?thesis
    by (rule wp_mono [OF mncc_release.keeps_connected [OF assms(1) _ l]]) (simp_all add: connected_safe connectedD [OF assms(1)])
qed

lemma release_cause_then:
  assumes c: "connected w" and m: "mncc_at w a mo p"
    and rest: "\<And>v. connected v \<Longrightarrow> mncc_leg_at v a \<Longrightarrow> wp n Q v"
  shows "wp (mthen (release_with_cause X p cv) n) Q w"
proof (cases p)
  case None
  then show ?thesis using rest [OF c] m by (auto simp: release_with_cause_def wp)
next
  case (Some b)
  show ?thesis unfolding Some
    by (rule cause_release.on_partner [OF c m [unfolded Some]]) (use rest connectedD(2) [OF c] in auto)
qed

lemma release_cause_last:
  assumes c: "connected w" and m: "mncc_at w a mo p"
  shows "wp (release_with_cause X p cv) (\<lambda>_. safe) w"
proof -
  have "wp (mthen (release_with_cause X p cv) (mret ())) (\<lambda>_. safe) w"
    by (rule release_cause_then [OF c m]) (simp add: wp connected_safe)
  then show ?thesis unfolding wp_mthen by (rule wp_mono) (simp add: wp)
qed

section \<open>A new call\<close>

text \<open>A call with one fully set up leg, added to the state.\<close>

lemma wf_heap_new_call:
  assumes wf: "wf_heap w" and l: "leg_call l = next_addr w" and x: "initial x = Some (Suc (next_addr w))" "remote x = None"
  shows "wf_heap (w\<lparr>legs := (legs w)(Suc (next_addr w) \<mapsto> l), calls := (calls w)(next_addr w \<mapsto> x),
      g_call_list := next_addr w # g_call_list w, last_call_id := i, next_addr := Suc (Suc (next_addr w))\<rparr>)"
    (is "wf_heap ?v")
proof -
  note fr = fresh_not_allocated [OF wf]
  have "call_wf ?v c y" if "calls w c = Some y" for c y
    using wf_heapD(3) [OF wf that] fr(1) [of "Suc (next_addr w)"] by (fastforce simp: call_wf_def)
  moreover have "call_wf ?v (next_addr w) x"
    using x l by (auto simp: call_wf_def call_legs_iff)
  moreover have "leg_call k \<noteq> next_addr w" if "legs w a = Some k" for a k
    using wf_heapD(4) [OF wf that] fr(2) [of "next_addr w"] by auto
  ultimately show ?thesis
    using wf fr(1) [of "Suc (next_addr w)"] fr(2) [of "next_addr w"] x l
    by (auto simp: wf_heap_def call_legs_iff less_Suc_eq)
qed

lemma safe_new_call:
  assumes s: "safe w" and l: "leg_call l = next_addr w" "leg_ok l" "leg_mo l" "is_mncc l \<longrightarrow> 0 \<le> conn_fd (conn w)"
    and x: "initial x = Some (Suc (next_addr w))" "remote x = None"
  shows "safe (w\<lparr>legs := (legs w)(Suc (next_addr w) \<mapsto> l), calls := (calls w)(next_addr w \<mapsto> x),
      g_call_list := next_addr w # g_call_list w, last_call_id := i, next_addr := Suc (Suc (next_addr w))\<rparr>)"
    (is "safe ?v")
proof -
  note inv = safeD(2) [OF s] and wf = safeD(3) [OF s]
  have fr: "legs w (Suc (next_addr w)) = None" using fresh_not_allocated(1) [OF wf, of "Suc (next_addr w)"] by simp
  have notin: "initial y \<noteq> Some (Suc (next_addr w))" "remote y \<noteq> Some (Suc (next_addr w))" if y: "calls w d = Some y" for d y
    using wf_heap_call_leg_ex [OF wf y, of "Suc (next_addr w)"] fr by auto
  have "call_ok ?v y" if "calls w d = Some y" for d y
    using heap_invD(3) [OF inv that] notin [OF that] by (auto simp: call_ok_def)
  moreover have "call_ok ?v x" using x l(3) by (auto simp: call_ok_def)
  moreover have "\<forall>b k. legs ?v b = Some k \<longrightarrow> leg_ok k" using heap_invD(2) [OF inv] l(2) by (auto split: if_splits)
  ultimately have "heap_inv ?v"
    using wf_heap_new_call [OF wf l(1) x, of i] by (auto simp: heap_inv_def legs_ok_def)
  moreover have "conn_ok ?v" using safeD(4) [OF s] l(4) by (auto simp: conn_ok_def)
  ultimately show ?thesis using safeD(5) [OF s] by (simp add: safe_iff)
qed

text \<open>The leg of a call from the mobile network, once \<open>check_setup\<close> has filled it.\<close>

definition mo_leg :: "addr \<Rightarrow> gsm_mncc \<Rightarrow> gsm_mncc_number \<Rightarrow> call_leg" where
  "mo_leg c m num = (let l = (zero_leg c (Mncc_object (zero_mncc_leg\<lparr>callref := mncc_callref m, called := num,
         calling := mncc_calling m, imsi := mncc_imsi m, rsp_wanted := MNCC_RTP_CREATE\<rparr>)))
       \<lparr>leg_type := CALL_TYPE_MNCC, ring_call := Some FP_mncc_call_leg_ring,
        connect_call := Some FP_mncc_call_leg_connect, release_call := Some FP_mncc_call_leg_release,
        update_rtp := Some FP_update_rtp\<rparr>
     in if mncc_sdp m = [] then l else l\<lparr>rx_sdp := strlcpy SDP_SIZE (mncc_sdp m), rx_sdp_changed := True\<rparr>)"

lemma ident_mo_leg: "ident (mo_leg c m num) = mncc_identity c True"
  by (simp add: mo_leg_def Let_def ident_def mncc_identity_def zero_leg_def zero_mncc_leg_def is_mncc_def
      leg_mo_def leg_handle_def)

lemma mo_leg_ok [simp]:
  "leg_ok (mo_leg c m num)" "is_mncc (mo_leg c m num)" "leg_mo (mo_leg c m num)" "leg_call (mo_leg c m num) = c"
  using ident_mo_leg [of c m num] by (auto simp: leg_ok_def ident_def mncc_identity_def)

definition mo_call :: "u32 \<Rightarrow> addr \<Rightarrow> gcr option \<Rightarrow> call" where
  "mo_call i a g = (case g of None \<Rightarrow> created_call i a
     | Some gr \<Rightarrow> (created_call i a)\<lparr>gcr_present := True, call_gcr := gr\<rparr>)"

lemma setup_call_result:
  assumes c: "connected w"
    and fail: "\<And>m' bs i na. next_addr w \<le> na \<Longrightarrow> allocs w \<noteq> [] \<Longrightarrow> Q (w\<lparr>last_call_id := i, next_addr := na, allocs := bs,
        out := out w @ [Tx_mncc (zero_mncc\<lparr>mncc_msg_type := MNCC_REJ_REQ, mncc_callref := mncc_callref m\<rparr>)]\<rparr>)"
    and ok: "\<And>bs. Q (w\<lparr>legs := (legs w)(Suc (next_addr w) \<mapsto> mo_leg (next_addr w) m num),
        calls := (calls w)(next_addr w \<mapsto> mo_call (last_call_id w + 1) (Suc (next_addr w)) g),
        g_call_list := next_addr w # g_call_list w, last_call_id := last_call_id w + 1,
        next_addr := Suc (Suc (next_addr w)), timers := Suc (next_addr w) # removeAll (Suc (next_addr w)) (timers w),
        allocs := bs,
        out := out w @ [Tx_rtp (zero_rtp\<lparr>rtp_msg_type := MNCC_RTP_CREATE, rtp_callref := mncc_callref m\<rparr>)]\<rparr>)"
  shows "wp (setup_call X m num g) (\<lambda>_. Q) w"
proof -
  note wf = heap_invD(1) [OF connectedD(3) [OF c]]
  define K where "K = (\<lambda>p. case p of None \<Rightarrow> setup_reject X m
     | Some c \<Rightarrow> mbind (get_call c) (\<lambda>x. mbind (deref (initial x)) (\<lambda>a.
         mthen (upd_leg a (\<lambda>l. l\<lparr>connect_call := Some FP_mncc_call_leg_connect,
             ring_call := Some FP_mncc_call_leg_ring, release_call := Some FP_mncc_call_leg_release,
             update_rtp := Some FP_update_rtp\<rparr>))
         (mthen (upd_mncc a (\<lambda>ml. ml\<lparr>callref := mncc_callref m, mncc_state := MNCC_CC_INITIAL,
             mncc_direction := MNCC_DIR_MO, called := num, calling := mncc_calling m, imsi := mncc_imsi m\<rparr>))
         (mthen (call_leg_rx_sdp a (Some (mncc_sdp m)))
         (mthen (case g of None \<Rightarrow> mret ()
                 | Some gr \<Rightarrow> upd_call c (\<lambda>x. x\<lparr>gcr_present := True, call_gcr := gr\<rparr>))
         (mbind (call_leg_other a) (\<lambda>other. mbind (new_sdp other) (\<lambda>sdp.
         mthen (start_cmd_timer a MNCC_RTP_CREATE)
         (mthen (mncc_rtp_send (release X) MNCC_RTP_CREATE (mncc_callref m) sdp) (mret ())))))))))))"
  have good: "wp (K (Some (next_addr w))) (\<lambda>_. Q) ((call_added CALL_TYPE_MNCC (Mncc_object zero_mncc_leg) w)\<lparr>allocs := bs\<rparr>)"
    for bs
  proof -
    have op: "0 \<le> conn_fd (conn w)" "writes w = []" using connectedD(2) [OF c] by (simp_all add: open_conn_def)
    note ok' = ok [of bs, unfolded mo_leg_def mo_call_def zero_leg_def zero_mncc_leg_def zero_rtp_def created_call_def zero_call_def]
    show ?thesis
      using ok' op
      by (cases g; cases "mncc_sdp m = []")
        (simp_all add: K_def wp call_added_def created_leg_def created_call_def zero_leg_def zero_mncc_leg_def
        zero_call_def zero_rtp_def other_leg_def new_sdp_def start_cmd_timer_def wp_mncc_rtp_send_open open_conn_def Let_def
        SDP_SIZE_def)
  qed
  have bad: "wp (setup_reject X m) (\<lambda>_. Q) (w\<lparr>last_call_id := i, next_addr := na, allocs := bs\<rparr>)"
    if "next_addr w \<le> na" "allocs w \<noteq> []" for i na bs
    using fail [OF that] connectedD(2) [OF c] by (simp add: setup_reject_def wp wp_mncc_send_plain open_conn_def)
  have "(call_added ty ob w)\<lparr>allocs := allocs w\<rparr> = call_added ty ob w" for ty ob by (simp add: call_added_def Let_def)
  then have "wp (K (Some (next_addr w))) (\<lambda>_. Q) (call_added CALL_TYPE_MNCC (Mncc_object zero_mncc_leg) w)"
    using good [of "allocs w"] by simp
  moreover have "K None = setup_reject X m" by (simp add: K_def)
  ultimately have "wp call_mncc_create (\<lambda>p. wp (K p) (\<lambda>_. Q)) w"
    unfolding call_mncc_create_def wp_call_create [OF wf]
    using good bad [where na = "Suc (next_addr w)"] bad [where na = "next_addr w" and i = "last_call_id w"]
    by (simp add: call_not_added_def split: list.splits bool.splits)
  then show ?thesis by (simp add: setup_call_def K_def wp_mbind)
qed

lemma heap_inv_last_call_id [simp]: "heap_inv (w\<lparr>last_call_id := i\<rparr>) = heap_inv w"
  by (simp add: heap_inv_def wf_heap_def legs_ok_def call_wf_def call_ok_def)

lemma setup_reject_safe: "connected w \<Longrightarrow> wp (setup_reject X m) (\<lambda>_. safe) w"
  unfolding setup_reject_def by (rule reject.quiet_then) (simp_all add: wp connected_safe)

lemma setup_call_safe:
  assumes c: "connected w"
  shows "wp (setup_call X m num g) (\<lambda>_. safe) w"
proof (rule setup_call_result [OF c])
  have s: "safe w" using c by (simp add: connected_safe)
  fix bs i na assume "next_addr w \<le> na"
  then have "heap_inv (w\<lparr>last_call_id := i, next_addr := na\<rparr>)"
    by (intro heap_inv_next_addr) (use connectedD(3) [OF c] in simp_all)
  then have "safe (w\<lparr>last_call_id := i, next_addr := na\<rparr>)" using s by (simp add: safe_iff)
  then show "safe (w\<lparr>last_call_id := i, next_addr := na, allocs := bs, out := o'\<rparr>)" for o' by simp
next
  fix bs
  let ?a = "Suc (next_addr w)" and ?x = "mo_call (last_call_id w + 1) (Suc (next_addr w)) g"
  let ?v = "w\<lparr>legs := (legs w)(?a \<mapsto> mo_leg (next_addr w) m num), calls := (calls w)(next_addr w \<mapsto> ?x),
        g_call_list := next_addr w # g_call_list w, last_call_id := last_call_id w + 1, next_addr := Suc ?a\<rparr>"
  have s: "safe w" and fd: "0 \<le> conn_fd (conn w)" using c by (auto simp: connected_safe)
  have "safe ?v"
    by (rule safe_new_call [OF s])
       (use fd in \<open>simp_all add: mo_call_def created_call_def zero_call_def split: option.splits\<close>)
  moreover have "heap_inv (?v\<lparr>timers := ?a # removeAll ?a (timers w)\<rparr>)"
  proof (rule heap_inv_timers)
    show "heap_inv ?v" using \<open>safe ?v\<close> by (simp add: safe_iff)
    fix b assume "b \<in> set (?a # removeAll ?a (timers w))"
    then show "\<exists>l. legs ?v b = Some l \<and> is_mncc l" using wf_heapD(7) [OF safeD(3) [OF s], of b] by auto
  qed
  ultimately show "safe (w\<lparr>legs := (legs w)(?a \<mapsto> mo_leg (next_addr w) m num),
        calls := (calls w)(next_addr w \<mapsto> ?x),
        g_call_list := next_addr w # g_call_list w, last_call_id := last_call_id w + 1,
        next_addr := Suc ?a, timers := ?a # removeAll ?a (timers w), allocs := bs, out := o'\<rparr>)" for o'
    by (simp add: safe_iff)
qed

lemma check_setup_safe: "connected w \<Longrightarrow> wp (check_setup X buf rc) (\<lambda>_. safe) w"
  by (simp add: check_setup_def setup_reject_safe setup_call_safe close_connection_safe connected_safe Let_def
      split: option.splits)

section \<open>Handlers on an existing leg\<close>

lemma shape_mncc_leg_at: "shape v = shape w \<Longrightarrow> mncc_at w a mo p \<Longrightarrow> mncc_leg_at v a"
  using mncc_at_shape by blast

lemma mncc_at_live: "mncc_at w a mo p \<Longrightarrow> legs w a \<noteq> None"
  by (auto simp: mncc_at_def)

lemma mncc_at_partner_live: "connected w \<Longrightarrow> mncc_at w a mo (Some b) \<Longrightarrow> legs w b \<noteq> None"
  by (auto elim: mncc_at_partner [OF _ connectedD(3)])

lemma disc_ind_safe:
  assumes c: "connected w" and m: "mncc_at w a mo p"
  shows "wp (disc_ind X d a) (\<lambda>_. safe) w"
  unfolding disc_ind_def
proof (rule set_in_release.quiet_then [OF c mncc_at_live [OF m]])
  fix w1 assume 1: "connected w1" "shape w1 = shape w"
  show "wp (mthen (start_cmd_timer a MNCC_REL_CNF) (mthen (leg_send X MNCC_REL_REQ a)
     (mbind (call_leg_other a) (\<lambda>other. release_with_cause X other (cause_value (mncc_cause d)))))) (\<lambda>_. safe) w1"
  proof (rule start_timer.quiet_then [OF 1(1) shape_mncc_leg_at [OF 1(2) m]])
    fix w2 assume 2: "connected w2" "shape w2 = shape w1"
    then have m2: "mncc_at w2 a mo p" using 1 mncc_at_shape m by metis
    show "wp (mthen (leg_send X MNCC_REL_REQ a)
       (mbind (call_leg_other a) (\<lambda>other. release_with_cause X other (cause_value (mncc_cause d))))) (\<lambda>_. safe) w2"
    proof (rule send.quiet_then [OF 2(1) mncc_leg_atI [OF m2]])
      fix w3 assume 3: "connected w3" "shape w3 = shape w2"
      note m3 = mncc_at_shape [OF 3(2) m2]
      show "wp (mbind (call_leg_other a) (\<lambda>other. release_with_cause X other (cause_value (mncc_cause d)))) (\<lambda>_. safe) w3"
        unfolding wp_mbind mncc_at_other [OF m3] by (rule release_cause_last [OF 3(1) m3])
    qed
  qed
qed

lemma rel_ind_safe:
  assumes c: "connected w" and m: "mncc_at w a mo p"
  shows "wp (rel_ind X d a) (\<lambda>_. safe) w"
proof -
  obtain l where l: "legs w a = Some l" using mncc_at_live [OF m] by blast
  have "wp (mthen (stop_cmd_timer a MNCC_REL_IND) (mncc_leg_release a)) (\<lambda>_. safe) w"
    by (rule stop_timer.quiet_then [OF c mncc_leg_atI [OF m]]) (use m drop_safe shape_mncc_leg_at in blast)
  moreover have "wp (mthen (release_with_cause X p cv) (mncc_leg_release a)) (\<lambda>_. safe) w" for cv
    by (rule release_cause_then [OF c m drop_safe])
  ultimately show ?thesis
    using l by (simp add: rel_ind_def wp_mbind wp_get_leg wp_mthen mncc_at_other [OF m])
qed

lemma rej_ind_safe:
  assumes c: "connected w" and m: "mncc_at w a mo p"
  shows "wp (rej_ind X d a) (\<lambda>_. safe) w"
  unfolding rej_ind_def
proof (rule mncc_upd.quiet_then [OF c])
  show "(\<forall>ml. mncc_direction (mncc_leg_cause_update (\<lambda>_. cause_value (mncc_cause d)) ml) = mncc_direction ml) \<and> mncc_leg_at w a"
    using m by auto
  fix v assume v: "connected v" "shape v = shape w"
  note mv = mncc_at_shape [OF v(2) m]
  show "wp (mbind (call_leg_other a) (\<lambda>other. mthen (release_with_cause X other (cause_value (mncc_cause d)))
      (mncc_leg_release a))) (\<lambda>_. safe) v"
    unfolding wp_mbind mncc_at_other [OF mv] by (rule release_cause_then [OF v(1) mv drop_safe])
qed

lemma cnf_ind_safe:
  assumes c: "connected w" and m: "mncc_at w a mo p"
  shows "wp (cnf_ind X d a) (\<lambda>_. safe) w"
  unfolding cnf_ind_def
proof (rule rx.quiet_then [OF c mncc_at_live [OF m]])
  fix v assume v: "connected v" "shape v = shape w"
  note mv = mncc_at_shape [OF v(2) m]
  have pre: "p = None \<or> (\<exists>b. p = Some b \<and> legs v b \<noteq> None)"
    using mncc_at_partner_live [OF v(1)] mv by (cases p) auto
  have "wp (mthen (start_cmd_timer a MNCC_RTP_CREATE)
     (mthen (mncc_rtp_send (release X) MNCC_RTP_CREATE (mncc_callref d) sdp) (mret ()))) (\<lambda>_. safe) u"
    if u: "connected u" "shape u = shape v" for u sdp
  proof (rule start_timer.quiet_then [OF u(1) shape_mncc_leg_at [OF u(2) mv]])
    show "wp (mthen (mncc_rtp_send (release X) MNCC_RTP_CREATE (mncc_callref d) sdp) (mret ())) (\<lambda>_. safe) t"
      if "connected t" for t
      by (rule rtp_send.quiet_then [OF that]) (simp_all add: wp connected_safe)
  qed
  then have "wp (mbind (new_sdp p) (\<lambda>sdp. mthen (start_cmd_timer a MNCC_RTP_CREATE)
     (mthen (mncc_rtp_send (release X) MNCC_RTP_CREATE (mncc_callref d) sdp) (mret ())))) (\<lambda>_. safe) v"
    by (rule new_sdp.quiet_bind [OF v(1) pre])
  then show "wp (mbind (call_leg_other a) (\<lambda>other. mbind (new_sdp other) (\<lambda>sdp. mthen (start_cmd_timer a MNCC_RTP_CREATE)
     (mthen (mncc_rtp_send (release X) MNCC_RTP_CREATE (mncc_callref d) sdp) (mret ()))))) (\<lambda>_. safe) v"
    by (subst wp_mbind) (simp add: mncc_at_other [OF mv])
qed

lemma alrt_ind_safe:
  assumes c: "connected w" and m: "mncc_at w a mo p" and mt: "p \<noteq> None \<longrightarrow> \<not> mo"
  shows "wp (alrt_ind X d a) (\<lambda>_. safe) w"
  unfolding alrt_ind_def
proof (rule rx.quiet_then [OF c mncc_at_live [OF m]])
  fix v assume v: "connected v" "shape v = shape w"
  note mv = mncc_at_shape [OF v(2) m]
  show "wp (mbind (call_leg_other a) (\<lambda>p. case p of None \<Rightarrow> mncc_call_leg_release X (release X) a | Some b \<Rightarrow> ring X b))
      (\<lambda>_. safe) v"
  proof (cases p)
    case None
    then show ?thesis unfolding wp_mbind mncc_at_other [OF mv] using mncc_release_safe [OF v(1) mncc_leg_atI [OF mv]] by simp
  next
    case (Some b)
    have "wp (ring X b) (\<lambda>_. safe) v"
      by (rule ring.on_partner_last [OF v(1) mv [unfolded Some]]) (use mt Some in simp_all)
    then show ?thesis unfolding wp_mbind mncc_at_other [OF mv] using Some by simp
  qed
qed

lemma hold_ind_safe:
  assumes c: "connected w" and m: "mncc_at w a mo p"
  shows "wp (hold_ind X a) (\<lambda>_. safe) w"
proof (cases p)
  case None
  then show ?thesis unfolding hold_ind_def wp_mbind mncc_at_other [OF m]
    using send.quiet_last [OF c mncc_leg_atI [OF m]] by simp
next
  case (Some b)
  have "wp (mthen (hold X b) (mthen (leg_send X MNCC_HOLD_CNF a) (upd_mncc a (mncc_state_update (\<lambda>_. MNCC_CC_HOLD)))))
      (\<lambda>_. safe) w"
  proof (rule hold.on_partner [OF c m [unfolded Some]])
    fix v assume v: "connected v" "mncc_leg_at v a"
    show "wp (mthen (leg_send X MNCC_HOLD_CNF a) (upd_mncc a (mncc_state_update (\<lambda>_. MNCC_CC_HOLD)))) (\<lambda>_. safe) v"
      by (rule send.quiet_then [OF v], rule mncc_upd.quiet_last)
         (use v shape_mncc_leg_at in \<open>auto simp: mncc_leg_at_def\<close>)
  qed simp_all
  then show ?thesis unfolding hold_ind_def wp_mbind mncc_at_other [OF m] using Some by simp
qed

lemma mncc_leg_at_shape: "shape v = shape w \<Longrightarrow> mncc_leg_at w a \<Longrightarrow> mncc_leg_at v a"
  using shape_mncc_leg_at unfolding mncc_leg_at_def by blast

lemma shape_live: "shape v = shape w \<Longrightarrow> legs w b \<noteq> None \<Longrightarrow> legs v b \<noteq> None"
  using shape_leg by blast

lemma retrieve_ind_safe:
  assumes c: "connected w" and m: "mncc_at w a mo p"
  shows "wp (retrieve_ind X a) (\<lambda>_. safe) w"
proof (cases p)
  case None
  have "wp (mthen (leg_send X MNCC_RETRIEVE_CNF a) (mncc_call_leg_release X (release X) a)) (\<lambda>_. safe) w"
    by (rule send.quiet_then [OF c mncc_leg_atI [OF m]]) (use mncc_release_safe shape_mncc_leg_at m in blast)
  then show ?thesis unfolding retrieve_ind_def wp_mbind mncc_at_other [OF m] using None by simp
next
  case (Some b)
  let ?n = "mthen (upd_mncc a (mncc_state_update (\<lambda>_. MNCC_CC_CONNECTED))) (mthen (send_rtp_connect (release X) a b) (mret ()))"
  have last: "wp ?n (\<lambda>_. safe) u" if u: "connected u" "mncc_leg_at u a" "legs u b \<noteq> None" for u
  proof (rule mncc_upd.quiet_then [OF u(1)])
    fix t assume t: "connected t" "shape t = shape u"
    show "wp (mthen (send_rtp_connect (release X) a b) (mret ())) (\<lambda>_. safe) t"
      by (rule rtp_connect.quiet_then [OF t(1)])
         (use u t mncc_leg_at_shape shape_live in \<open>auto simp: wp connected_safe\<close>)
  qed (use u in simp)
  have "wp (mthen (retrieve X b) (mthen (leg_send X MNCC_RETRIEVE_CNF a) ?n)) (\<lambda>_. safe) w"
  proof (rule retrieve_partner [OF c m [unfolded Some]])
    fix v assume v: "connected v" "mncc_leg_at v a" "legs v b \<noteq> None"
    show "wp (mthen (leg_send X MNCC_RETRIEVE_CNF a) ?n) (\<lambda>_. safe) v"
      by (rule send.quiet_then [OF v(1,2)], rule last) (use v mncc_leg_at_shape shape_live in blast)+
  qed
  then show ?thesis unfolding retrieve_ind_def wp_mbind mncc_at_other [OF m] using Some by simp
qed

lemma stp_cnf_safe:
  assumes c: "connected w" and m: "mncc_at w a mo p" and mt: "p \<noteq> None \<longrightarrow> \<not> mo"
  shows "wp (stp_cnf X d a) (\<lambda>_. safe) w"
  unfolding stp_cnf_def
proof (rule rx.quiet_then [OF c mncc_at_live [OF m]])
  fix v assume v: "connected v" "shape v = shape w"
  note mv = mncc_at_shape [OF v(2) m]
  let ?n = "\<lambda>b ok. if \<not> ok then mret () else mthen (upd_mncc a (mncc_state_update (\<lambda>_. MNCC_CC_CONNECTED)))
             (mthen (leg_send X MNCC_SETUP_COMPL_REQ a) (connect X b))"
  show "wp (mbind (call_leg_other a) (\<lambda>p. case p of None \<Rightarrow> mncc_call_leg_release X (release X) a
      | Some b \<Rightarrow> mbind (send_rtp_connect (release X) a b) (?n b))) (\<lambda>_. safe) v"
  proof (cases p)
    case None
    then show ?thesis unfolding wp_mbind mncc_at_other [OF mv] using mncc_release_safe [OF v(1) mncc_leg_atI [OF mv]] by simp
  next
    case (Some b)
    note mv' = mv [unfolded Some]
    have conn: "wp (connect X b) (\<lambda>_. safe) t" if "connected t" "mncc_at t a mo (Some b)" for t
      by (rule connect.on_partner_last [OF that]) (use mt Some in simp_all)
    have step: "wp (mthen (leg_send X MNCC_SETUP_COMPL_REQ a) (connect X b)) (\<lambda>_. safe) t"
      if t: "connected t" "mncc_at t a mo (Some b)" for t
      by (rule send.quiet_then [OF t(1) mncc_leg_atI [OF t(2)]]) (use conn mncc_at_shape t(2) in blast)
    have n: "wp (?n b ok) (\<lambda>_. safe) u" if u: "connected u" "shape u = shape v" for ok u
    proof (cases ok)
      case True
      have "wp (mthen (upd_mncc a (mncc_state_update (\<lambda>_. MNCC_CC_CONNECTED)))
             (mthen (leg_send X MNCC_SETUP_COMPL_REQ a) (connect X b))) (\<lambda>_. safe) u"
        by (rule mncc_upd.quiet_then [OF u(1)])
           (use step mncc_at_shape [OF _ mncc_at_shape [OF u(2) mv']] mncc_leg_atI [OF mncc_at_shape [OF u(2) mv']] in auto)
      then show ?thesis using True by simp
    qed (use u in \<open>simp add: wp connected_safe\<close>)
    have "wp (mbind (send_rtp_connect (release X) a b) (?n b)) (\<lambda>_. safe) v"
      by (rule rtp_connect.quiet_bind [OF v(1) _ n]) (use mv mncc_at_partner_live [OF v(1) mv'] in auto)
    then show ?thesis by (subst wp_mbind) (simp only: mncc_at_other [OF mv] Some option.case)
  qed
qed

lemma rel_cnf_safe:
  assumes c: "connected w" and m: "mncc_at w a mo p"
  shows "wp (mthen (stop_cmd_timer a MNCC_REL_CNF) (mncc_leg_release a)) (\<lambda>_. safe) w"
  by (rule stop_timer.quiet_then [OF c mncc_leg_atI [OF m]]) (use m drop_safe shape_mncc_leg_at in blast)

lemma stp_cmpl_safe:
  assumes c: "connected w" and m: "mncc_at w a mo p"
  shows "wp (mthen (call_leg_rx_sdp a s) (mthen (stop_cmd_timer a r)
     (upd_mncc a (mncc_state_update (\<lambda>_. st))))) (\<lambda>_. safe) w"
proof (rule rx.quiet_then [OF c mncc_at_live [OF m]])
  fix v assume v: "connected v" "shape v = shape w"
  note mv = shape_mncc_leg_at [OF v(2) m]
  show "wp (mthen (stop_cmd_timer a r) (upd_mncc a (mncc_state_update (\<lambda>_. st)))) (\<lambda>_. safe) v"
    by (rule stop_timer.quiet_then [OF v(1) mv], rule mncc_upd.quiet_last) (use mv mncc_leg_at_shape in auto)
qed

interpretation dtmf_rsp: quiet_op "dtmf_rsp X t d a" "\<lambda>w. mncc_leg_at w a \<and> t \<noteq> MNCC_DISC_REQ \<and> t \<noteq> MNCC_REL_REQ" for X t d a
proof
  fix w assume w: "connected w" "mncc_leg_at w a \<and> t \<noteq> MNCC_DISC_REQ \<and> t \<noteq> MNCC_REL_REQ"
  then obtain l m where "legs w a = Some l" "leg_object l = Mncc_object m" by (blast elim: mncc_leg_atE)
  then show "wp (dtmf_rsp X t d a) (\<lambda>_ v. connected v \<and> shape v = shape w) w"
    using w by (auto simp: dtmf_rsp_def mncc_fill_header_def wp wp_mncc_write_open connectedD)
qed

lemma dtmf_start_safe:
  assumes c: "connected w" and m: "mncc_at w a mo p"
  shows "wp (dtmf_start X d a) (\<lambda>_. safe) w"
  unfolding dtmf_start_def
proof (rule rx.quiet_then [OF c mncc_at_live [OF m]])
  fix v assume v: "connected v" "shape v = shape w"
  note mv = mncc_at_shape [OF v(2) m]
  have rsp: "wp (dtmf_rsp X MNCC_START_DTMF_RSP d a) (\<lambda>_. safe) u" if "connected u" "mncc_leg_at u a" for u
    by (rule dtmf_rsp.quiet_last [OF that(1)]) (use that in simp)
  have "wp (mthen (case p of None \<Rightarrow> mret () | Some b \<Rightarrow> send_dtmf b (mncc_keypad d)) (dtmf_rsp X MNCC_START_DTMF_RSP d a))
      (\<lambda>_. safe) v"
  proof (cases p)
    case None
    then show ?thesis using rsp [OF v(1) mncc_leg_atI [OF mv]] by (simp add: wp)
  next
    case (Some b)
    have "wp (mthen (send_dtmf b (mncc_keypad d)) (dtmf_rsp X MNCC_START_DTMF_RSP d a)) (\<lambda>_. safe) v"
      by (rule send_dtmf.on_partner [OF v(1) mv [unfolded Some]]) (use rsp in simp_all)
    then show ?thesis using Some by simp
  qed
  then show "wp (mbind (call_leg_other a) (\<lambda>p. mthen (case p of None \<Rightarrow> mret () | Some b \<Rightarrow> send_dtmf b (mncc_keypad d))
       (dtmf_rsp X MNCC_START_DTMF_RSP d a))) (\<lambda>_. safe) v"
    by (subst wp_mbind) (simp only: mncc_at_other [OF mv])
qed

lemma dtmf_stop_safe:
  assumes c: "connected w" and m: "mncc_at w a mo p"
  shows "wp (mthen (call_leg_rx_sdp a s) (dtmf_rsp X MNCC_STOP_DTMF_RSP d a)) (\<lambda>_. safe) w"
  by (rule rx.quiet_then [OF c mncc_at_live [OF m]], rule dtmf_rsp.quiet_last) (use m shape_mncc_leg_at in auto)

lemma check_hello_safe: "connected w \<Longrightarrow> wp (check_hello X buf rc) (\<lambda>_. safe) w"
  by (auto simp: check_hello_def wp connected_safe safe_iff conn_ok_def close_connection_safe)

section \<open>RTP messages\<close>

lemma wp_find_not_released:
  assumes c: "connected w"
  shows "wp (mncc_find_leg_not_released r) Q w = (case lookup_callref w r (g_call_list w) of None \<Rightarrow> Q None w
     | Some a \<Rightarrow> Q (if in_release (the (legs w a)) then None else Some a) w)"
proof (cases "lookup_callref w r (g_call_list w)")
  case (Some a)
  then obtain l where "legs w a = Some l" using lookup_callref_Some by blast
  then show ?thesis using Some by (simp add: mncc_find_leg_not_released_def wp wp_mncc_find_leg connectedD [OF c])
qed (simp add: mncc_find_leg_not_released_def wp wp_mncc_find_leg connectedD [OF c])

lemma with_rtp_leg_safe:
  assumes c: "connected w"
    and k: "\<And>a mo p. lookup_callref w r (g_call_list w) = Some a \<Longrightarrow> mncc_at w a mo p \<Longrightarrow> wp (k a) (\<lambda>_. safe) w"
  shows "wp (if rc < sizeof_rtp then close_connection (release X) else
     mbind (mncc_find_leg_not_released r) (\<lambda>p. case p of
         None \<Rightarrow> mthen (mncc_send X (release X) MNCC_REJ_REQ r) (mret ()) | Some a \<Rightarrow> k a)) (\<lambda>_. safe) w"
proof -
  have rej: "wp (mthen (mncc_send X (release X) MNCC_REJ_REQ r) (mret ())) (\<lambda>_. safe) w"
    by (rule reject.quiet_then [OF c]) (simp_all add: wp connected_safe)
  have cl: "wp (close_connection (release X)) (\<lambda>_. safe) w"
    by (rule close_connection_safe) (use c in \<open>simp add: connected_safe\<close>)
  have "wp (k a) (\<lambda>_. safe) w" if "lookup_callref w r (g_call_list w) = Some a" for a
    using lookup_mncc_at [OF c that] k [OF that] by blast
  then show ?thesis
    using rej cl by (auto simp: wp_mbind wp_find_not_released [OF c] split: option.splits)
qed

lemma release_a_safe: "connected v \<Longrightarrow> mncc_leg_at v a \<Longrightarrow> wp (release X a) (\<lambda>_. safe) v"
proof -
  assume v: "connected v" "mncc_leg_at v a"
  then obtain l where l: "legs v a = Some l" "is_mncc l" by (blast elim: mncc_leg_atE)
  have "\<not> bare l" using leg_ok_mncc(10) [OF heap_invD(2) [OF connectedD(3) [OF v(1)] l(1)] l(2)] .
  from release_connected [OF v(1) l(1) this] show ?thesis by (rule wp_mono) (simp add: connected_safe)
qed

lemma check_rtp_connect_safe:
  assumes c: "connected w"
  shows "wp (check_rtp_connect X buf rc) (\<lambda>_. safe) w"
  unfolding check_rtp_connect_def Let_def
proof (rule with_rtp_leg_safe [OF c])
  fix a mo p assume m: "mncc_at w a mo p"
  let ?both = "mbind (call_leg_other a) (\<lambda>other. mthen (release_ptr (release X) other) (release X a))"
  have both: "wp ?both (\<lambda>_. safe) v" if v: "connected v" "mncc_at v a mo p" for v
  proof -
    have "wp (mthen (release_ptr (release X) p) (release X a)) (\<lambda>_. safe) v"
    proof (cases p)
      case None
      then show ?thesis using release_a_safe [OF v(1) mncc_leg_atI [OF v(2)]] by (simp add: release_ptr_def wp)
    next
      case (Some b)
      have "wp (mthen (release_leg X (Suc 1) b) (release X a)) (\<lambda>_. safe) v"
        by (rule release.on_partner [OF v(1) v(2) [unfolded Some]]) (use connectedD(2) [OF v(1)] release_a_safe in auto)
      then show ?thesis using Some by (simp only: release_ptr_def option.case numeral_2_eq_2 One_nat_def)
    qed
    then show ?thesis by (subst wp_mbind) (simp only: mncc_at_other [OF v(2)])
  qed
  show "wp (mthen (call_leg_rx_sdp a (Some (rtp_sdp (as_rtp buf))))
           (if ss_family (rtp_addr (as_rtp buf)) \<noteq> AF_UNSPEC \<or> x_sockaddr_port X (rtp_addr (as_rtp buf)) \<noteq> 0
               \<or> rtp_payload_type (as_rtp buf) \<noteq> 0
            then mret () else ?both)) (\<lambda>_. safe) w"
    by (rule rx.quiet_then [OF c mncc_at_live [OF m]])
       (use both mncc_at_shape m in \<open>auto simp: wp_mret_fun connected_safe split: if_splits\<close>)
qed

text \<open>A call from the mobile network is routed to SIP.\<close>

lemma mncc_at_routable:
  assumes c: "connected w" and m: "mncc_at w a True None"
  obtains l where "legs w a = Some l" and "routable w (leg_call l) a"
proof -
  note inv = connectedD(3) [OF c]
  obtain l x where l: "legs w a = Some l" "\<not> bare l" "leg_mo l" "calls w (leg_call l) = Some x" "other_leg a x = None"
    using mncc_atE [OF m inv] by blast
  have "initial x = Some a \<or> remote x = Some a" using wf_heap_leg_call [OF heap_invD(1) [OF inv] l(1)] l(4) by force
  moreover have "remote x \<noteq> Some a" using heap_invD(3) [OF inv l(4)] l(1,3) by (auto simp: call_ok_def)
  ultimately have "initial x = Some a" "remote x = None" using l(5) by (auto simp: other_leg_def)
  then show ?thesis using that l c by (auto simp: routable_def connected_safe)
qed

lemma continue_mo_call_safe:
  assumes c: "connected w" and m: "mncc_at w a True None"
  shows "wp (continue_mo_call X a) (\<lambda>_. safe) w"
proof -
  obtain l ml where l: "legs w a = Some l" "leg_object l = Mncc_object ml"
    using mncc_leg_atE [OF mncc_leg_atI [OF m] c] by blast
  let ?l = "l\<lparr>leg_object := Mncc_object (ml\<lparr>mncc_state := MNCC_CC_PROCEEDING\<rparr>)\<rparr>"
  let ?v = "\<lambda>bs. w\<lparr>legs := (legs w)(a \<mapsto> ?l), allocs := bs,
     out := out w @ [Tx_mncc (zero_mncc\<lparr>mncc_msg_type := MNCC_CALL_PROC_REQ, mncc_callref := callref ml\<rparr>)]\<rparr>"
  have i: "ident ?l = ident l" using l(2) by simp
  have "wp (app_route_call X (leg_call l) s d) (\<lambda>_. safe) (?v bs)"
    if s: "\<And>t. s = Some t \<Longrightarrow> str_owner t = a" "\<And>t. d = Some t \<Longrightarrow> str_owner t = a" for s d bs
  proof -
    have "shape (?v bs) = shape w" using l i by simp
    then have "mncc_at (?v bs) a True None" using mncc_at_shape m by blast
    moreover have "connected (?v bs)" using connected_upd [OF c l(1) i] by simp
    ultimately have "routable (?v bs) (leg_call l) a" using mncc_at_routable [of "?v bs" a] by auto
    then show ?thesis
      by (rule wp_mono [OF app_route_call_safe [where i = a]]) (erule s, erule s, erule conjunct1)
  qed
  note go = this [simplified] this [where bs = "allocs w", simplified]
  show ?thesis
    using l connectedD(2) [OF c]
    by (auto simp: continue_mo_call_def talloc_str_def wp wp_mncc_send_plain split: list.splits intro!: go)
qed

lemma continue_call_safe:
  assumes c: "connected w" and m: "mncc_at w a mo p" and mo: "mo \<longrightarrow> p = None"
  shows "wp (continue_call X a) (\<lambda>_. safe) w"
proof -
  obtain l ml where l: "legs w a = Some l" "leg_object l = Mncc_object ml" "leg_mo l = mo"
    using mncc_atE [OF m connectedD(3) [OF c]] by blast
  have d: "(mncc_direction ml = MNCC_DIR_MO) = mo" using l(2,3) by (simp add: leg_mo_def)
  have mt: "wp (continue_mt_call a) (\<lambda>_. safe) w"
  proof (cases p)
    case None
    then show ?thesis unfolding continue_mt_call_def wp_mbind mncc_at_other [OF m]
      using c by (simp add: wp_mret_fun connected_safe)
  next
    case (Some b)
    show ?thesis unfolding continue_mt_call_def wp_mbind mncc_at_other [OF m]
      using set_payload.quiet_last [OF c mncc_at_partner_live [OF c m [unfolded Some]]] Some l
      by (simp add: wp_mbind wp_get_leg)
  qed
  show ?thesis
    using continue_mo_call_safe [OF c] m mo mt l d by (auto simp: continue_call_def wp_mbind wp_get_mncc)
qed

lemma check_rtp_create_safe:
  assumes c: "connected w"
    and ok: "\<And>a p. lookup_callref w (rtp_callref (as_rtp buf)) (g_call_list w) = Some a \<Longrightarrow> mncc_at w a True p \<Longrightarrow> p = None"
  shows "wp (check_rtp_create X buf rc) (\<lambda>_. safe) w"
  unfolding check_rtp_create_def Let_def
proof (rule with_rtp_leg_safe [OF c])
  fix a mo p assume a: "lookup_callref w (rtp_callref (as_rtp buf)) (g_call_list w) = Some a" and m: "mncc_at w a mo p"
  have mo: "mo \<longrightarrow> p = None" using ok [OF a] m by (cases mo) auto
  have stop: "wp (mthen (stop_cmd_timer a MNCC_RTP_CREATE) (continue_call X a)) (\<lambda>_. safe) v"
    if v: "connected v" "mncc_at v a mo p" for v
    by (rule stop_timer.quiet_then [OF v(1) mncc_leg_atI [OF v(2)]]) (use continue_call_safe mncc_at_shape v(2) mo in blast)
  have sdp: "wp (mthen (call_leg_rx_sdp a s) (mthen (stop_cmd_timer a MNCC_RTP_CREATE) (continue_call X a))) (\<lambda>_. safe) v"
    if v: "connected v" "mncc_at v a mo p" for v s
    by (rule rx.quiet_then [OF v(1) mncc_at_live [OF v(2)]]) (use stop mncc_at_shape v(2) in blast)
  show "wp (mthen (upd_leg a (\<lambda>l. l\<lparr>leg_addr := rtp_addr (as_rtp buf), payload_type := rtp_payload_type (as_rtp buf),
               payload_msg_type := rtp_payload_msg_type (as_rtp buf)\<rparr>))
           (mthen (call_leg_rx_sdp a (Some (rtp_sdp (as_rtp buf))))
           (mthen (stop_cmd_timer a MNCC_RTP_CREATE) (continue_call X a)))) (\<lambda>_. safe) w"
    by (rule set_rtp.quiet_then [OF c mncc_at_live [OF m]]) (use sdp mncc_at_shape m in blast)
qed

section \<open>The dispatcher\<close>

text \<open>
  What the connector relies on from the MSC: it reports alerting and answer only for calls to
  the mobile, and it creates the RTP connection of a call from the mobile only once.
\<close>

definition msc_conforms :: "world \<Rightarrow> mncc_buf \<Rightarrow> bool" where
  "msc_conforms w buf =
     ((as_msg_type buf = MNCC_ALERT_IND \<or> as_msg_type buf = MNCC_SETUP_CNF \<longrightarrow>
        (\<forall>a mo b. lookup_callref w (mncc_callref (as_mncc buf)) (g_call_list w) = Some a
           \<and> mncc_at w a mo (Some b) \<longrightarrow> \<not> mo))
      \<and> (as_msg_type buf = MNCC_RTP_CREATE \<longrightarrow>
        (\<forall>a p. lookup_callref w (rtp_callref (as_rtp buf)) (g_call_list w) = Some a
           \<and> mncc_at w a True p \<longrightarrow> p = None)))"

lemmas handler_safe = check_hello_safe check_setup_safe check_rtp_connect_safe disc_ind_safe rel_ind_safe
  rej_ind_safe rel_cnf_safe stp_cmpl_safe cnf_ind_safe hold_ind_safe retrieve_ind_safe dtmf_start_safe dtmf_stop_safe

lemmas handler_defs = check_disc_ind_def check_rel_ind_def check_rej_ind_def check_rel_cnf_def
  check_stp_cmpl_ind_def check_cnf_ind_def check_hold_ind_def check_retrieve_ind_def check_dtmf_start_def check_dtmf_stop_def

lemma wp_ifI: "(b \<Longrightarrow> wp m Q w) \<Longrightarrow> (\<not> b \<Longrightarrow> wp n Q w) \<Longrightarrow> wp (if b then m else n) Q w"
  by simp

lemma mncc_data_safe:
  assumes c: "connected w" and ok: "msc_conforms w buf"
  shows "wp (mncc_data X buf rc) (\<lambda>_. safe) w"
proof -
  have cl: "wp (close_connection (release X)) (\<lambda>_. safe) w"
    by (rule close_connection_safe) (use c in \<open>simp add: connected_safe\<close>)
  have ring: "wp (check_alrt_ind X buf rc) (\<lambda>_. safe) w" if "as_msg_type buf = MNCC_ALERT_IND"
    unfolding check_alrt_ind_def
  proof (rule on_leg_safe [OF c])
    fix a mo p assume "lookup_callref w (mncc_callref (as_mncc buf)) (g_call_list w) = Some a" and m: "mncc_at w a mo p"
    then have "p \<noteq> None \<longrightarrow> \<not> mo" using ok that unfolding msc_conforms_def by blast
    then show "wp (alrt_ind X (as_mncc buf) a) (\<lambda>_. safe) w" by (rule alrt_ind_safe [OF c m])
  qed
  have answer: "wp (check_stp_cnf X buf rc) (\<lambda>_. safe) w" if "as_msg_type buf = MNCC_SETUP_CNF"
    unfolding check_stp_cnf_def
  proof (rule on_leg_safe [OF c])
    fix a mo p assume "lookup_callref w (mncc_callref (as_mncc buf)) (g_call_list w) = Some a" and m: "mncc_at w a mo p"
    then have "p \<noteq> None \<longrightarrow> \<not> mo" using ok that unfolding msc_conforms_def by blast
    then show "wp (stp_cnf X (as_mncc buf) a) (\<lambda>_. safe) w" by (rule stp_cnf_safe [OF c m])
  qed
  have create: "wp (check_rtp_create X buf rc) (\<lambda>_. safe) w" if "as_msg_type buf = MNCC_RTP_CREATE"
    by (rule check_rtp_create_safe [OF c]) (use ok that in \<open>unfold msc_conforms_def, blast\<close>)
  have others: "wp (check_disc_ind X buf rc) (\<lambda>_. safe) w" "wp (check_rel_ind X buf rc) (\<lambda>_. safe) w"
    "wp (check_rej_ind X buf rc) (\<lambda>_. safe) w" "wp (check_rel_cnf X buf rc) (\<lambda>_. safe) w"
    "wp (check_stp_cmpl_ind X buf rc) (\<lambda>_. safe) w" "wp (check_cnf_ind X buf rc) (\<lambda>_. safe) w"
    "wp (check_hold_ind X buf rc) (\<lambda>_. safe) w" "wp (check_retrieve_ind X buf rc) (\<lambda>_. safe) w"
    "wp (check_dtmf_start X buf rc) (\<lambda>_. safe) w" "wp (check_dtmf_stop X buf rc) (\<lambda>_. safe) w"
    unfolding handler_defs by (rule on_leg_safe [OF c], rule handler_safe [OF c], assumption)+
  have none: "wp (mret ()) (\<lambda>_. safe) w" using c by (simp add: wp connected_safe)
  show ?thesis
    unfolding mncc_data_def Let_def
    by (intro wp_ifI)
       (rule cl none others check_hello_safe [OF c] check_setup_safe [OF c] check_rtp_connect_safe [OF c]
        | rule ring answer create, assumption)+
qed

end
