(* ===== verification/Mncc_Properties.thy ===== *)
theory Mncc_Properties
  imports Handler_Safety
begin

text \<open>
  The properties of the MNCC side as a whole: how deep releases nest, what a release and the
  handlers do on a working connection, and what happens when a write fails or the MSC does not
  keep to the protocol.
\<close>

section \<open>Nesting of releases\<close>

declare release_leg.simps [simp del]

text \<open>Operations that leave the connection alone and do not release through a pointer.\<close>

definition keeps_conn :: "'a io \<Rightarrow> bool" where
  "keeps_conn m = (\<forall>w. case m w of Inl f \<Rightarrow> f \<noteq> Out_of_depth | Inr (_, w') \<Rightarrow> conn w' = conn w)"

lemma keeps_connD: "keeps_conn m \<Longrightarrow> m w = Inr (r, w') \<Longrightarrow> conn w' = conn w"
  "keeps_conn m \<Longrightarrow> m w \<noteq> Inl Out_of_depth"
  by (auto simp: keeps_conn_def dest: spec [of _ w] split: sum.splits)

lemma keeps_conn_bind [intro]:
  assumes "keeps_conn m" and "\<And>x. keeps_conn (k x)"
  shows "keeps_conn (mbind m k)"
  unfolding keeps_conn_def
proof
  fix w
  show "case mbind m k w of Inl f \<Rightarrow> f \<noteq> Out_of_depth | Inr (_, w') \<Rightarrow> conn w' = conn w"
  proof (cases "m w")
    case (Inl f)
    then show ?thesis using keeps_connD(2) [OF assms(1), of w] by (simp add: mbind_def)
  next
    case (Inr p)
    obtain r v where p: "p = (r, v)" by (cases p)
    have "conn v = conn w" using keeps_connD(1) [OF assms(1)] Inr p by blast
    then show ?thesis
      using assms(2) [of r, unfolded keeps_conn_def] Inr p
      by (auto simp: mbind_def dest!: spec [of _ v] split: sum.splits)
  qed
qed

lemma keeps_conn_then [intro]: "keeps_conn m \<Longrightarrow> keeps_conn n \<Longrightarrow> keeps_conn (mthen m n)"
  unfolding mthen_def by (rule keeps_conn_bind)

lemma keeps_conn_basic [intro, simp]:
  "keeps_conn (mret x)" "keeps_conn (get_leg a)" "keeps_conn (get_call c)" "keeps_conn (upd_leg a f)"
  "keeps_conn (upd_call c g)" "keeps_conn (emit act)" "keeps_conn (mget h)" "keeps_conn (llist_del c)"
  "keeps_conn (massert b)" "keeps_conn (mfail Bad_cast)" "keeps_conn (mfail Null_call)"
  by (auto simp: keeps_conn_def monad_defs get_leg_def get_call_def upd_leg_def upd_call_def emit_def
      llist_del_def split: option.splits)

lemma keeps_conn_when [intro]: "keeps_conn m \<Longrightarrow> keeps_conn (mwhen b m)"
  by (simp add: mwhen_def)

lemma keeps_conn_free [intro, simp]: "keeps_conn (talloc_free_leg a)" "keeps_conn (talloc_free_call c)" "keeps_conn (timer_del a)"
  by (auto simp: keeps_conn_def monad_defs get_leg_def get_call_def talloc_free_leg_def talloc_free_call_def timer_del_def split: option.splits)

lemma keeps_conn_casts [intro, simp]: "keeps_conn (get_sip a)" "keeps_conn (get_mncc a)"
  unfolding get_sip_def get_mncc_def by (rule keeps_conn_bind; auto split: leg_object.splits)+

lemma keeps_conn_if: "keeps_conn m \<Longrightarrow> keeps_conn n \<Longrightarrow> keeps_conn (if b then m else n)"
  by simp

lemmas keeps_conn_rules = keeps_conn_bind keeps_conn_then keeps_conn_when keeps_conn_if keeps_conn_basic
  keeps_conn_free keeps_conn_casts

lemma keeps_conn_call_leg_release: "keeps_conn (call_leg_release a)"
  unfolding call_leg_release_def call_leg_free_def by (intro keeps_conn_rules)

lemma keeps_conn_sip_release: "keeps_conn (sip_release_call a)"
  unfolding sip_release_call_def mseq.simps
  by (intro keeps_conn_rules) (auto split: sip_cc_state.splits intro!: keeps_conn_rules keeps_conn_call_leg_release)

lemma keeps_conn_leg_release: "keeps_conn (mncc_leg_release a)"
  unfolding mncc_leg_release_def by (intro keeps_conn_rules keeps_conn_call_leg_release)

text \<open>On a connection that is not ready the depth does not matter.\<close>

lemma release_not_ready:
  assumes "conn_state (conn w) \<noteq> MNCC_READY"
  shows "release_leg X (Suc n) a w = release_leg X (Suc 0) a w"
    and "release_leg X (Suc n) a w \<noteq> Inl Out_of_depth"
    and "release_leg X (Suc n) a w = Inr (r, w') \<Longrightarrow> conn w' = conn w"
proof -
  let ?m = "mbind (get_leg a) (\<lambda>l. case release_call l of
       None \<Rightarrow> mfail Null_call
     | Some f \<Rightarrow> (if f = FP_sip_release_call then sip_release_call a
                 else if f = FP_mncc_call_leg_release then
                   mthen (massert (leg_type l = CALL_TYPE_MNCC)) (mthen (get_mncc a) (mncc_leg_release a))
                 else mfail Bad_cast))"
  have eq: "release_leg X (Suc k) a w = ?m w" for k
    using assms by (auto simp: release_leg.simps mncc_call_leg_release_def monad_defs get_leg_def get_mncc_def
        split: option.splits sum.splits leg_object.splits)
  have "keeps_conn ?m"
    by (intro keeps_conn_bind keeps_conn_basic)
       (auto split: option.splits intro!: keeps_conn_rules keeps_conn_sip_release keeps_conn_leg_release)
  then show "release_leg X (Suc n) a w = release_leg X (Suc 0) a w" "release_leg X (Suc n) a w \<noteq> Inl Out_of_depth"
    "release_leg X (Suc n) a w = Inr (r, w') \<Longrightarrow> conn w' = conn w"
    using eq [of n] eq [of 0] keeps_connD [of ?m w] by simp_all
qed

text \<open>Two programs that run alike from a state and do not run out of depth; the second version
  also keeps the connection.\<close>

definition alike :: "'a io \<Rightarrow> 'a io \<Rightarrow> world \<Rightarrow> bool" where
  "alike m m' w = (m w = m' w \<and> m w \<noteq> Inl Out_of_depth)"

definition alike_conn :: "'a io \<Rightarrow> 'a io \<Rightarrow> world \<Rightarrow> bool" where
  "alike_conn m m' w = (alike m m' w \<and> (\<forall>r w'. m w = Inr (r, w') \<longrightarrow> conn w' = conn w))"

lemma keeps_conn_alike: "keeps_conn m \<Longrightarrow> alike_conn m m w"
  using keeps_connD [of m w] by (auto simp: alike_conn_def alike_def)

lemma alike_bind:
  assumes "alike m m' w" and "\<And>r v. alike (k r) (k' r) v"
  shows "alike (mbind m k) (mbind m' k') w"
proof -
  have e: "m' w = m w" "m w \<noteq> Inl Out_of_depth" using assms(1) by (auto simp: alike_def)
  show ?thesis
  proof (cases "m w")
    case (Inl f)
    then show ?thesis using e by (simp add: alike_def mbind_def)
  next
    case (Inr p)
    then show ?thesis using e assms(2) [of "fst p" "snd p"] by (cases p) (auto simp: alike_def mbind_def)
  qed
qed

lemma alike_then: "alike m m' w \<Longrightarrow> (\<And>v. alike n n' v) \<Longrightarrow> alike (mthen m n) (mthen m' n') w"
  unfolding mthen_def by (rule alike_bind)

lemma alike_conn_bind:
  assumes m: "alike_conn m m' w" and k: "\<And>r v. conn v = conn w \<Longrightarrow> alike_conn (k r) (k' r) v"
  shows "alike_conn (mbind m k) (mbind m' k') w"
proof (cases "m w")
  case (Inl f)
  then have "m' w = Inl f" "f \<noteq> Out_of_depth" using m by (auto simp: alike_conn_def alike_def)
  then show ?thesis using Inl by (simp add: alike_conn_def alike_def mbind_def)
next
  case (Inr p)
  obtain r v where p: "p = (r, v)" by (cases p)
  then have v: "conn v = conn w" "m' w = Inr (r, v)" using m Inr by (auto simp: alike_conn_def alike_def)
  then show ?thesis using k [OF v(1), of r] Inr p by (auto simp: alike_conn_def alike_def mbind_def)
qed

lemma alike_conn_then: "alike_conn m m' w \<Longrightarrow> (\<And>v. conn v = conn w \<Longrightarrow> alike_conn n n' v) \<Longrightarrow>
    alike_conn (mthen m n) (mthen m' n') w"
  unfolding mthen_def by (rule alike_conn_bind)

lemma keeps_conn_is_mncc_ptr: "keeps_conn (is_mncc_ptr p)"
  unfolding is_mncc_ptr_def by (auto split: option.splits intro!: keeps_conn_rules)

lemma disconnect_calls_alike:
  assumes "conn_state (conn w) \<noteq> MNCC_READY"
  shows "alike_conn (disconnect_calls (release_leg X (Suc n)) cs) (disconnect_calls (release_leg X (Suc 0)) cs) w"
  using assms
proof (induction cs arbitrary: w)
  case Nil
  show ?case by (simp add: keeps_conn_alike)
next
  case (Cons c cs)
  have rel: "alike_conn (release_ptr (release_leg X (Suc n)) p) (release_ptr (release_leg X (Suc 0)) p) v"
    if "conn_state (conn v) \<noteq> MNCC_READY" for p v
  proof (cases p)
    case None
    then show ?thesis using keeps_conn_alike [OF keeps_conn_basic(1)] by (simp add: release_ptr_def)
  next
    case (Some b)
    then show ?thesis using release_not_ready [OF that, of X n b] by (auto simp: release_ptr_def alike_conn_def alike_def)
  qed
  show ?case
    unfolding disconnect_calls.simps
    by (intro alike_conn_bind keeps_conn_alike keeps_conn_basic keeps_conn_is_mncc_ptr)
       (use Cons in \<open>auto intro!: alike_conn_then rel\<close>)
qed

lemma close_connection_alike:
  "alike (close_connection (release_leg X (Suc n))) (close_connection (release_leg X (Suc 0))) w"
proof (cases "conn_fd (conn w) < 0")
  case True
  then show ?thesis by (simp add: alike_def close_connection_def monad_defs)
next
  case False
  let ?v = "w\<lparr>conn := (conn w)\<lparr>conn_fd := -1, reconnect_pending := True, conn_state := MNCC_DISCONNECTED\<rparr>\<rparr>"
  have "alike_conn (disconnect_calls (release_leg X (Suc n)) (g_call_list w)) (disconnect_calls (release_leg X (Suc 0)) (g_call_list w)) ?v"
    by (rule disconnect_calls_alike) simp
  then have d: "alike (disconnect_calls (release_leg X (Suc n)) (g_call_list w)) (disconnect_calls (release_leg X (Suc 0)) (g_call_list w)) ?v"
    by (simp add: alike_conn_def)
  have run: "close_connection rel w = (case on_disconnect (conn w) of None \<Rightarrow> Inr ((), ?v)
      | Some _ \<Rightarrow> disconnect_calls rel (g_call_list w) ?v)" for rel
    using False by (simp add: close_connection_def app_mncc_disconnected_def monad_defs split: option.splits)
  show ?thesis
  proof (cases "on_disconnect (conn w)")
    case None
    then show ?thesis by (simp add: alike_def run)
  next
    case (Some f)
    show ?thesis using d unfolding alike_def run Some option.case .
  qed
qed

lemma keeps_conn_deref: "keeps_conn (deref p)"
  by (auto simp: keeps_conn_def deref_def monad_defs split: option.splits)

lemma keeps_conn_find: "keeps_conn (mncc_find_leg r)"
proof -
  have has: "keeps_conn (leg_has_callref r p)" for p
    unfolding leg_has_callref_def by (auto split: option.splits intro!: keeps_conn_rules)
  have "keeps_conn (find_callref r cs)" for cs
  proof (induction cs)
    case (Cons c cs)
    then show ?case unfolding find_callref.simps by (intro keeps_conn_rules has)
  qed simp
  then show ?thesis unfolding mncc_find_leg_def by (intro keeps_conn_rules)
qed

lemma mncc_send_alike:
  "alike (mncc_send X (release_leg X (Suc n)) t r) (mncc_send X (release_leg X (Suc 0)) t r) w"
proof -
  have refl: "alike m m v" if "keeps_conn m" for m :: "'a io" and v
    using keeps_conn_alike [OF that] by (simp add: alike_conn_def)
  have sock: "alike (sock_write k y) (sock_write k y) v" for k y v
    by (auto simp: alike_def sock_write_def split: list.splits)
  have fill: "keeps_conn (mncc_fill_header m t r)" for m
    unfolding mncc_fill_header_def Let_def by (intro keeps_conn_rules keeps_conn_find keeps_conn_deref)
  show ?thesis unfolding mncc_send_def mncc_write_def mwhen_def
    by (intro alike_bind refl [OF fill] sock) (auto intro!: alike_then refl close_connection_alike)
qed

lemma mncc_call_leg_release_alike:
  "alike (mncc_call_leg_release X (release_leg X (Suc n)) a) (mncc_call_leg_release X (release_leg X (Suc 0)) a) w"
proof -
  have refl: "alike m m v" if "keeps_conn m" for m :: "'a io" and v
    using keeps_conn_alike [OF that] by (simp add: alike_conn_def)
  have if_alike: "alike m m' v \<Longrightarrow> alike n n' v \<Longrightarrow> alike (if b then m else n) (if b then m' else n') v"
    for m m' n n' :: "unit io" and b v by simp
  have timer: "keeps_conn (start_cmd_timer a r)" for r
    by (auto simp: keeps_conn_def start_cmd_timer_def upd_mncc_def get_mncc_def get_leg_def upd_leg_def timer_schedule_def
        monad_defs split: option.splits leg_object.splits sum.splits)
  show ?thesis unfolding mncc_call_leg_release_def
    by (intro alike_bind alike_then if_alike mncc_send_alike)
       (rule refl, intro keeps_conn_rules keeps_conn_leg_release timer)+
qed

text \<open>
  C21. The nesting of releases is bounded: whatever the state, releasing a leg never nests more
  than two releases (a release whose write fails closes the connection and releases the legs of
  all calls, and these releases do not write). Allowing more nesting changes nothing.
\<close>

theorem release_depth_bounded:
  "release_leg X (Suc (Suc n)) a w = release X a w \<and> release X a w \<noteq> Inl Out_of_depth"
proof -
  have "alike (release_leg X (Suc (Suc k)) a) (release_leg X (Suc (Suc 0)) a) w" for k
    unfolding release_leg.simps(2) [of X "Suc k" a] release_leg.simps(2) [of X "Suc 0" a]
    by (rule alike_bind)
       (auto split: option.splits intro!: mncc_call_leg_release_alike keeps_conn_rules keeps_conn_sip_release
         keeps_conn_alike [unfolded alike_conn_def, THEN conjunct1])
  from this [of n] this [of 0] show ?thesis by (simp add: alike_def numeral_2_eq_2)
qed

section \<open>Releasing an MNCC leg\<close>

lemma mncc_release_reject:
  assumes "heap_inv w" and "open_conn w" and "legs w a = Some l" and "leg_object l = Mncc_object m"
  shows "wp (mthen (mncc_send X rel MNCC_REJ_REQ (callref m)) (mthen (timer_del a) (mncc_leg_release a)))
     (\<lambda>_ w'. heap_inv w' \<and> out w' = out w @ [Tx_mncc (zero_mncc\<lparr>mncc_msg_type := MNCC_REJ_REQ, mncc_callref := callref m\<rparr>)]
        \<and> legs w' a = None \<and> a \<notin> set (timers w')) w"
proof -
  have im: "is_mncc l" using assms(4) by (simp add: is_mncc_def)
  obtain x where x: "calls w (leg_call l) = Some x" using heap_inv_mncc [OF assms(1,3) im] by blast
  let ?v = "w\<lparr>timers := removeAll a (timers w), out := out w @
      [Tx_mncc (zero_mncc\<lparr>mncc_msg_type := MNCC_REJ_REQ, mncc_callref := callref m\<rparr>)]\<rparr>"
  have hv: "heap_inv ?v" using heap_inv_timers_removeAll [OF assms(1), of a] by simp
  have lv: "legs ?v a = Some l" "calls ?v (leg_call l) = Some x" using assms(3) x by simp_all
  have "heap_inv (leg_gone a (leg_call l) x (?v\<lparr>timers := removeAll a (timers ?v)\<rparr>))" by (rule mncc_leg_gone(1) [OF hv lv])
  then show ?thesis using wp_mncc_leg_release [OF hv lv] assms by (simp add: wp_mncc_send_plain wp leg_gone_def)
qed

text \<open>
  C18. Releasing an MNCC leg while the connection is ready sends exactly one message with the
  leg's reference. A call from the mobile that was not yet accepted is rejected and its leg
  freed at once, with its timer; an offered call is released and any other call disconnected,
  and the leg then waits, marked as in release, for the answer that ends it or for its timer.
\<close>

theorem mncc_call_leg_release_correct:
  assumes "heap_inv w" and "open_conn w" and "conn_state (conn w) = MNCC_READY"
    and "legs w a = Some l" and "leg_object l = Mncc_object m"
  shows "\<exists>w' o'. mncc_call_leg_release X rel a w = Inr ((), w') \<and> heap_inv w'
     \<and> out w' = out w @ [Tx_mncc o'] \<and> mncc_callref o' = callref m
     \<and> (if mncc_state m = MNCC_CC_INITIAL \<and> mncc_direction m = MNCC_DIR_MO
        then mncc_msg_type o' = MNCC_REJ_REQ \<and> legs w' a = None \<and> a \<notin> set (timers w')
        else mncc_msg_type o' = (if mncc_state m = MNCC_CC_INITIAL then MNCC_REL_REQ else MNCC_DISC_REQ)
          \<and> a \<in> set (timers w')
          \<and> legs w' a = Some (l\<lparr>in_release := True, leg_object := Mncc_object (m\<lparr>rsp_wanted :=
              (if mncc_state m = MNCC_CC_INITIAL then MNCC_REL_CNF else MNCC_REL_IND)\<rparr>)\<rparr>))"
proof -
  have im: "is_mncc l" using assms(5) by (simp add: is_mncc_def)
  obtain x where x: "calls w (leg_call l) = Some x" "leg_type l = CALL_TYPE_MNCC"
    using heap_inv_mncc [OF assms(1,4) im] by blast
  let ?Q = "\<lambda>w'. \<exists>o'. heap_inv w'
     \<and> out w' = out w @ [Tx_mncc o'] \<and> mncc_callref o' = callref m
     \<and> (if mncc_state m = MNCC_CC_INITIAL \<and> mncc_direction m = MNCC_DIR_MO
        then mncc_msg_type o' = MNCC_REJ_REQ \<and> legs w' a = None \<and> a \<notin> set (timers w')
        else mncc_msg_type o' = (if mncc_state m = MNCC_CC_INITIAL then MNCC_REL_REQ else MNCC_DISC_REQ)
          \<and> a \<in> set (timers w')
          \<and> legs w' a = Some (l\<lparr>in_release := True, leg_object := Mncc_object (m\<lparr>rsp_wanted :=
              (if mncc_state m = MNCC_CC_INITIAL then MNCC_REL_CNF else MNCC_REL_IND)\<rparr>)\<rparr>))"
  have wait: "wp (mthen (upd_leg a (in_release_update (\<lambda>_. True))) (mthen (start_cmd_timer a r)
      (mthen (mncc_send X rel t (callref m)) (mret ())))) (\<lambda>_. ?Q) w"
    if "\<not> (mncc_state m = MNCC_CC_INITIAL \<and> mncc_direction m = MNCC_DIR_MO)"
      "t = (if mncc_state m = MNCC_CC_INITIAL then MNCC_REL_REQ else MNCC_DISC_REQ)"
      "r = (if mncc_state m = MNCC_CC_INITIAL then MNCC_REL_CNF else MNCC_REL_IND)" for r t
    by (rule wp_mono [OF mncc_release_wait [OF assms(1,2,4,5)]]) (use that in auto)
  have rej: "wp (mthen (mncc_send X rel MNCC_REJ_REQ (callref m)) (mthen (timer_del a) (mncc_leg_release a))) (\<lambda>_. ?Q) w"
    if "mncc_state m = MNCC_CC_INITIAL" "mncc_direction m = MNCC_DIR_MO"
    by (rule wp_mono [OF mncc_release_reject [OF assms(1,2,4,5)]]) (use that in auto)
  have "wp (mncc_call_leg_release X rel a) (\<lambda>_. ?Q) w"
    unfolding mncc_call_leg_release_def
    using rej wait [of MNCC_REL_REQ MNCC_REL_CNF] wait [of MNCC_DISC_REQ MNCC_REL_IND] assms x
    by (auto simp: wp_mbind wp_get_leg wp_get_mncc wp_mget wp_mthen [of "massert _"] wp_massert)
  then show ?thesis by (simp add: wp_iff_run)
qed

theorem mncc_call_leg_release_witness:
  "\<exists>w' o'. mncc_call_leg_release example_sdp_ext (release example_sdp_ext) 2 (example_bridge MNCC_CC_CONNECTED []) = Inr ((), w')
     \<and> out w' = [Tx_mncc o'] \<and> mncc_msg_type o' = MNCC_DISC_REQ \<and> mncc_callref o' = 77 \<and> 2 \<in> set (timers w')"
proof -
  let ?w = "example_bridge MNCC_CC_CONNECTED []" and ?l = "example_mncc_leg MNCC_CC_CONNECTED"
  have "heap_inv ?w" "open_conn ?w" using connectedD [OF example_bridge_connected] by simp_all
  moreover have "conn_state (conn ?w) = MNCC_READY" by (simp add: ready_conn_def)
  moreover have "leg_object ?l = Mncc_object (zero_mncc_leg\<lparr>mncc_state := MNCC_CC_CONNECTED, callref := 77\<rparr>)"
    by (simp add: example_mncc_leg_def zero_leg_def)
  ultimately show ?thesis
    using mncc_call_leg_release_correct [of ?w 2 ?l _ example_sdp_ext "release example_sdp_ext"] by (auto simp: zero_mncc_leg_def)
qed

section \<open>A write that fails\<close>

text \<open>A packet that is not written completely closes the connection, which frees every MNCC leg.\<close>

lemma sock_write_fails:
  "0 \<le> conn_fd (conn w) \<Longrightarrow> writes w = r # rs \<Longrightarrow> r \<noteq> n \<Longrightarrow> sock_write n y w = Inr (r, w\<lparr>writes := rs\<rparr>)"
  by (simp add: sock_write_def)

lemma failed_write_frees:
  assumes inv: "inv w" and fd: "0 \<le> conn_fd (conn w)" and l: "legs w a = Some l" "is_mncc l"
  obtains w' where "close_connection (release_leg X (Suc n)) (w\<lparr>writes := rs\<rparr>) = Inr ((), w')" and "legs w' a = None"
proof -
  have od: "on_disconnect (conn w) = Some FP_app_mncc_disconnected" using invD(3) [OF inv] by (simp add: conn_ok_def)
  let ?v = "w\<lparr>writes := rs\<rparr>"
  have "heap_inv ?v" using inv by (simp add: inv_iff)
  with close_connection_ok [of ?v X n] od fd
  obtain w' where w': "close_connection (release_leg X (Suc n)) ?v = Inr ((), w')" "inv w'"
      "conn w' = (conn w)\<lparr>conn_fd := -1, reconnect_pending := True, conn_state := MNCC_DISCONNECTED\<rparr>"
      "calls_drained (set (g_call_list w)) ?v (w'\<lparr>conn := conn w\<rparr>)"
    by (auto simp: wp_iff_run)
  have "legs w' a = None"
  proof (rule ccontr)
    assume "legs w' a \<noteq> None"
    then obtain l' where l': "legs w' a = Some l'" by blast
    then have "\<not> is_mncc l'" using invD(3) [OF w'(2)] w'(3) by (auto simp: conn_ok_def)
    moreover obtain k where "legs w a = Some k" "ident l' = ident k" using calls_drainedD(1) [OF w'(4)] l' by auto
    ultimately show False using l ident_eqD(3) [of l' l] by simp
  qed
  with w'(1) that show ?thesis by blast
qed

text \<open>
  C32. A failed write is fatal. While the connection is ready, releasing the leg of a call from
  the mobile that was not yet accepted, and connecting or updating the RTP of any MNCC leg, goes
  on to use the leg after the write failed, although closing the connection has freed it.
\<close>

theorem failed_write_use_after_free:
  assumes "inv w" and "0 \<le> conn_fd (conn w)" and "conn_state (conn w) = MNCC_READY"
    and "writes w = r # rs" and "r < 0" and "legs w a = Some l" and "leg_object l = Mncc_object m" and "legs w b \<noteq> None"
  shows "send_rtp_connect (release X) a b w = Inl Use_after_free
     \<and> (mncc_state m = MNCC_CC_INITIAL \<and> mncc_direction m = MNCC_DIR_MO \<longrightarrow>
         mncc_call_leg_release X (release X) a w = Inl Use_after_free)"
proof -
  have im: "is_mncc l" using assms(7) by (simp add: is_mncc_def)
  obtain w' where cl: "close_connection (release_leg X (Suc 1)) (w\<lparr>writes := rs\<rparr>) = Inr ((), w')" and gone: "legs w' a = None"
    using failed_write_frees [OF assms(1,2,6) im] by blast
  have cl': "close_connection (release X) (w\<lparr>writes := rs\<rparr>) = Inr ((), w')"
    using cl by (simp only: numeral_2_eq_2 One_nat_def)
  have ty: "leg_type l = CALL_TYPE_MNCC"
    using leg_ok_mncc(1) [OF invD(4) [OF assms(1,6)] im] .
  obtain k where k: "legs w b = Some k" using assms(8) by blast
  have ne: "r \<noteq> sizeof_rtp" "r \<noteq> x_sizeof_mncc X" using assms(5) by auto
  have 1: "send_rtp_connect (release X) a b w = Inl Use_after_free"
    using assms(6,7) k ne gone
    by (simp add: send_rtp_connect_def mncc_rtp_write_def get_mncc_def get_leg_def monad_defs
        sock_write_fails [OF assms(2,4)] cl')
  have 2: "mncc_call_leg_release X (release X) a w = Inl Use_after_free"
    if "mncc_state m = MNCC_CC_INITIAL" "mncc_direction m = MNCC_DIR_MO"
    using assms(3,6,7) that ty ne gone
    by (simp add: mncc_call_leg_release_def mncc_send_def mncc_fill_header_def mncc_write_def timer_del_def
        get_mncc_def get_leg_def monad_defs sock_write_fails [OF assms(2,4)] cl')
  show ?thesis using 1 2 by blast
qed

theorem failed_write_witness:
  "mncc_call_leg_release example_sdp_ext (release example_sdp_ext) 2 (example_bridge MNCC_CC_INITIAL [- 1]) = Inl Use_after_free"
proof -
  have "0 \<le> conn_fd ready_conn" "conn_state ready_conn = MNCC_READY" by (simp_all add: ready_conn_def)
  then show ?thesis
    using failed_write_use_after_free [OF example_bridge_inv [of MNCC_CC_INITIAL "[- 1]"], of "- 1" "[]" 2
      "example_mncc_leg MNCC_CC_INITIAL" "zero_mncc_leg\<lparr>mncc_state := MNCC_CC_INITIAL, callref := 77\<rparr>" 3 example_sdp_ext]
    by (simp add: example_mncc_leg_def zero_mncc_leg_def zero_leg_def)
qed

end
