(* ===== verification/Sip_Events.thy ===== *)
theory Sip_Events
  imports Handler_Safety
begin

text \<open>
  The lower half of \<open>src/src/sip.c\<close>: what the connector does on an event of the SIP stack.
  Sofia hands over the event, the status, the handle, the leg bound to the handle (\<open>hmagic\<close>, may
  be NULL) and the message (may be NULL). Then the safety of every event: with a stack that
  reports events of bound handles only, no event faults and the invariant is kept.
\<close>

section \<open>Reading a message and finding a leg\<close>

definition sip_get_sdp :: "sip_msg option \<Rightarrow> string option" where
  "sip_get_sdp sip = (case sip of None \<Rightarrow> None | Some m \<Rightarrow> (case sip_payload m of None \<Rightarrow> None | Some d \<Rightarrow> d))"

text \<open>A message the code reads without asking whether there is one.\<close>

definition deref_sip :: "sip_msg option \<Rightarrow> sip_msg io" where
  "deref_sip sip = (case sip of None \<Rightarrow> mfail Null_deref | Some m \<Rightarrow> mret m)"

definition leg_has_handle :: "addr \<Rightarrow> addr option \<Rightarrow> bool io" where
  "leg_has_handle nh p = (case p of None \<Rightarrow> mret False | Some a \<Rightarrow> mbind (get_leg a) (\<lambda>l.
     if leg_type l = CALL_TYPE_SIP then mbind (get_sip a) (\<lambda>s. mret (nua_handle s = Some nh))
     else mret False))"

fun find_handle :: "addr \<Rightarrow> addr list \<Rightarrow> addr option io" where
  "find_handle nh [] = mret None"
| "find_handle nh (c # cs) = mbind (get_call c) (\<lambda>x.
     mbind (leg_has_handle nh (initial x)) (\<lambda>found. if found then mret (initial x)
     else mbind (leg_has_handle nh (remote x)) (\<lambda>found. if found then mret (remote x)
     else find_handle nh cs)))"

definition sip_find_leg :: "addr \<Rightarrow> addr option io" where
  "sip_find_leg nh = mbind (mget g_call_list) (\<lambda>cs. find_handle nh cs)"

section \<open>Progress and answer of a call to SIP\<close>

definition call_progress :: "ext \<Rightarrow> addr \<Rightarrow> sip_msg option \<Rightarrow> int \<Rightarrow> unit io" where
  "call_progress X a sip status = mbind (call_leg_other a) (\<lambda>p. case p of
       None \<Rightarrow> mret ()
     | Some other \<Rightarrow>
         mthen (if status = 180 \<or> status = 183
                then mbind (deref_sip sip) (\<lambda>m.
                  if payload_data m \<noteq> None then mthen (sdp_extract_sdp X a m False) (mret ()) else mret ())
                else mret ())
           (ring X other))"

definition call_connect :: "ext \<Rightarrow> addr \<Rightarrow> sip_msg option \<Rightarrow> unit io" where
  "call_connect X a sip = mbind (call_leg_other a) (\<lambda>p. mbind (get_sip a) (\<lambda>s. case p of
       None \<Rightarrow> emit (Nua_cancel (nua_handle s))
     | Some other \<Rightarrow> mbind (deref_sip sip) (\<lambda>m. mbind (sdp_extract_sdp X a m False) (\<lambda>ok.
         if \<not> ok then mthen (emit (Nua_cancel (nua_handle s))) (release X other)
         else mthen (upd_sip a (sip_state_update (\<lambda>_. SIP_CC_CONNECTED)))
           (mthen (connect X other) (mbind (get_sip a) (\<lambda>s. emit (Nua_ack (nua_handle s)))))))))"

section \<open>A new call from SIP\<close>

text \<open>The first header of a name among those the stack does not know.\<close>

fun find_header :: "string \<Rightarrow> (string \<times> string) list \<Rightarrow> string option" where
  "find_header n [] = None"
| "find_header n ((k, v) # hs) = (if n = k then Some v else find_header n hs)"

definition not_acceptable :: "addr \<Rightarrow> unit io" where
  "not_acceptable nh = mthen (emit (Nua_respond (Some nh) 406 None None)) (emit (Nua_handle_destroy (Some nh)))"

text \<open>The end of \<open>new_call\<close>: the leg gets its functions and its handle, and the call is routed.
  \<open>talloc_strdup\<close> of a NULL pointer is NULL.\<close>

definition new_call_route :: "ext \<Rightarrow> addr \<Rightarrow> sip_msg \<Rightarrow> addr \<Rightarrow> addr \<Rightarrow> string \<Rightarrow> string \<Rightarrow> unit io" where
  "new_call_route X nh sip c a from to =
     mthen (upd_leg a (\<lambda>l. l\<lparr>release_call := Some FP_sip_release_call, ring_call := Some FP_sip_ring_call,
         connect_call := Some FP_sip_connect_call, dtmf := Some FP_sip_dtmf_call,
         hold_call := Some FP_sip_hold_call, retrieve_call := Some FP_sip_retrieve_call\<rparr>))
     (mthen (upd_sip a (nua_handle_update (\<lambda>_. Some nh)))
     (mthen (emit (Nua_handle_bind (Some nh) a))
     (mbind (case sip_payload sip of None \<Rightarrow> mfail Null_deref | Some None \<Rightarrow> mret None
             | Some (Some d) \<Rightarrow> talloc_str a d) (\<lambda>pl.
     mthen (upd_sip a (sdp_payload_update (\<lambda>_. map_option str_val pl)))
     (mthen (call_leg_rx_sdp a (sip_get_sdp (Some sip)))
     (mbind (talloc_str a from) (\<lambda>src. mbind (talloc_str a to) (\<lambda>dst. app_route_call X c src dst))))))))"

text \<open>The middle: the parties, and the address and payload type of the peer's media.\<close>

definition new_call_leg :: "ext \<Rightarrow> addr \<Rightarrow> sip_msg \<Rightarrow> addr \<Rightarrow> unit io" where
  "new_call_leg X nh sip c = (case (case sip_to sip of None \<Rightarrow> None | Some u \<Rightarrow> u) of
       None \<Rightarrow> not_acceptable nh
     | Some to \<Rightarrow> (case (case sip_from sip of None \<Rightarrow> None | Some u \<Rightarrow> u) of
         None \<Rightarrow> not_acceptable nh
       | Some from \<Rightarrow> mbind (get_call c) (\<lambda>x. mbind (deref (initial x)) (\<lambda>a.
           mthen (upd_sip a (\<lambda>s. s\<lparr>sip_state := SIP_CC_DLG_CNFD, sip_direction := SIP_DIR_MO\<rparr>))
           (mbind (sdp_extract_sdp X a sip True) (\<lambda>ok.
             if \<not> ok then mthen (not_acceptable nh) (call_leg_release a)
             else new_call_route X nh sip c a from to))))))"

definition new_call :: "ext \<Rightarrow> addr \<Rightarrow> sip_msg \<Rightarrow> unit io" where
  "new_call X nh sip = (let xgcr = map_option (\<lambda>v. x_hexparse X v 28) (find_header ''X-Global-Call-Ref'' (sip_unknown sip)) in
     if \<not> sdp_screen_sdp X sip then not_acceptable nh
     else mbind call_sip_create (\<lambda>p. mthen (massert (p \<noteq> None)) (mbind (deref p) (\<lambda>c.
       case xgcr of
         None \<Rightarrow> new_call_leg X nh sip c
       | Some hdr \<Rightarrow> (case x_dec_gcr X hdr of
           None \<Rightarrow> not_acceptable nh
         | Some g \<Rightarrow> mthen (upd_call c (\<lambda>x. x\<lparr>call_gcr := g, gcr_present := True\<rparr>)) (new_call_leg X nh sip c))))))"

section \<open>A change of an existing call\<close>

text \<open>\<open>if (other->update_rtp) other->update_rtp(leg->base.call->remote)\<close>\<close>

definition update_rtp_of :: "ext \<Rightarrow> addr \<Rightarrow> addr option \<Rightarrow> unit io" where
  "update_rtp_of X other p = mbind (get_leg other) (\<lambda>ol. case update_rtp ol of
       None \<Rightarrow> mret ()
     | Some f \<Rightarrow> (if f = FP_update_rtp then mbind (deref p) (mncc_update_rtp X) else mfail Bad_cast))"

definition respond_sdp :: "addr \<Rightarrow> string \<Rightarrow> unit io" where
  "respond_sdp nh sdp = emit (Nua_respond (Some nh) 200 None (Some sdp))"

text \<open>The media of a re-INVITE that is not a hold: \<open>None\<close> when the leg was released.\<close>

definition reinvite_media :: "ext \<Rightarrow> addr \<Rightarrow> addr \<Rightarrow> addr \<Rightarrow> sip_msg \<Rightarrow> sockaddr_storage \<Rightarrow> string option io" where
  "reinvite_media X a other nh sip prev = mbind (sdp_extract_sdp X a sip True) (\<lambda>ok.
     if \<not> ok then mthen (not_acceptable nh) (mthen (call_leg_release a) (mret None))
     else mbind (get_leg a) (\<lambda>l. mbind (get_call (leg_call l)) (\<lambda>x.
       mthen (if x_sockaddr_cmp X prev (leg_addr l) \<noteq> 0 then update_rtp_of X other (remote x) else mret ())
       (mbind (sdp_create_file X a other sdp_sendrecv) (\<lambda>sdp. mret (Some sdp))))))"

definition sip_handle_reinvite :: "ext \<Rightarrow> addr \<Rightarrow> addr \<Rightarrow> sip_msg \<Rightarrow> unit io" where
  "sip_handle_reinvite X a nh sip = mbind (get_leg a) (\<lambda>l0. mbind (call_leg_other a) (\<lambda>p. case p of
       None \<Rightarrow> sip_release_call a
     | Some other \<Rightarrow> (case sdp_get_sdp_mode X sip of
         None \<Rightarrow> mbind (sdp_create_file X a other sdp_sendrecv) (respond_sdp nh)
       | Some mode \<Rightarrow> mthen (call_leg_rx_sdp a (sip_get_sdp (Some sip)))
           (if mode = sdp_sendonly then mbind (sdp_create_file X a other sdp_recvonly) (respond_sdp nh)
            else mbind (reinvite_media X a other nh sip (leg_addr l0)) (\<lambda>sdp. case sdp of
              None \<Rightarrow> mret () | Some s \<Rightarrow> respond_sdp nh s)))))"

section \<open>Events\<close>

datatype nua_event = nua_r_invite | nua_i_ack | nua_r_bye | nua_r_cancel | nua_i_bye | nua_i_invite
  | nua_i_cancel | nua_other

definition r_invite :: "ext \<Rightarrow> int \<Rightarrow> addr \<Rightarrow> sip_msg option \<Rightarrow> unit io" where
  "r_invite X status a sip = mthen (call_leg_rx_sdp a (sip_get_sdp sip))
     (mbind (get_sip a) (\<lambda>s.
     mthen (if sip_state s = SIP_CC_INITIAL then upd_sip a (sip_state_update (\<lambda>_. SIP_CC_DLG_CNFD)) else mret ())
     (if status = 180 \<or> status = 183 then call_progress X a sip status
      else if status = 200 then mbind (get_sip a) (\<lambda>s.
        if sip_state s = SIP_CC_CONNECTED \<or> sip_state s = SIP_CC_HOLD then emit (Nua_ack (nua_handle s))
        else call_connect X a sip)
      else if 300 \<le> status then mbind (call_leg_other a) (\<lambda>other. mbind (get_sip a) (\<lambda>s.
        mthen (emit (Nua_cancel (nua_handle s))) (mthen (emit (Nua_handle_destroy (nua_handle s)))
        (mthen (call_leg_release a) (release_with_cause X other (status2cause status))))))
      else mret ())))"

text \<open>The end of a leg, when the peer ends the call (\<open>nua_i_bye\<close>, \<open>nua_i_cancel\<close>) and when it
  answers our request to end it.\<close>

definition end_leg :: "addr \<Rightarrow> unit io" where
  "end_leg a = mbind (get_sip a) (\<lambda>s. mthen (emit (Nua_handle_destroy (nua_handle s))) (call_leg_release a))"

definition peer_ends :: "ext \<Rightarrow> addr \<Rightarrow> unit io" where
  "peer_ends X a = mbind (call_leg_other a) (\<lambda>other. mthen (end_leg a) (release_ptr (release X) other))"

definition i_ack :: "ext \<Rightarrow> addr \<Rightarrow> sip_msg option \<Rightarrow> unit io" where
  "i_ack X nh sip = mbind (deref_sip sip) (\<lambda>m. if payload_data m = None then mret ()
     else mbind (sip_find_leg nh) (\<lambda>p. case p of None \<Rightarrow> mret ()
       | Some a \<Rightarrow> mthen (call_leg_rx_sdp a (sip_get_sdp sip)) (sip_handle_reinvite X a nh m)))"

definition i_invite :: "ext \<Rightarrow> int \<Rightarrow> addr \<Rightarrow> sip_msg option \<Rightarrow> unit io" where
  "i_invite X status nh sip = mbind (deref_sip sip) (\<lambda>m. if status \<noteq> 100 then mret ()
     else mbind (sip_find_leg nh) (\<lambda>p. case p of
         Some a \<Rightarrow> mthen (call_leg_rx_sdp a (sip_get_sdp sip)) (sip_handle_reinvite X a nh m)
       | None \<Rightarrow> new_call X nh m))"

definition nua_callback :: "ext \<Rightarrow> nua_event \<Rightarrow> int \<Rightarrow> addr \<Rightarrow> addr option \<Rightarrow> sip_msg option \<Rightarrow> unit io" where
  "nua_callback X event status nh hmagic sip = (case event of
       nua_r_invite \<Rightarrow> mbind (deref hmagic) (\<lambda>a. r_invite X status a sip)
     | nua_i_ack \<Rightarrow> i_ack X nh sip
     | nua_r_bye \<Rightarrow> mbind (deref hmagic) end_leg
     | nua_r_cancel \<Rightarrow> mbind (deref hmagic) end_leg
     | nua_i_bye \<Rightarrow> mbind (deref hmagic) (peer_ends X)
     | nua_i_invite \<Rightarrow> i_invite X status nh sip
     | nua_i_cancel \<Rightarrow> mbind (deref hmagic) (peer_ends X)
     | nua_other \<Rightarrow> mret ())"

end
