(* ===== verification/Sip_Safety.thy ===== *)
theory Sip_Safety
  imports Sip_Events
begin

text \<open>
  Safety of the SIP events. \<open>sip_at\<close> is the position of a SIP leg in its call, \<open>local_op\<close> the
  interface of operations that keep a safe state safe and its shape. The result is that every
  event a conforming SIP stack reports runs without a fault and keeps the invariant.
\<close>

section \<open>Operations that keep the shape of a safe state\<close>

lemma safe_upd:
  assumes "safe w" and "legs w a = Some l" and "ident l' = ident l"
  shows "safe (w\<lparr>legs := (legs w)(a \<mapsto> l')\<rparr>)"
  using safeD(2,4,5) [OF assms(1)] heap_inv_upd_leg [OF assms(2,3)] conn_ok_upd_leg [OF assms(2,3)]
  by (simp add: safe_iff)

locale local_op =
  fixes op :: "'a io" and pre :: "world \<Rightarrow> bool"
  assumes local: "safe w \<Longrightarrow> pre w \<Longrightarrow> wp op (\<lambda>_ v. safe v \<and> shape v = shape w \<and> conn v = conn w) w"
begin

lemma local_then:
  assumes "safe w" and "pre w" and "\<And>v. safe v \<Longrightarrow> shape v = shape w \<Longrightarrow> wp n Q v"
  shows "wp (mthen op n) Q w"
  unfolding wp_mthen by (rule wp_mono [OF local [OF assms(1,2)]]) (use assms(3) in blast)

lemma local_bind:
  assumes "safe w" and "pre w" and "\<And>r v. safe v \<Longrightarrow> shape v = shape w \<Longrightarrow> wp (n r) Q v"
  shows "wp (mbind op n) Q w"
  unfolding wp_mbind by (rule wp_mono [OF local [OF assms(1,2)]]) (use assms(3) in blast)

sublocale quiet_op op pre
  by unfold_locales (rule wp_mono [OF local], auto simp: connected_safe)

end

interpretation sip_rx: local_op "call_leg_rx_sdp a s" "\<lambda>w. legs w a \<noteq> None" for a s
proof
  fix w assume w: "safe w" "legs w a \<noteq> None"
  then obtain l where l: "legs w a = Some l" by blast
  have "ident (l\<lparr>rx_sdp := t, rx_sdp_changed := True\<rparr>) = ident l" for t
    by (simp add: ident_def is_mncc_def leg_mo_def leg_handle_def)
  then show "wp (call_leg_rx_sdp a s) (\<lambda>_ v. safe v \<and> shape v = shape w \<and> conn v = conn w) w"
    using w l by (auto simp: wp intro: safe_upd split: option.splits)
qed

section \<open>The position of a SIP leg\<close>

definition sip_at :: "world \<Rightarrow> addr \<Rightarrow> addr option \<Rightarrow> bool" where
  "sip_at w a p = (\<exists>l x. legs w a = Some l \<and> \<not> is_mncc l \<and> \<not> bare l
     \<and> calls w (leg_call l) = Some x \<and> other_leg a x = p)"

lemma sip_at_shape:
  assumes s: "shape v = shape w" and m: "sip_at w a p"
  shows "sip_at v a p"
proof -
  obtain l x where l: "legs w a = Some l" "\<not> is_mncc l" "\<not> bare l" "calls w (leg_call l) = Some x" "other_leg a x = p"
    using m by (auto simp: sip_at_def)
  obtain l' where "legs v a = Some l'" "ident l' = ident l" using shape_leg [OF s l(1)] .
  then show ?thesis using l shapeD(1) [OF s] ident_eqD(2,3,6) [of l' l] by (auto simp: sip_at_def)
qed

lemma sip_at_other: "sip_at w a p \<Longrightarrow> wp (call_leg_other a) Q w = Q p w"
  by (auto simp: sip_at_def wp)

lemma sip_at_live: "sip_at w a p \<Longrightarrow> legs w a \<noteq> None"
  by (auto simp: sip_at_def)

lemma sip_atE:
  assumes "sip_at w a p" and "heap_inv w"
  obtains l s x where "legs w a = Some l" "\<not> is_mncc l" "\<not> bare l" "leg_object l = Sip_object s"
    "calls w (leg_call l) = Some x" "other_leg a x = p" "leg_type l = CALL_TYPE_SIP"
proof -
  from assms(1) obtain l x where l: "legs w a = Some l" "\<not> is_mncc l" "\<not> bare l"
      "calls w (leg_call l) = Some x" "other_leg a x = p" by (auto simp: sip_at_def)
  then show ?thesis using that leg_ok_sip(1,3) [OF heap_invD(2) [OF assms(2) l(1)] l(2)] by blast
qed

lemma sip_atI:
  assumes "heap_inv w" and "legs w a = Some l" and "\<not> is_mncc l" and "\<not> bare l"
  obtains p where "sip_at w a p"
  using wf_heap_leg_call [OF heap_invD(1) [OF assms(1)] assms(2)] assms(2-) that by (auto simp: sip_at_def)

text \<open>The partner is an MNCC leg, and the connection is open.\<close>

lemma sip_at_partner:
  assumes m: "sip_at w a (Some b)" and s: "safe w"
  obtains k where "legs w b = Some k" "is_mncc k" "\<not> bare k" "b \<noteq> a" "connected w" "has_other w b"
proof -
  note inv = safeD(2) [OF s]
  obtain l x where l: "legs w a = Some l" "\<not> is_mncc l" "calls w (leg_call l) = Some x" "other_leg a x = Some b"
    using m by (auto simp: sip_at_def)
  obtain k where k: "legs w b = Some k" "leg_call k = leg_call l" "b \<noteq> a" "other_leg b x = Some a"
    using other_leg_cases [OF heap_invD(1) [OF inv] l(1,3,4)] .
  have "is_mncc k" "\<not> bare k" using pair_not_bare [OF inv l(1,3,4) k(1)] l(2) by auto
  then show ?thesis using that k l safe_mncc_connected [OF s k(1)] by (auto simp: has_other_def)
qed

interpretation sip_upd: local_op "upd_sip a f"
  "\<lambda>w. (\<forall>s. sip_direction (f s) = sip_direction s \<and> nua_handle (f s) = nua_handle s) \<and> (\<exists>p. sip_at w a p)" for a f
proof
  fix w assume w: "safe w" "(\<forall>s. sip_direction (f s) = sip_direction s \<and> nua_handle (f s) = nua_handle s) \<and> (\<exists>p. sip_at w a p)"
  then obtain l s where l: "legs w a = Some l" "leg_object l = Sip_object s" by (metis sip_atE safeD(2))
  then show "wp (upd_sip a f) (\<lambda>_ v. safe v \<and> shape v = shape w \<and> conn v = conn w) w"
    using w by (auto simp: wp ident_sip_upd intro!: safe_upd)
qed

lemma ident_extracted: "ident (extracted X sdp any s l) = ident l"
  by (simp add: ident_def leg_mo_def leg_handle_def)

interpretation sdp_in: local_op "sdp_extract_sdp X a sip an" "\<lambda>w. \<exists>p. sip_at w a p" for X a sip an
proof
  fix w assume w: "safe w" "\<exists>p. sip_at w a p"
  then obtain l s where l: "legs w a = Some l" "leg_object l = Sip_object s" by (metis sip_atE safeD(2))
  then show "wp (sdp_extract_sdp X a sip an) (\<lambda>_ v. safe v \<and> shape v = shape w \<and> conn v = conn w) w"
    using w by (auto simp: wp ident_extracted intro!: safe_upd split: option.splits)
qed

interpretation sdp_out: local_op "sdp_create_file X a b mode" "\<lambda>w. (\<exists>p. sip_at w a p) \<and> legs w b \<noteq> None" for X a b mode
proof
  fix w assume w: "safe w" "(\<exists>p. sip_at w a p) \<and> legs w b \<noteq> None"
  then obtain l s k where l: "legs w a = Some l" "leg_object l = Sip_object s" "legs w b = Some k"
    by (metis sip_atE safeD(2) option.exhaust)
  show "wp (sdp_create_file X a b mode) (\<lambda>_ v. safe v \<and> shape v = shape w \<and> conn v = conn w) w"
    by (rule wp_sdp_create_contract [OF l]) (use w(1) l in \<open>auto intro!: safe_upd\<close>)
qed

interpretation sends: local_op "emit x" "\<lambda>_. True" for x
  by unfold_locales (simp add: wp)

lemma mret_safe: "safe w \<Longrightarrow> wp (mret x) (\<lambda>_. safe) w"
  by (simp add: wp)

section \<open>Steps on the MNCC partner\<close>

interpretation ring_mncc: framed_op "ring X" is_mncc "\<lambda>w _. open_conn w" for X
proof
  fix w a l assume h: "heap_inv w" "open_conn w" "legs w a = Some l" "is_mncc l"
  then have "ring_call l = Some FP_mncc_call_leg_ring" using leg_ok_mncc(2) [OF heap_invD(2) [OF h(1,3)] h(4)] by simp
  then show "wp (ring X a) (\<lambda>_ w'. heap_inv w' \<and> leg_frame a w w') w"
    using mncc_ring.framed [OF h] h(3) by (simp add: ring_def wp)
qed

interpretation connect_mncc: framed_op "connect X" is_mncc "\<lambda>w a. open_conn w \<and> has_other w a" for X
proof
  fix w a l assume h: "heap_inv w" "open_conn w \<and> has_other w a" "legs w a = Some l" "is_mncc l"
  then have "connect_call l = Some FP_mncc_call_leg_connect" using leg_ok_mncc(3) [OF heap_invD(2) [OF h(1,3)] h(4)] by simp
  then show "wp (connect X a) (\<lambda>_ w'. heap_inv w' \<and> leg_frame a w w') w"
    using mncc_connect.framed [OF h] h(3) by (simp add: connect_def wp)
qed

context framed_op
begin

lemma on_mncc_partner:
  assumes s: "safe w" and m: "sip_at w a (Some b)"
    and ok: "\<And>k. legs w b = Some k \<Longrightarrow> is_mncc k \<Longrightarrow> \<not> bare k \<Longrightarrow> open_conn w \<Longrightarrow> has_other w b \<Longrightarrow> good k \<and> cond w b"
    and rest: "\<And>v. safe v \<Longrightarrow> legs v a = legs w a \<Longrightarrow> wp n Q v"
  shows "wp (mthen (op b) n) Q w"
proof -
  obtain k where k: "legs w b = Some k" "is_mncc k" "\<not> bare k" "b \<noteq> a" "connected w" "has_other w b"
    using sip_at_partner [OF m s] .
  have "wp (op b) (\<lambda>_ v. connected v \<and> leg_frame b w v) w"
    using keeps_connected [OF k(5) _ k(1)] ok [OF k(1-3) connectedD(2) [OF k(5)] k(6)] by blast
  then show ?thesis unfolding wp_mthen
  proof (rule wp_mono)
    fix v assume v: "connected v \<and> leg_frame b w v"
    then have "legs v a = legs w a" using leg_frameD(1) [of b w v a] k(4) by simp
    then show "wp n Q v" using rest v by (simp add: connected_safe)
  qed
qed

lemma on_mncc_partner_last:
  assumes s: "safe w" and m: "sip_at w a (Some b)"
    and ok: "\<And>k. legs w b = Some k \<Longrightarrow> is_mncc k \<Longrightarrow> \<not> bare k \<Longrightarrow> open_conn w \<Longrightarrow> has_other w b \<Longrightarrow> good k \<and> cond w b"
  shows "wp (op b) (\<lambda>_. safe) w"
proof -
  have "wp (mthen (op b) (mret ())) (\<lambda>_. safe) w"
    by (rule on_mncc_partner [OF s m ok]) (simp_all add: wp)
  then show ?thesis unfolding wp_mthen by (rule wp_mono) (simp add: wp)
qed

end

section \<open>The end of a SIP leg\<close>

lemma sip_drop:
  assumes s: "safe w" and a: "legs w a = Some l" "\<not> is_mncc l"
  shows "wp (call_leg_release a) (\<lambda>_ v. safe v \<and> legs v = (legs w)(a := None)) w"
proof -
  note inv = safeD(2) [OF s]
  obtain x where l: "legs w a = Some l" "\<not> is_mncc l" "calls w (leg_call l) = Some x"
    using wf_heap_leg_call [OF safeD(3) [OF s] a(1)] a by blast
  obtain sl x' where t: "a \<notin> set (timers w)" using heap_inv_sip [OF inv l(1)] l(2) unfolding sip_kind_def by blast
  have "safe (leg_gone a (leg_call l) x w)"
    using safe_frame [OF only_leg_frame [OF only_leg_gone [OF l(1)]] heap_inv_leg_gone [OF inv l(1,3) t] s] .
  then show ?thesis using wp_call_leg_release [OF safeD(3) [OF s] l(1,3)] by (simp add: leg_gone_def)
qed

text \<open>After it is gone the partner can still be released.\<close>

lemma sip_drop_then:
  assumes s: "safe w" and m: "sip_at w a p"
    and rest: "\<And>v. safe v \<Longrightarrow> (\<And>b. p = Some b \<Longrightarrow> \<exists>k. legs v b = Some k \<and> is_mncc k \<and> \<not> bare k) \<Longrightarrow> wp n Q v"
  shows "wp (mthen (call_leg_release a) n) Q w"
proof -
  obtain l where l: "legs w a = Some l" "\<not> is_mncc l" using m by (auto simp: sip_at_def)
  show ?thesis unfolding wp_mthen
  proof (rule wp_mono [OF sip_drop [OF s l]])
    fix v assume v: "safe v \<and> legs v = (legs w)(a := None)"
    have "\<exists>k. legs v b = Some k \<and> is_mncc k \<and> \<not> bare k" if p: "p = Some b" for b
    proof -
      obtain k where "legs w b = Some k" "is_mncc k" "\<not> bare k" "b \<noteq> a" using sip_at_partner [OF m [unfolded p] s] .
      then show ?thesis using v by simp
    qed
    then show "wp n Q v" using rest v by blast
  qed
qed

lemma release_cause_safe:
  assumes "safe v" and "\<And>b. p = Some b \<Longrightarrow> \<exists>k. legs v b = Some k \<and> is_mncc k \<and> \<not> bare k"
  shows "wp (release_with_cause X p cv) (\<lambda>_. safe) v"
proof (cases p)
  case None
  then show ?thesis using assms(1) by (simp add: release_with_cause_def wp)
next
  case (Some b)
  then obtain k where k: "legs v b = Some k" "is_mncc k" "\<not> bare k" using assms(2) by blast
  note c = safe_mncc_connected [OF assms(1) k(1,2)]
  show ?thesis unfolding Some
    by (rule wp_mono [OF cause_release.keeps_connected [OF c _ k(1,3)]]) (simp_all add: connectedD [OF c] connected_safe)
qed

lemma release_ptr_safe:
  assumes "safe v" and "\<And>b. p = Some b \<Longrightarrow> \<exists>k. legs v b = Some k \<and> \<not> bare k"
  shows "wp (release_ptr (release X) p) (\<lambda>_. safe) v"
proof (cases p)
  case None
  then show ?thesis using assms(1) by (simp add: release_ptr_def wp)
next
  case (Some b)
  then obtain k where k: "legs v b = Some k" "\<not> bare k" using assms(2) by blast
  show ?thesis using wp_mono [OF release_safe [OF assms(1) k]] Some by (simp add: release_ptr_def)
qed

lemma end_leg_then:
  assumes s: "safe w" and m: "sip_at w a p"
    and rest: "\<And>v. safe v \<Longrightarrow> (\<And>b. p = Some b \<Longrightarrow> \<exists>k. legs v b = Some k \<and> is_mncc k \<and> \<not> bare k) \<Longrightarrow> wp n Q v"
  shows "wp (mthen (end_leg a) n) Q w"
proof -
  obtain l sl where l: "legs w a = Some l" "leg_object l = Sip_object sl" using sip_atE [OF m safeD(2) [OF s]] by metis
  let ?v = "w\<lparr>out := out w @ [Nua_handle_destroy (nua_handle sl)]\<rparr>"
  have "wp (mthen (call_leg_release a) n) Q ?v"
    by (rule sip_drop_then [where p = p]) (use s m rest in \<open>auto simp: sip_at_def\<close>)
  then show ?thesis using l by (simp add: end_leg_def wp)
qed

lemma end_leg_safe:
  assumes "safe w" and "sip_at w a p"
  shows "wp (end_leg a) (\<lambda>_. safe) w"
proof -
  have "wp (mthen (end_leg a) (mret ())) (\<lambda>_. safe) w" by (rule end_leg_then [OF assms]) (simp add: wp)
  then show ?thesis unfolding wp_mthen by (rule wp_mono) (simp add: wp)
qed

lemma peer_ends_safe:
  assumes s: "safe w" and m: "sip_at w a p"
  shows "wp (peer_ends X a) (\<lambda>_. safe) w"
  unfolding peer_ends_def wp_mbind sip_at_other [OF m]
  by (rule end_leg_then [OF s m]) (rule release_ptr_safe, blast+)

section \<open>Answers to our INVITE\<close>

lemma call_progress_safe:
  assumes s: "safe w" and m: "sip_at w a p" and sip: "sip \<noteq> None"
  shows "wp (call_progress X a sip st) (\<lambda>_. safe) w"
proof (cases p)
  case None
  then show ?thesis unfolding call_progress_def wp_mbind sip_at_other [OF m] using s by (simp add: wp)
next
  case (Some b)
  obtain sm where sm: "sip = Some sm" using sip by blast
  have ring: "wp (ring X b) (\<lambda>_. safe) v" if "safe v" "shape v = shape w" for v
    by (rule ring_mncc.on_mncc_partner_last [OF that(1) sip_at_shape [OF that(2) m [unfolded Some]]]) simp
  have "wp (mthen (sdp_extract_sdp X a sm False) (ring X b)) (\<lambda>_. safe) w"
    by (rule sdp_in.local_then [OF s _ ring]) (use m in blast)
  then show ?thesis using ring [OF s] Some
    unfolding call_progress_def wp_mbind sip_at_other [OF m] by (simp add: deref_sip_def sm wp wp_mret_fun)
qed

lemma call_connect_safe:
  assumes s: "safe w" and m: "sip_at w a p" and sip: "sip \<noteq> None"
  shows "wp (call_connect X a sip) (\<lambda>_. safe) w"
proof -
  obtain l sl where l: "legs w a = Some l" "leg_object l = Sip_object sl" using sip_atE [OF m safeD(2) [OF s]] by metis
  show ?thesis
  proof (cases p)
    case None
    then show ?thesis unfolding call_connect_def wp_mbind sip_at_other [OF m] using s l by (simp add: wp)
  next
    case (Some b)
    obtain sm where sm: "sip = Some sm" using sip by blast
    note mb = m [unfolded Some]
    have no: "wp (mthen (emit y) (release X b)) (\<lambda>_. safe) v" if v: "safe v" "shape v = shape w" for v y
    proof (rule sends.local_then [OF v(1)])
      fix u assume u: "safe u" "shape u = shape v"
      have "sip_at u a (Some b)" using sip_at_shape [OF _ mb] u(2) v(2) by simp
      then obtain k where "legs u b = Some k" "\<not> bare k" using sip_at_partner [OF _ u(1)] by blast
      from wp_mono [OF release_safe [OF u(1) this]] show "wp (release X b) (\<lambda>_. safe) u" by simp
    qed simp
    have yes: "wp (mthen (upd_sip a (sip_state_update (\<lambda>_. SIP_CC_CONNECTED)))
       (mthen (connect X b) (mbind (get_sip a) (\<lambda>s. emit (Nua_ack (nua_handle s)))))) (\<lambda>_. safe) v"
      if v: "safe v" "shape v = shape w" for v
    proof (rule sip_upd.local_then [OF v(1)])
      show "(\<forall>s. sip_direction (s\<lparr>sip_state := SIP_CC_CONNECTED\<rparr>) = sip_direction s
          \<and> nua_handle (s\<lparr>sip_state := SIP_CC_CONNECTED\<rparr>) = nua_handle s) \<and> (\<exists>p. sip_at v a p)"
        using sip_at_shape [OF v(2) m] by auto
    next
      fix u assume u: "safe u" "shape u = shape v"
      have mu: "sip_at u a (Some b)" using sip_at_shape [OF _ mb] u(2) v(2) by simp
      then obtain lu su where lu: "legs u a = Some lu" "leg_object lu = Sip_object su" using sip_atE safeD(2) [OF u(1)] by metis
      show "wp (mthen (connect X b) (mbind (get_sip a) (\<lambda>s. emit (Nua_ack (nua_handle s))))) (\<lambda>_. safe) u"
        by (rule connect_mncc.on_mncc_partner [OF u(1) mu]) (use lu in \<open>simp_all add: wp\<close>)
    qed
    have "wp (mbind (sdp_extract_sdp X a sm False) (\<lambda>ok.
         if \<not> ok then mthen (emit (Nua_cancel (nua_handle sl))) (release X b)
         else mthen (upd_sip a (sip_state_update (\<lambda>_. SIP_CC_CONNECTED)))
           (mthen (connect X b) (mbind (get_sip a) (\<lambda>s. emit (Nua_ack (nua_handle s))))))) (\<lambda>_. safe) w"
      by (rule sdp_in.local_bind [OF s]) (use m in blast, auto intro: no yes)
    then show ?thesis unfolding call_connect_def wp_mbind sip_at_other [OF m] using l Some
      by (simp add: deref_sip_def sm wp_get_sip wp_mbind wp_mret)
  qed
qed

lemma r_invite_safe:
  assumes s: "safe w" and m: "sip_at w a p" and sip: "status \<in> {180, 183, 200} \<longrightarrow> sip \<noteq> None"
  shows "wp (r_invite X status a sip) (\<lambda>_. safe) w"
  unfolding r_invite_def
proof (rule sip_rx.local_then [OF s sip_at_live [OF m]])
  fix v assume v: "safe v" "shape v = shape w"
  note mv = sip_at_shape [OF v(2) m]
  obtain l sl where l: "legs v a = Some l" "leg_object l = Sip_object sl" using sip_atE [OF mv safeD(2) [OF v(1)]] by metis
  let ?K = "if status = 180 \<or> status = 183 then call_progress X a sip status
      else if status = 200 then mbind (get_sip a) (\<lambda>s.
        if sip_state s = SIP_CC_CONNECTED \<or> sip_state s = SIP_CC_HOLD then emit (Nua_ack (nua_handle s))
        else call_connect X a sip)
      else if 300 \<le> status then mbind (call_leg_other a) (\<lambda>other. mbind (get_sip a) (\<lambda>s.
        mthen (emit (Nua_cancel (nua_handle s))) (mthen (emit (Nua_handle_destroy (nua_handle s)))
        (mthen (call_leg_release a) (release_with_cause X other (status2cause status))))))
      else mret ()"
  have k: "wp ?K (\<lambda>_. safe) u" if u: "safe u" "shape u = shape v" for u
  proof -
    note mu = sip_at_shape [OF u(2) mv]
    obtain lu su where lu: "legs u a = Some lu" "leg_object lu = Sip_object su" using sip_atE [OF mu safeD(2) [OF u(1)]] by metis
    have fail: "wp (mthen (call_leg_release a) (release_with_cause X p cv)) (\<lambda>_. safe) (u\<lparr>out := os\<rparr>)" for os cv
      by (rule sip_drop_then [where p = p]) (use u(1) mu release_cause_safe in \<open>auto simp: sip_at_def\<close>)
    have fail': "wp (mbind (call_leg_other a) (\<lambda>other. mbind (get_sip a) (\<lambda>s.
        mthen (emit (Nua_cancel (nua_handle s))) (mthen (emit (Nua_handle_destroy (nua_handle s)))
        (mthen (call_leg_release a) (release_with_cause X other cv)))))) (\<lambda>_. safe) u" for cv
      using fail [of cv "(out u @ [Nua_cancel (nua_handle su)]) @ [Nua_handle_destroy (nua_handle su)]"] lu
      unfolding wp_mbind sip_at_other [OF mu] by (simp add: wp_mbind wp_mthen wp_get_sip wp_emit)
    show ?thesis
    proof (intro wp_ifI)
      show "wp (call_progress X a sip status) (\<lambda>_. safe) u" if "status = 180 \<or> status = 183"
        by (rule call_progress_safe [OF u(1) mu]) (use sip that in auto)
      show "wp (mbind (get_sip a) (\<lambda>s.
        if sip_state s = SIP_CC_CONNECTED \<or> sip_state s = SIP_CC_HOLD then emit (Nua_ack (nua_handle s))
        else call_connect X a sip)) (\<lambda>_. safe) u" if "status = 200"
        using call_connect_safe [OF u(1) mu] sip that lu u(1) by (simp add: wp_mbind wp_get_sip wp_emit)
    qed (use fail' u(1) in \<open>auto simp: wp_mret\<close>)
  qed
  have "wp (mthen (upd_sip a (sip_state_update (\<lambda>_. SIP_CC_DLG_CNFD))) ?K) (\<lambda>_. safe) v"
    by (rule sip_upd.local_then [OF v(1) _ k]) (use mv in auto)
  then show "wp (mbind (get_sip a) (\<lambda>s. mthen (if sip_state s = SIP_CC_INITIAL
       then upd_sip a (sip_state_update (\<lambda>_. SIP_CC_DLG_CNFD)) else mret ()) ?K)) (\<lambda>_. safe) v"
    using k [OF v(1) refl] l by (simp only: wp_mbind wp_get_sip) (simp add: wp_mthen wp_mret)
qed

section \<open>Finding a leg by its handle\<close>

definition has_handle :: "world \<Rightarrow> addr \<Rightarrow> addr option \<Rightarrow> bool" where
  "has_handle w nh p = (\<exists>a l. p = Some a \<and> legs w a = Some l \<and> leg_handle l = Some nh)"

fun lookup_handle :: "world \<Rightarrow> addr \<Rightarrow> addr list \<Rightarrow> addr option" where
  "lookup_handle w nh [] = None"
| "lookup_handle w nh (c # cs) = (case calls w c of None \<Rightarrow> None | Some x \<Rightarrow>
     (if has_handle w nh (initial x) then initial x
      else if has_handle w nh (remote x) then remote x else lookup_handle w nh cs))"

lemma wp_leg_has_handle:
  assumes inv: "heap_inv w" and p: "\<And>a. p = Some a \<Longrightarrow> legs w a \<noteq> None"
  shows "wp (leg_has_handle nh p) Q w = Q (has_handle w nh p) w"
proof (cases p)
  case None
  then show ?thesis by (simp add: leg_has_handle_def has_handle_def wp)
next
  case (Some a)
  then obtain l where l: "legs w a = Some l" using p by blast
  note ok = heap_invD(2) [OF inv l]
  show ?thesis
  proof (cases "is_mncc l")
    case True
    then show ?thesis using Some l leg_ok_mncc(1,11) [OF ok True] by (simp add: leg_has_handle_def has_handle_def wp)
  next
    case False
    then obtain s where "leg_object l = Sip_object s" "leg_type l = CALL_TYPE_SIP" using leg_ok_sip(1,3) [OF ok False] by blast
    then show ?thesis using Some l by (simp add: leg_has_handle_def has_handle_def wp leg_handle_def)
  qed
qed

lemma wp_find_handle:
  assumes inv: "heap_inv w" and "\<forall>c \<in> set cs. calls w c \<noteq> None"
  shows "wp (find_handle nh cs) Q w = Q (lookup_handle w nh cs) w"
  using assms(2)
proof (induction cs)
  case Nil
  then show ?case by (simp add: wp)
next
  case (Cons c cs)
  then obtain x where x: "calls w c = Some x" by auto
  have "initial x = Some a \<or> remote x = Some a \<Longrightarrow> legs w a \<noteq> None" for a
    using wf_heap_call_leg_ex [OF heap_invD(1) [OF inv] x] by force
  then show ?case using Cons x by (simp add: wp_mbind wp_get_call wp_leg_has_handle [OF inv] wp_mret)
qed

lemma wp_sip_find_leg: "heap_inv w \<Longrightarrow> wp (sip_find_leg nh) Q w = Q (lookup_handle w nh (g_call_list w)) w"
  by (simp add: sip_find_leg_def wp_mbind wp_mget wp_find_handle wf_heapD(2) [OF heap_invD(1)])

lemma lookup_handle_Some: "lookup_handle w nh cs = Some a \<Longrightarrow> \<exists>l. legs w a = Some l \<and> leg_handle l = Some nh"
  by (induction cs) (auto simp: has_handle_def split: option.splits if_splits)

lemma lookup_handle_sip_at:
  assumes s: "safe w" and "lookup_handle w nh cs = Some a"
  obtains p where "sip_at w a p"
proof -
  obtain l where l: "legs w a = Some l" "leg_handle l = Some nh" using lookup_handle_Some [OF assms(2)] by blast
  note ok = heap_invD(2) [OF safeD(2) [OF s] l(1)]
  have "\<not> is_mncc l" using leg_ok_mncc(11) [OF ok] l(2) by auto
  moreover from this have "\<not> bare l" using leg_ok_sip(11) [OF ok] l(2) by auto
  ultimately show ?thesis using sip_atI [OF safeD(2) [OF s] l(1)] that by blast
qed

section \<open>Changes of an existing call\<close>

lemma sip_release_safe:
  assumes "safe w" and "sip_at w a p"
  shows "wp (sip_release_call a) (\<lambda>_. safe) w"
proof -
  obtain l where l: "legs w a = Some l" "\<not> is_mncc l" using assms(2) by (auto simp: sip_at_def)
  have k: "sip_kind l" using l(2) by (simp add: sip_kind_def)
  show ?thesis
    by (rule wp_mono [OF sip_release_contract [OF safeD(2) [OF assms(1)] l(1) k]])
       (use assms(1) in \<open>auto dest: only_leg_frame safe_frame\<close>)
qed

text \<open>Both legs of a pair lead \<open>update_rtp\<close> to the same message.\<close>

lemma update_rtp_shape:
  assumes s: "safe w" and m: "sip_at w a (Some b)" and r: "r = a \<or> r = b"
  shows "wp (mncc_update_rtp X r) (\<lambda>_ v. safe v \<and> shape v = shape w) w"
proof -
  note inv = safeD(2) [OF s]
  obtain l x where l: "legs w a = Some l" "calls w (leg_call l) = Some x" "other_leg a x = Some b" "leg_type l = CALL_TYPE_SIP"
    using sip_atE [OF m inv] by metis
  obtain k where k: "legs w b = Some k" "leg_call k = leg_call l" "b \<noteq> a" "other_leg b x = Some a"
    using other_leg_cases [OF heap_invD(1) [OF inv] l(1-3)] .
  obtain k' where k': "legs w b = Some k'" "is_mncc k'" "connected w" using sip_at_partner [OF m s] by blast
  have ty: "leg_type k = CALL_TYPE_MNCC" using leg_ok_mncc(1) [OF heap_invD(2) [OF inv k(1)]] k k' by simp
  have "wp (send_rtp_connect (release X) b a) (\<lambda>_ v. connected v \<and> shape v = shape w) w"
    by (rule rtp_connect.quiet [OF k'(3)]) (use connected_mncc_leg_at [OF k'(3,1,2)] l(1) in blast)
  then have "wp (send_rtp_connect (release X) b a) (\<lambda>_ v. safe v \<and> shape v = shape w) w"
    by (rule wp_mono) (simp add: connected_safe)
  then show ?thesis using r l k ty
    by (auto simp: mncc_update_rtp_def wp_mbind wp_mthen wp_get_leg wp_call_leg_other wp_mret wp_mret_fun)
qed

lemma update_rtp_of_then:
  assumes s: "safe w" and m: "sip_at w a (Some b)" and l: "legs w a = Some l" and x: "calls w (leg_call l) = Some x"
    and rest: "\<And>v. safe v \<Longrightarrow> shape v = shape w \<Longrightarrow> wp n Q v"
  shows "wp (mthen (update_rtp_of X b (remote x)) n) Q w"
proof -
  obtain k where k: "legs w b = Some k" "is_mncc k" using sip_at_partner [OF m s] by blast
  then have u: "update_rtp k = Some FP_update_rtp" using leg_ok_mncc(5) heap_invD(2) [OF safeD(2) [OF s] k(1)] by blast
  have "other_leg a x = Some b" using m l x by (auto simp: sip_at_def)
  then obtain r where r: "remote x = Some r" "r = a \<or> r = b" by (auto simp: other_leg_def split: if_splits)
  have "wp (mncc_update_rtp X r) (\<lambda>_. wp n Q) w"
    by (rule wp_mono [OF update_rtp_shape [OF s m r(2)]]) (use rest in blast)
  then show ?thesis using k u r(1) by (simp add: update_rtp_of_def wp_mthen wp_mbind wp_get_leg wp_deref)
qed

lemma reinvite_media_then:
  assumes s: "safe w" and m: "sip_at w a (Some b)"
    and rest: "\<And>v r. safe v \<Longrightarrow> wp (n r) (\<lambda>_. safe) v"
  shows "wp (mbind (reinvite_media X a b nh sip prev) n) (\<lambda>_. safe) w"
  unfolding reinvite_media_def wp_mbind
proof (rule sdp_in.local_bind [OF s, unfolded wp_mbind])
  show "\<exists>p. sip_at w a p" using m by blast
next
  fix ok v assume v: "safe v" "shape v = shape w"
  note mv = sip_at_shape [OF v(2) m]
  have bad: "wp (mthen (call_leg_release a) (mret None)) (\<lambda>r. wp (n r) (\<lambda>_. safe)) (v\<lparr>out := os\<rparr>)" for os
    by (rule sip_drop_then [where p = "Some b"]) (use v(1) mv rest in \<open>auto simp: sip_at_def wp_mret\<close>)
  have sdp: "wp (mbind (sdp_create_file X a b sdp_sendrecv) (\<lambda>sdp. mret (Some sdp))) (\<lambda>r. wp (n r) (\<lambda>_. safe)) u"
    if u: "safe u" "shape u = shape v" for u
  proof (rule sdp_out.local_bind [OF u(1)])
    note mu = sip_at_shape [OF u(2) mv]
    show "(\<exists>p. sip_at u a p) \<and> legs u b \<noteq> None" using mu sip_at_partner [OF mu u(1)] by blast
  qed (simp add: wp_mret rest)
  obtain l x where l: "legs v a = Some l" "calls v (leg_call l) = Some x" using mv by (auto simp: sip_at_def)
  have "wp (mthen (update_rtp_of X b (remote x)) (mbind (sdp_create_file X a b sdp_sendrecv) (\<lambda>sdp. mret (Some sdp))))
     (\<lambda>r. wp (n r) (\<lambda>_. safe)) v"
    by (rule update_rtp_of_then [OF v(1) mv l sdp])
  then show "wp (if \<not> ok then mthen (not_acceptable nh) (mthen (call_leg_release a) (mret None))
     else mbind (get_leg a) (\<lambda>l. mbind (get_call (leg_call l)) (\<lambda>x.
       mthen (if x_sockaddr_cmp X prev (leg_addr l) \<noteq> 0 then update_rtp_of X b (remote x) else mret ())
       (mbind (sdp_create_file X a b sdp_sendrecv) (\<lambda>sdp. mret (Some sdp)))))) (\<lambda>r. wp (n r) (\<lambda>_. safe)) v"
    using bad sdp [OF v(1) refl] l
    by (simp only: wp_if wp_mbind wp_mthen wp_get_leg wp_get_call not_acceptable_def wp_emit)
       (simp add: wp_mbind wp_mthen wp_mret)
qed

lemma respond_safe: "safe w \<Longrightarrow> wp (respond_sdp nh sdp) (\<lambda>_. safe) w"
  by (simp add: respond_sdp_def wp_emit)

lemma reinvite_safe:
  assumes s: "safe w" and m: "sip_at w a p"
  shows "wp (sip_handle_reinvite X a nh sip) (\<lambda>_. safe) w"
proof -
  obtain l where l: "legs w a = Some l" using m by (auto simp: sip_at_def)
  show ?thesis
  proof (cases p)
    case None
    then show ?thesis unfolding sip_handle_reinvite_def wp_mbind wp_get_leg sip_at_other [OF m]
      using l sip_release_safe [OF s m] by simp
  next
    case (Some b)
    have answer: "wp (mbind (sdp_create_file X a b mode) (respond_sdp nh)) (\<lambda>_. safe) v" if v: "safe v" "shape v = shape w" for v mode
    proof (rule sdp_out.local_bind [OF v(1) _ respond_safe])
      have mv: "sip_at v a (Some b)" using sip_at_shape [OF v(2) m] Some by simp
      then show "(\<exists>p. sip_at v a p) \<and> legs v b \<noteq> None" using sip_at_partner [OF mv v(1)] by blast
    qed
    have media: "wp (mbind (reinvite_media X a b nh sip prev) (\<lambda>sdp. case sdp of None \<Rightarrow> mret () | Some s \<Rightarrow> respond_sdp nh s)) (\<lambda>_. safe) v"
      if v: "safe v" "shape v = shape w" for v prev
      by (rule reinvite_media_then [OF v(1)])
         (use sip_at_shape [OF v(2) m] Some in \<open>auto simp: mret_safe respond_safe split: option.splits\<close>)
    have "wp (mthen (call_leg_rx_sdp a sd) (if mode = sdp_sendonly then mbind (sdp_create_file X a b sdp_recvonly) (respond_sdp nh)
            else mbind (reinvite_media X a b nh sip prev) (\<lambda>sdp. case sdp of None \<Rightarrow> mret () | Some s \<Rightarrow> respond_sdp nh s)))
          (\<lambda>_. safe) w" for sd mode prev
      by (rule sip_rx.local_then [OF s]) (use l answer media in auto)
    then show ?thesis unfolding sip_handle_reinvite_def wp_mbind [of "get_leg a"] wp_mbind [of "call_leg_other a"] wp_get_leg sip_at_other [OF m]
      using l Some answer [OF s refl] by (simp split: option.splits)
  qed
qed

lemma changed_safe:
  assumes s: "safe w" and m: "sip_at w a p"
  shows "wp (mthen (call_leg_rx_sdp a sd) (sip_handle_reinvite X a nh sip)) (\<lambda>_. safe) w"
  by (rule sip_rx.local_then [OF s sip_at_live [OF m]]) (rule reinvite_safe, assumption, rule sip_at_shape [OF _ m])

section \<open>A new call\<close>

lemma wp_talloc_str_any:
  assumes "legs w a \<noteq> None" and "\<And>p bs. (\<And>s. p = Some s \<Longrightarrow> str_owner s = a) \<Longrightarrow> Q p (w\<lparr>allocs := bs\<rparr>)"
  shows "wp (talloc_str a t) Q w"
proof -
  let ?r = "\<lambda>ok. if ok then Some \<lparr>str_owner = a, str_val = t\<rparr> else None"
  have q: "Q (?r ok) (w\<lparr>allocs := bs\<rparr>)" for ok bs by (rule assms(2)) (auto split: if_splits)
  have "Q (?r True) w" using q [of True "allocs w"] by simp
  with q assms(1) show ?thesis by (auto simp: talloc_str_def wp split: list.splits)
qed

text \<open>Whether the two allocations for a call succeed.\<close>

definition two_allocs :: "world \<Rightarrow> bool" where
  "two_allocs w = (\<forall>b \<in> set (take 2 (allocs w)). b)"

lemma wp_call_create_ok:
  assumes "wf_heap w" and "two_allocs w" and "\<And>bs. Q (Some (next_addr w)) ((call_added ty ob w)\<lparr>allocs := bs\<rparr>)"
  shows "wp (call_create ty ob) Q w"
proof -
  have "(call_added ty ob w)\<lparr>allocs := allocs w\<rparr> = call_added ty ob w" by (simp add: call_added_def Let_def)
  then have "Q (Some (next_addr w)) (call_added ty ob w)" using assms(3) [of "allocs w"] by simp
  then show ?thesis using assms(2,3) unfolding wp_call_create [OF assms(1)] two_allocs_def
    by (auto simp: numeral_2_eq_2 split: list.splits bool.splits)
qed

text \<open>The symbolic execution of \<open>new_call\<close>, from its end to its beginning. The new leg has no handle and no
  functions until the call is routed.\<close>

lemma new_call_route_runs:
  assumes l: "legs w a = Some l" "ident l = bare_identity c" and pl: "sip_payload sip \<noteq> None"
    and route: "\<And>l' bs src dst. ident l' = sip_identity c True nh \<Longrightarrow> (\<And>s. src = Some s \<Longrightarrow> str_owner s = a) \<Longrightarrow> (\<And>s. dst = Some s \<Longrightarrow> str_owner s = a) \<Longrightarrow>
      wp (app_route_call X c src dst) Q (w\<lparr>legs := (legs w)(a \<mapsto> l'), allocs := bs, out := out w @ [Nua_handle_bind (Some nh) a]\<rparr>)"
  shows "wp (new_call_route X nh sip c a from to) Q w"
proof -
  obtain sl where sl: "leg_object l = Sip_object sl" using l(2) by (cases "leg_object l") (auto simp: ident_def bare_identity_def is_mncc_def)
  let ?W = "\<lambda>l' bs. w\<lparr>legs := (legs w)(a \<mapsto> l'), allocs := bs, out := out w @ [Nua_handle_bind (Some nh) a]\<rparr>"
  let ?route = "mbind (talloc_str a from) (\<lambda>src. mbind (talloc_str a to) (\<lambda>dst. app_route_call X c src dst))"
  let ?rx = "mthen (call_leg_rx_sdp a (sip_get_sdp (Some sip))) ?route"
  let ?pay = "case sip_payload sip of None \<Rightarrow> mfail Null_deref | Some None \<Rightarrow> mret None | Some (Some d) \<Rightarrow> talloc_str a d"
  have rt: "wp ?route Q (?W l' bs)" if "ident l' = sip_identity c True nh" for l' bs
    unfolding wp_mbind by (intro wp_talloc_str_any) (use route [OF that] in \<open>simp_all add: world_norm\<close>)
  have rx: "wp ?rx Q (?W l' bs)" if i: "ident l' = sip_identity c True nh" for l' bs
  proof -
    have "ident (l'\<lparr>rx_sdp := t, rx_sdp_changed := True\<rparr>) = sip_identity c True nh" for t
      using i by (simp add: ident_def is_mncc_def leg_mo_def leg_handle_def)
    then show ?thesis using rt i
      by (auto simp: wp_mthen [of "call_leg_rx_sdp _ _"] wp_call_leg_rx_sdp world_norm split: option.splits)
  qed
  have pay: "wp (mthen (upd_sip a (sdp_payload_update (\<lambda>_. y))) ?rx) Q (?W l' bs)"
    if i: "ident l' = sip_identity c True nh" for l' bs y
  proof -
    obtain s where s: "leg_object l' = Sip_object s" using i by (cases "leg_object l'") (auto simp: ident_def sip_identity_def is_mncc_def)
    have "ident (l'\<lparr>leg_object := Sip_object (s\<lparr>sdp_payload := y\<rparr>)\<rparr>) = sip_identity c True nh"
      using i ident_sip_upd [OF s, of "s\<lparr>sdp_payload := y\<rparr>"] by simp
    from rx [OF this] s show ?thesis by (simp add: wp_mthen [of "upd_sip _ _"] wp_upd_sip world_norm)
  qed
  let ?l = "l\<lparr>release_call := Some FP_sip_release_call, ring_call := Some FP_sip_ring_call,
         connect_call := Some FP_sip_connect_call, dtmf := Some FP_sip_dtmf_call,
         hold_call := Some FP_sip_hold_call, retrieve_call := Some FP_sip_retrieve_call,
         leg_object := Sip_object (sl\<lparr>nua_handle := Some nh\<rparr>)\<rparr>"
  have i: "ident ?l = sip_identity c True nh"
    using l(2) sl by (auto simp: ident_def sip_identity_def bare_identity_def is_mncc_def leg_mo_def leg_handle_def)
  have "wp ?pay (\<lambda>pl. wp (mthen (upd_sip a (sdp_payload_update (\<lambda>_. map_option str_val pl))) ?rx) Q) (?W ?l (allocs w))"
    using pl pay [OF i] pay [OF i, where bs = "allocs w"] by (auto simp: world_norm wp_mret intro!: wp_talloc_str_any split: option.split)
  then show ?thesis using l(1) sl unfolding new_call_route_def
    by (simp only: wp_mthen [of "upd_leg _ _"] wp_upd_leg wp_mthen [of "upd_sip _ (nua_handle_update _)"] wp_upd_sip
        wp_mthen [of "emit _"] wp_emit wp_mbind [of "case_option _ _ _"]) (simp add: world_norm)
qed


abbreviation refusal :: "addr \<Rightarrow> action list" where
  "refusal nh \<equiv> [Nua_respond (Some nh) 406 None None, Nua_handle_destroy (Some nh)]"

lemma wp_not_acceptable: "wp (not_acceptable nh) Q w = Q () (w\<lparr>out := out w @ refusal nh\<rparr>)"
  by (simp add: not_acceptable_def wp_mthen wp_emit)

lemma new_call_leg_runs:
  assumes x: "calls w c = Some x" "initial x = Some a"
    and l: "legs w a = Some l" "ident l = bare_identity c" and pl: "parsed_session X sip False \<noteq> None"
    and refused: "Q () (w\<lparr>out := out w @ refusal nh\<rparr>)"
    and dropped: "\<And>l'. ident l' = bare_identity c \<Longrightarrow> wp (call_leg_release a) Q (w\<lparr>legs := (legs w)(a \<mapsto> l'), out := out w @ refusal nh\<rparr>)"
    and route: "\<And>l' bs src dst. ident l' = sip_identity c True nh \<Longrightarrow> (\<And>s. src = Some s \<Longrightarrow> str_owner s = a) \<Longrightarrow> (\<And>s. dst = Some s \<Longrightarrow> str_owner s = a) \<Longrightarrow>
      wp (app_route_call X c src dst) Q (w\<lparr>legs := (legs w)(a \<mapsto> l'), allocs := bs, out := out w @ [Nua_handle_bind (Some nh) a]\<rparr>)"
  shows "wp (new_call_leg X nh sip c) Q w"
proof -
  obtain sl where sl: "leg_object l = Sip_object sl" using l(2) by (cases "leg_object l") (auto simp: ident_def bare_identity_def is_mncc_def)
  have mo: "sip_direction sl = SIP_DIR_MO" using l(2) sl by (simp add: ident_def bare_identity_def leg_mo_def)
  obtain sdp where sdp: "parsed_session X sip False = Some sdp" using pl by blast
  have p: "sip_payload sip \<noteq> None" using sdp by (auto simp: parsed_session_def payload_data_def split: option.splits)
  let ?s = "sl\<lparr>sip_state := SIP_CC_DLG_CNFD, sip_direction := SIP_DIR_MO\<rparr>"
  let ?l = "extracted X sdp True ?s (l\<lparr>leg_object := Sip_object ?s\<rparr>)"
  let ?w = "w\<lparr>legs := (legs w)(a \<mapsto> ?l)\<rparr>"
  have id: "ident ?l = bare_identity c" using l(2) ident_sip_upd [OF sl, of ?s] mo by (simp add: ident_extracted)
  have "wp (new_call_route X nh sip c a f t) Q ?w" for f t
    by (rule new_call_route_runs [where l = ?l]) (use id p route in simp_all)
  moreover have "wp (mthen (not_acceptable nh) (call_leg_release a)) Q ?w"
    using dropped [OF id] by (simp add: wp_mthen [of "not_acceptable _"] wp_not_acceptable world_norm)
  ultimately have "wp (mbind (get_call c) (\<lambda>x. mbind (deref (initial x)) (\<lambda>a.
           mthen (upd_sip a (\<lambda>s. s\<lparr>sip_state := SIP_CC_DLG_CNFD, sip_direction := SIP_DIR_MO\<rparr>))
           (mbind (sdp_extract_sdp X a sip True) (\<lambda>ok.
             if \<not> ok then mthen (not_acceptable nh) (call_leg_release a)
             else new_call_route X nh sip c a f t))))) Q w" for f t
    using x l(1) sl by (simp add: wp_mbind wp_get_call wp_deref wp_mthen [of "upd_sip _ _"] wp_upd_sip wp_sdp_extract_sdp sdp)
  then show ?thesis using refused by (simp add: new_call_leg_def wp_not_acceptable split: option.splits)
qed

text \<open>The state after a new call from SIP was created: its call object, its leg, what was sent.\<close>

definition incoming :: "world \<Rightarrow> call \<Rightarrow> call_leg \<Rightarrow> bool list \<Rightarrow> action list \<Rightarrow> world" where
  "incoming w x l bs os = w\<lparr>legs := (legs w)(Suc (next_addr w) \<mapsto> l), calls := (calls w)(next_addr w \<mapsto> x),
     g_call_list := next_addr w # g_call_list w, last_call_id := last_call_id w + 1, next_addr := Suc (Suc (next_addr w)),
     allocs := bs, out := out w @ os\<rparr>"

lemma incoming_simps [simp]:
  "legs (incoming w x l bs os) = (legs w)(Suc (next_addr w) \<mapsto> l)" "calls (incoming w x l bs os) = (calls w)(next_addr w \<mapsto> x)"
  "out (incoming w x l bs os) = out w @ os" "writes (incoming w x l bs os) = writes w" "conn (incoming w x l bs os) = conn w"
  by (simp_all add: incoming_def)

lemma incoming_upd:
  "(incoming w x l bs os)\<lparr>legs := (legs w)(Suc (next_addr w) \<mapsto> l')\<rparr> = incoming w x l' bs os"
  "(incoming w x l bs os)\<lparr>calls := (calls w)(next_addr w \<mapsto> x')\<rparr> = incoming w x' l bs os"
  "(incoming w x l bs os)\<lparr>allocs := bs'\<rparr> = incoming w x l bs' os"
  "(incoming w x l bs os)\<lparr>out := out w @ os'\<rparr> = incoming w x l bs os'"
  by (simp_all add: incoming_def)

text \<open>
  \<open>new_call\<close> step by step: it is refused before anything is created, refused with the call left, refused
  with the leg released, or routed with the handle bound to the new leg.
\<close>

lemma new_call_runs:
  assumes wf: "wf_heap w" and al: "two_allocs w" and c: "c = next_addr w" and a: "a = Suc (next_addr w)"
    and screened: "Q () (w\<lparr>out := out w @ refusal nh\<rparr>)"
    and refused: "\<And>x l bs. initial x = Some a \<Longrightarrow> remote x = None \<Longrightarrow> ident l = bare_identity c \<Longrightarrow> Q () (incoming w x l bs (refusal nh))"
    and dropped: "\<And>x l bs. initial x = Some a \<Longrightarrow> remote x = None \<Longrightarrow> ident l = bare_identity c \<Longrightarrow>
      wp (call_leg_release a) Q (incoming w x l bs (refusal nh))"
    and routed: "\<And>x l bs src dst. initial x = Some a \<Longrightarrow> remote x = None \<Longrightarrow> ident l = sip_identity c True nh \<Longrightarrow>
      (\<And>s. src = Some s \<Longrightarrow> str_owner s = a) \<Longrightarrow> (\<And>s. dst = Some s \<Longrightarrow> str_owner s = a) \<Longrightarrow>
      wp (app_route_call X c src dst) Q (incoming w x l bs [Nua_handle_bind (Some nh) a])"
  shows "wp (new_call X nh sip) Q w"
proof (cases "sdp_screen_sdp X sip")
  case False
  then show ?thesis using screened by (simp add: new_call_def wp_not_acceptable)
next
  case True
  then have pl: "parsed_session X sip False \<noteq> None" by (auto simp: sdp_screen_sdp_def split: option.splits)
  let ?l = "created_leg CALL_TYPE_SIP (Sip_object zero_sip) c" and ?x = "created_call (last_call_id w + 1) a"
  have l: "ident ?l = bare_identity c"
    by (simp add: created_leg_def ident_def bare_identity_def zero_leg_def zero_sip_def is_mncc_def leg_mo_def leg_handle_def)
  have x: "initial ?x = Some a" "remote ?x = None" by (simp_all add: created_call_def zero_call_def)
  have leg: "wp (new_call_leg X nh sip c) Q (incoming w x ?l bs [])" if "initial x = Some a" "remote x = None" for x bs
    by (rule new_call_leg_runs [where a = a and l = ?l, OF _ that(1)])
       (use that l pl c a refused dropped routed in \<open>simp_all add: incoming_upd world_norm [symmetric]\<close>)
  have K: "wp (case h of None \<Rightarrow> new_call_leg X nh sip c
       | Some hdr \<Rightarrow> (case x_dec_gcr X hdr of None \<Rightarrow> not_acceptable nh
         | Some g \<Rightarrow> mthen (upd_call c (\<lambda>x. x\<lparr>call_gcr := g, gcr_present := True\<rparr>)) (new_call_leg X nh sip c))) Q (incoming w ?x ?l bs [])" for h bs
  proof -
    have "wp (mthen (upd_call c (\<lambda>x. x\<lparr>call_gcr := g, gcr_present := True\<rparr>)) (new_call_leg X nh sip c)) Q (incoming w ?x ?l bs [])" for g
      using leg [of "?x\<lparr>call_gcr := g, gcr_present := True\<rparr>" bs] x c by (simp add: wp_mthen [of "upd_call _ _"] wp_upd_call incoming_upd)
    moreover have "wp (not_acceptable nh) Q (incoming w ?x ?l bs [])" using refused [OF x l, of bs] by (simp add: wp_not_acceptable incoming_upd)
    ultimately show ?thesis using leg [OF x] by (simp split: option.split)
  qed
  have "(call_added CALL_TYPE_SIP (Sip_object zero_sip) w)\<lparr>allocs := bs\<rparr> = incoming w ?x ?l bs []" for bs
    by (simp add: call_added_def incoming_def c a Let_def world_norm)
  note created = this
  have go: "wp (mthen (massert (Some c \<noteq> None)) (mbind (deref (Some c)) F)) R v = wp (F c) R v" for F :: "addr \<Rightarrow> unit io" and R v
    by (simp add: wp_mthen wp_massert wp_mbind wp_deref)
  show ?thesis using True unfolding new_call_def Let_def call_sip_create_def
    by (simp only: if_False not_True_eq_False wp_mbind [of "call_create _ _"])
       (rule wp_call_create_ok [OF wf al], simp only: created go c [symmetric] K)
qed

lemma safe_incoming:
  assumes s: "safe w" and x: "initial x = Some (Suc (next_addr w))" "remote x = None"
    and l: "ident l = bare_identity (next_addr w) \<or> ident l = sip_identity (next_addr w) True nh"
  shows "safe (incoming w x l bs os)"
proof -
  have "leg_call l = next_addr w" "leg_ok l" "leg_mo l" "\<not> is_mncc l"
    using l by (auto simp: leg_ok_def) (auto simp: ident_def bare_identity_def sip_identity_def)
  then show ?thesis using safe_new_call [OF s _ _ _ _ x, of l] by (simp add: incoming_def)
qed

lemma routable_incoming:
  assumes "safe w" and "initial x = Some (Suc (next_addr w))" and "remote x = None" and l: "ident l = sip_identity (next_addr w) True nh"
  shows "routable (incoming w x l bs os) (next_addr w) (Suc (next_addr w))"
proof -
  have "\<not> bare l" using l by (auto simp: bare_def bare_identity_def sip_identity_def)
  then show ?thesis using assms safe_incoming [OF assms(1-3), of l nh] by (simp add: routable_def)
qed

lemma new_call_safe:
  assumes s: "safe w" and al: "two_allocs w"
  shows "wp (new_call X nh sip) (\<lambda>_. safe) w"
proof (rule new_call_runs [OF safeD(3) [OF s] al refl refl])
  fix x :: call and l bs src dst
  assume x: "initial x = Some (Suc (next_addr w))" "remote x = None"
  show i: "safe (incoming w x l bs (refusal nh))" if "ident l = bare_identity (next_addr w)"
    using safe_incoming [OF s x] that by blast
  show "wp (call_leg_release (Suc (next_addr w))) (\<lambda>_. safe) (incoming w x l bs (refusal nh))" if "ident l = bare_identity (next_addr w)"
    by (rule wp_mono [OF sip_drop [OF i [OF that], where a = "Suc (next_addr w)" and l = l]]) (use that in \<open>simp_all add: ident_def bare_identity_def\<close>)
  show "wp (app_route_call X (next_addr w) src dst) (\<lambda>_. safe) (incoming w x l bs [Nua_handle_bind (Some nh) (Suc (next_addr w))])"
    if "ident l = sip_identity (next_addr w) True nh" "\<And>s. src = Some s \<Longrightarrow> str_owner s = Suc (next_addr w)"
      "\<And>s. dst = Some s \<Longrightarrow> str_owner s = Suc (next_addr w)"
    by (rule wp_mono [OF app_route_call_safe [OF routable_incoming [OF s x that(1)]]]) (use that in simp_all)
qed (use s in simp)

section \<open>Every event\<close>

text \<open>
  What the SIP stack promises. It hands over the leg a handle was bound to, which is not yet
  released; answers that carry a dialogue forward, requests and acknowledgements come with a
  message; and there is memory for a new call.
\<close>

definition stack_conforms :: "world \<Rightarrow> nua_event \<Rightarrow> int \<Rightarrow> addr option \<Rightarrow> sip_msg option \<Rightarrow> bool" where
  "stack_conforms w event status hmagic sip =
     ((event \<in> {nua_r_invite, nua_r_bye, nua_r_cancel, nua_i_bye, nua_i_cancel} \<longrightarrow>
         (\<exists>a l. hmagic = Some a \<and> legs w a = Some l \<and> \<not> is_mncc l \<and> leg_handle l \<noteq> None))
      \<and> (event = nua_r_invite \<and> status \<in> {180, 183, 200} \<longrightarrow> sip \<noteq> None)
      \<and> (event \<in> {nua_i_ack, nua_i_invite} \<longrightarrow> sip \<noteq> None)
      \<and> (event = nua_i_invite \<longrightarrow> two_allocs w))"

lemma nua_callback_safe:
  assumes s: "safe w" and ok: "stack_conforms w event status hmagic sip"
  shows "wp (nua_callback X event status nh hmagic sip) (\<lambda>_. safe) w"
proof -
  have leg: "\<exists>a p. hmagic = Some a \<and> sip_at w a p" if ev: "event \<in> {nua_r_invite, nua_r_bye, nua_r_cancel, nua_i_bye, nua_i_cancel}"
  proof -
    obtain a l where l: "hmagic = Some a" "legs w a = Some l" "\<not> is_mncc l" "leg_handle l \<noteq> None"
      using ok ev unfolding stack_conforms_def by blast
    have "\<not> bare l" using leg_ok_sip(11) [OF heap_invD(2) [OF safeD(2) [OF s] l(2)] l(3)] l(4) by blast
    then show ?thesis using sip_atI [OF safeD(2) [OF s] l(2,3)] l(1) by blast
  qed
  have find: "wp (mbind (sip_find_leg nh) (\<lambda>p. case p of None \<Rightarrow> n
       | Some a \<Rightarrow> mthen (call_leg_rx_sdp a sd) (sip_handle_reinvite X a nh m))) (\<lambda>_. safe) w"
    if "wp n (\<lambda>_. safe) w" for n sd m
  proof (cases "lookup_handle w nh (g_call_list w)")
    case None
    then show ?thesis using that by (simp add: wp_mbind wp_sip_find_leg safeD(2) [OF s])
  next
    case (Some a)
    then obtain p where "sip_at w a p" using lookup_handle_sip_at [OF s] by blast
    from changed_safe [OF s this] show ?thesis using Some by (simp add: wp_mbind [of "sip_find_leg _"] wp_sip_find_leg safeD(2) [OF s])
  qed
  have msg: "\<exists>m. sip = Some m" if "event \<in> {nua_i_ack, nua_i_invite}" using ok that unfolding stack_conforms_def by (cases sip) blast+
  show ?thesis
  proof (cases event)
    case nua_r_invite
    then obtain a p where a: "hmagic = Some a" "sip_at w a p" using leg by auto
    have "wp (r_invite X status a sip) (\<lambda>_. safe) w"
      by (rule r_invite_safe [OF s a(2)]) (use ok nua_r_invite in \<open>simp add: stack_conforms_def\<close>)
    then show ?thesis using nua_r_invite a(1) by (simp add: nua_callback_def wp_mbind wp_deref)
  next
    case nua_i_ack
    then obtain m where "sip = Some m" using msg by auto
    then show ?thesis using nua_i_ack find [OF mret_safe [OF s]] s
      by (simp add: nua_callback_def i_ack_def deref_sip_def wp_mbind [of "mret _"] wp_mret)
  next
    case nua_i_invite
    then obtain m where "sip = Some m" using msg by auto
    then show ?thesis using nua_i_invite find [OF new_call_safe [OF s]] ok s
      by (simp add: nua_callback_def i_invite_def deref_sip_def wp_mbind [of "mret _"] wp_mret stack_conforms_def)
  qed (use leg s end_leg_safe [OF s] peer_ends_safe [OF s] in \<open>auto simp: nua_callback_def wp_mbind wp_deref wp_mret\<close>)
qed

end
