(* ===== verification/Call_Flows.thy ===== *)
theory Call_Flows
  imports Mncc_Properties Sip_Safety
begin

text \<open>
  What the connector as a whole does with a call: calls set up from either side, their answer
  and their end, as sequences of messages on both interfaces.
\<close>

section \<open>A call from the mobile network\<close>

definition mo_dest :: "mncc_call_leg \<Rightarrow> string" where
  "mo_dest m = (if num_type (called m) = GSM340_TYPE_INTERNATIONAL then ''+'' else []) @ take 32 (num_number (called m))"

definition mo_source :: "app_config \<Rightarrow> mncc_call_leg \<Rightarrow> string" where
  "mo_source app m = (if use_imsi_as_id app \<noteq> 0 then take 16 (imsi m) else take 32 (num_number (calling m)))"

text \<open>The INVITE for a call, and the request that tells the MSC that the call proceeds.\<close>

definition mo_invite :: "ext \<Rightarrow> app_config \<Rightarrow> call \<Rightarrow> call_leg \<Rightarrow> mncc_call_leg \<Rightarrow> addr \<Rightarrow> action" where
  "mo_invite X app x l m h = Nua_invite (Some h)
     (Some (sip_uri (mo_source app m) (sip_local_addr app) (sip_local_port app)))
     (Some (sip_uri (mo_dest m) (sip_remote_addr app) (sip_remote_port app)))
     (gcr_header X x) (sdp_towards_sip X l sdp_sendrecv)"

definition plain_msg :: "u32 \<Rightarrow> u32 \<Rightarrow> gsm_mncc" where
  "plain_msg t r = zero_mncc\<lparr>mncc_msg_type := t, mncc_callref := r\<rparr>"

text \<open>The state after an MO call was routed.\<close>

definition mo_routed :: "ext \<Rightarrow> addr \<Rightarrow> call_leg \<Rightarrow> mncc_call_leg \<Rightarrow> call \<Rightarrow> world \<Rightarrow> string option \<Rightarrow> world" where
  "mo_routed X a l m x w codec = w\<lparr>
     legs := (legs w)(a \<mapsto> l\<lparr>leg_object := Mncc_object (m\<lparr>mncc_state := MNCC_CC_PROCEEDING\<rparr>)\<rparr>,
       next_addr w \<mapsto> invited_leg (leg_call l) (Suc (next_addr w)) codec),
     calls := (calls w)(leg_call l \<mapsto> x\<lparr>source := Some \<lparr>str_owner = a, str_val = mo_source (g_app w) m\<rparr>,
       dest := Some \<lparr>str_owner = a, str_val = mo_dest m\<rparr>, remote := Some (next_addr w)\<rparr>),
     next_addr := Suc (Suc (next_addr w)), allocs := [],
     out := out w @ [Tx_mncc (plain_msg MNCC_CALL_PROC_REQ (callref m)),
       Nua_handle_bind (Some (Suc (next_addr w))) (next_addr w),
       mo_invite X (g_app w) x l m (Suc (next_addr w))]\<rparr>"

lemma sdp_towards_sip_state:
  "sdp_towards_sip X (l\<lparr>leg_object := ob\<rparr>) mode = sdp_towards_sip X l mode"
  by (simp add: sdp_towards_sip_def legacy_sdp_def)

lemma gcr_header_parties: "gcr_header X (x\<lparr>source := s, dest := d\<rparr>) = gcr_header X x"
  by (simp add: gcr_header_def)

lemma mo_call_routed:
  assumes c: "connected w" and l: "legs w a = Some l" "leg_object l = Mncc_object m"
    and x: "calls w (leg_call l) = Some x" "initial x = Some a" and al: "allocs w = []"
  shows "wp (continue_mo_call X a) (\<lambda>_ v. \<exists>codec. v = mo_routed X a l m x w codec) w"
proof -
  let ?m = "m\<lparr>mncc_state := MNCC_CC_PROCEEDING\<rparr>"
  let ?l = "l\<lparr>leg_object := Mncc_object ?m\<rparr>"
  let ?s1 = "\<lparr>str_owner = a, str_val = mo_source (g_app w) m\<rparr>" and ?s2 = "\<lparr>str_owner = a, str_val = mo_dest m\<rparr>"
  let ?x = "x\<lparr>source := Some ?s1, dest := Some ?s2\<rparr>"
  let ?v = "w\<lparr>legs := (legs w)(a \<mapsto> ?l), calls := (calls w)(leg_call l \<mapsto> ?x),
     out := out w @ [Tx_mncc (plain_msg MNCC_CALL_PROC_REQ (callref m))]\<rparr>"
  note fr = fresh_not_allocated(1) [OF heap_invD(1) [OF connectedD(3) [OF c]]]
  have ty: "leg_type l = CALL_TYPE_MNCC"
    using leg_ok_mncc(1) [OF heap_invD(2) [OF connectedD(3) [OF c] l(1)]] l(2) by (simp add: is_mncc_def)
  have ne: "a \<noteq> next_addr w" using fr [of "next_addr w"] l(1) by auto
  have "wp (sip_create_remote_leg X (leg_call l)) (\<lambda>rc. wp (mwhen (rc \<noteq> 0) (release_initial X (leg_call l)))
      (\<lambda>_ v. \<exists>codec. v = mo_routed X a l m x w codec)) ?v"
  proof (rule sip_create_remote_result [where w = ?v and x = ?x and i = a and li = ?l and ?s1.0 = ?s1 and ?s2.0 = ?s2])
    fix codec g :: "string option" and bs :: "bool list"
    assume "allocs ?v = [] \<longrightarrow> g = gcr_header X ?x \<and> bs = []"
    then have g: "g = gcr_header X x" "bs = []" using al by (simp_all add: gcr_header_parties)
    show "wp (mwhen ((0::int) \<noteq> 0) (release_initial X (leg_call l))) (\<lambda>_ v. \<exists>codec. v = mo_routed X a l m x w codec)
       (?v\<lparr>legs := (legs ?v)(next_addr ?v \<mapsto> invited_leg (leg_call l) (Suc (next_addr ?v)) codec),
        calls := (calls ?v)(leg_call l \<mapsto> ?x\<lparr>remote := Some (next_addr ?v)\<rparr>),
        next_addr := Suc (Suc (next_addr ?v)), allocs := bs,
        out := out ?v @ [Nua_handle_bind (Some (Suc (next_addr ?v))) (next_addr ?v),
          Nua_invite (Some (Suc (next_addr ?v)))
            (Some (sip_uri (str_val ?s1) (sip_local_addr (g_app ?v)) (sip_local_port (g_app ?v))))
            (Some (sip_uri (str_val ?s2) (sip_remote_addr (g_app ?v)) (sip_remote_port (g_app ?v))))
            g (sdp_towards_sip X ?l sdp_sendrecv)]\<rparr>)"
      unfolding g by (simp add: wp_mwhen mo_routed_def mo_invite_def sdp_towards_sip_state world_norm exI [of _ codec])
  qed (use x al l ne fr in auto)
  then show ?thesis using l x ty al ne
    by (cases "num_type (called m) = GSM340_TYPE_INTERNATIONAL"; cases "use_imsi_as_id (g_app w) = 0")
       (simp_all add: continue_mo_call_def wp_mbind wp_mthen wp_get_mncc wp_upd_mncc wp_get_leg wp_mget wp_mncc_send_plain [OF connectedD(2) [OF c]]
        talloc_str_def wp_alloc_ok wp_mret app_route_call_def wp_upd_call wp_get_call wp_deref route_to_sip_def
        mo_dest_def mo_source_def prec_s_def plain_msg_def world_norm)
qed

text \<open>The leg after the MSC has reported its RTP port, and the state.\<close>

definition rtp_reported :: "gsm_mncc_rtp \<Rightarrow> call_leg \<Rightarrow> call_leg" where
  "rtp_reported rtp l = (let l1 = l\<lparr>leg_addr := rtp_addr rtp, payload_type := rtp_payload_type rtp,
         payload_msg_type := rtp_payload_msg_type rtp\<rparr> in
     if rtp_sdp rtp = [] \<or> take SDP_SIZE (rx_sdp l) = take SDP_SIZE (rtp_sdp rtp) then l1
     else l1\<lparr>rx_sdp := strlcpy SDP_SIZE (rtp_sdp rtp), rx_sdp_changed := True\<rparr>)"

lemma rtp_reported_frame [simp]:
  "ident (rtp_reported rtp l) = ident l" "leg_object (rtp_reported rtp l) = leg_object l"
  "leg_call (rtp_reported rtp l) = leg_call l"
  "leg_addr (rtp_reported rtp l) = rtp_addr rtp" "payload_type (rtp_reported rtp l) = rtp_payload_type rtp"
  "payload_msg_type (rtp_reported rtp l) = rtp_payload_msg_type rtp"
  by (simp_all add: rtp_reported_def Let_def ident_def is_mncc_def leg_mo_def leg_handle_def)

definition timer_answered :: "addr \<Rightarrow> mncc_call_leg \<Rightarrow> u32 \<Rightarrow> world \<Rightarrow> world" where
  "timer_answered a m t w = (if rsp_wanted m = t then w\<lparr>timers := removeAll a (timers w)\<rparr> else w)"

lemma timer_answered_simps [simp]:
  "legs (timer_answered a m t w) = legs w" "calls (timer_answered a m t w) = calls w"
  "allocs (timer_answered a m t w) = allocs w" "out (timer_answered a m t w) = out w"
  "next_addr (timer_answered a m t w) = next_addr w" "g_app (timer_answered a m t w) = g_app w"
  "g_call_list (timer_answered a m t w) = g_call_list w" "conn (timer_answered a m t w) = conn w"
  by (simp_all add: timer_answered_def)

lemma connected_timer_answered: "connected w \<Longrightarrow> connected (timer_answered a m t w)"
  using heap_inv_timers_removeAll [of w a] by (auto simp: timer_answered_def connected_def inv_iff)

text \<open>An RTP_CREATE message for a leg that is not being released, up to the continuation.\<close>

lemma wp_rtp_create:
  assumes c: "connected w" and rc: "sizeof_rtp \<le> rc" and t: "as_msg_type buf = MNCC_RTP_CREATE"
    and f: "lookup_callref w (rtp_callref (as_rtp buf)) (g_call_list w) = Some a"
    and l: "legs w a = Some l" "leg_object l = Mncc_object m" "\<not> in_release l"
  shows "wp (mncc_data X buf rc) Q w =
     wp (continue_call X a) Q (timer_answered a m MNCC_RTP_CREATE (w\<lparr>legs := (legs w)(a \<mapsto> rtp_reported (as_rtp buf) l)\<rparr>))"
proof -
  have "4 < rc" using rc by (simp add: sizeof_rtp_def)
  then have "mncc_data X buf rc = check_rtp_create X buf rc" using t by (simp add: mncc_data_def)
  then show ?thesis using rc f l
    by (auto simp: check_rtp_create_def wp_mbind wp_mthen wp_find_not_released [OF c] wp_upd_leg wp_call_leg_rx_sdp
        stop_cmd_timer_def wp_get_mncc wp_timer_del wp_mret wp_if timer_answered_def rtp_reported_def Let_def)
qed

text \<open>
  C11. The network's RTP_CREATE carries a call from the mobile to SIP. With the MNCC leg of a call
  that has no SIP leg yet, the connector stores the reported RTP address, stops waiting for it,
  tells the MSC that the call proceeds and sends exactly one INVITE. The INVITE is from the
  calling number (or the IMSI) at the local address to the called number at the configured SIP
  peer, carries the call's Global Call Reference and offers the MSC's media; the SIP leg is linked as the
  call's second leg and the state stays safe.
\<close>

theorem mo_call_invited:
  assumes "connected w" and "sizeof_rtp \<le> rc" and "as_msg_type buf = MNCC_RTP_CREATE"
    and "lookup_callref w (rtp_callref (as_rtp buf)) (g_call_list w) = Some a"
    and "legs w a = Some l" and "leg_object l = Mncc_object m" and "\<not> in_release l" and "mncc_direction m = MNCC_DIR_MO"
    and "calls w (leg_call l) = Some x" and "initial x = Some a" and "remote x = None" and "allocs w = []"
  shows "\<exists>w' l' b h. mncc_data X buf rc w = Inr ((), w') \<and> safe w'
     \<and> out w' = out w @ [Tx_mncc (plain_msg MNCC_CALL_PROC_REQ (callref m)), Nua_handle_bind (Some h) b,
         Nua_invite (Some h)
           (Some (sip_uri (mo_source (g_app w) m) (sip_local_addr (g_app w)) (sip_local_port (g_app w))))
           (Some (sip_uri (mo_dest m) (sip_remote_addr (g_app w)) (sip_remote_port (g_app w))))
           (gcr_header X x) (sdp_towards_sip X l' sdp_sendrecv)]
     \<and> legs w' a = Some l' \<and> leg_addr l' = rtp_addr (as_rtp buf)
     \<and> leg_object l' = Mncc_object (m\<lparr>mncc_state := MNCC_CC_PROCEEDING\<rparr>)
     \<and> (rsp_wanted m = MNCC_RTP_CREATE \<longrightarrow> a \<notin> set (timers w'))
     \<and> map_option remote (calls w' (leg_call l)) = Some (Some b)
     \<and> (\<exists>k. legs w' b = Some k \<and> leg_call k = leg_call l \<and> leg_handle k = Some h \<and> \<not> is_mncc k)"
proof -
  let ?l = "rtp_reported (as_rtp buf) l"
  let ?v = "timer_answered a m MNCC_RTP_CREATE (w\<lparr>legs := (legs w)(a \<mapsto> ?l)\<rparr>)"
  have cv: "connected ?v" by (rule connected_timer_answered [OF connected_upd [OF assms(1,5)]]) simp
  have lv: "legs ?v a = Some ?l" "leg_object ?l = Mncc_object m" "calls ?v (leg_call ?l) = Some x" "allocs ?v = []"
    using assms by simp_all
  have ne: "a \<noteq> next_addr w"
    using fresh_not_allocated(1) [OF heap_invD(1) [OF connectedD(3) [OF assms(1)]], of "next_addr w"] assms(5) by auto
  from mo_call_routed [OF cv lv(1,2,3) assms(10) lv(4), of X]
  have "wp (continue_call X a) (\<lambda>_ v. \<exists>codec. v = mo_routed X a ?l m x ?v codec) ?v"
    using lv assms(8) by (simp add: continue_call_def wp_mbind wp_get_mncc)
  then have "wp (mncc_data X buf rc) (\<lambda>_ v. \<exists>codec. v = mo_routed X a ?l m x ?v codec) w"
    unfolding wp_rtp_create [OF assms(1-7)] .
  then obtain codec where run: "mncc_data X buf rc w = Inr ((), mo_routed X a ?l m x ?v codec)"
    by (auto simp: wp_iff_run)
  moreover have "safe (mo_routed X a ?l m x ?v codec)"
  proof -
    have "msc_conforms w buf"
      using assms(3-5,9-11) by (auto simp: msc_conforms_def mncc_at_def other_leg_def)
    from mncc_data_safe [OF assms(1) this, of X rc] run show ?thesis by (simp add: wp_iff_run)
  qed
  ultimately show ?thesis using ne ident_invited_leg [of "leg_call l" "Suc (next_addr w)" codec]
    by (intro exI [of _ "mo_routed X a ?l m x ?v codec"] exI [of _ "?l\<lparr>leg_object := Mncc_object (m\<lparr>mncc_state := MNCC_CC_PROCEEDING\<rparr>)\<rparr>"]
         exI [of _ "next_addr w"] exI [of _ "Suc (next_addr w)"])
       (simp add: mo_routed_def mo_invite_def sdp_towards_sip_state timer_answered_def ident_def sip_identity_def)
qed

text \<open>An example: a call from the mobile at address 1 whose only leg, at 2, waits for its RTP port.\<close>

definition example_mo_call :: world where
  "example_mo_call = (init_world example_config)\<lparr>legs := [2 \<mapsto> example_mncc_leg MNCC_CC_INITIAL],
     calls := [1 \<mapsto> created_call 5001 2], g_call_list := [1], next_addr := 10, timers := [2], conn := ready_conn\<rparr>"

lemma example_mo_call_simps [simp]:
  "legs example_mo_call 2 = Some (example_mncc_leg MNCC_CC_INITIAL)" "calls example_mo_call 1 = Some (created_call 5001 2)"
  "calls example_mo_call (Suc 0) = Some (created_call 5001 2)"
  "g_call_list example_mo_call = [1]" "allocs example_mo_call = []" "out example_mo_call = []" "next_addr example_mo_call = 10"
  "g_app example_mo_call = example_config" "conn example_mo_call = ready_conn"
  by (simp_all add: example_mo_call_def init_world_def)

lemma example_mo_call_connected: "connected example_mo_call"
  by (auto simp: connected_def open_conn_def inv_def wf_heap_def legs_ok_def call_wf_def call_ok_def call_legs_iff conn_ok_def
      example_mo_call_def init_world_def created_call_def zero_call_def ready_conn_def split: if_splits)

lemma example_mncc_leg_object [simp]:
  "leg_object (example_mncc_leg s) = Mncc_object (zero_mncc_leg\<lparr>mncc_state := s, callref := 77\<rparr>)"
  "in_release (example_mncc_leg s) = False" "cause (example_mncc_leg s) = 31"
  by (simp_all add: example_mncc_leg_def zero_leg_def)

definition example_buf :: "u32 \<Rightarrow> gsm_mncc \<Rightarrow> mncc_buf" where
  "example_buf t m = \<lparr>as_msg_type = t, as_mncc = m, as_rtp = zero_rtp\<lparr>rtp_callref := mncc_callref m\<rparr>,
     as_hello = \<lparr>hello_msg_type = t, hello_version = MNCC_SOCK_VERSION, hello_mncc_size = 2208, hello_data_frame_size = 0,
       hello_called_offset = 0, hello_signal_offset = 0, hello_emergency_offset = 0, hello_lchan_type_offset = 0\<rparr>\<rparr>"

lemma example_bridge_more [simp]:
  "calls (example_bridge s ws) (Suc 0) = Some ((created_call 5001 2)\<lparr>remote := Some 3\<rparr>)"
  "allocs (example_bridge s ws) = []" "next_addr (example_bridge s ws) = 10" "g_app (example_bridge s ws) = example_config"
  by (simp_all add: example_bridge_def init_world_def)

lemma example_call_simps [simp]:
  "initial (created_call i a) = Some a" "remote (created_call i a) = None" "gcr_present (created_call i a) = False"
  by (simp_all add: created_call_def zero_call_def)

lemma zero_mncc_leg_simps [simp]:
  "mncc_direction zero_mncc_leg = MNCC_DIR_MO" "rsp_wanted zero_mncc_leg = 0" "called zero_mncc_leg = zero_number"
  "calling zero_mncc_leg = zero_number" "imsi zero_mncc_leg = []"
  by (simp_all add: zero_mncc_leg_def)

lemma example_lookups [simp]:
  "lookup_callref example_mo_call 77 [Suc 0] = Some 2"
  "lookup_callref (example_bridge s ws) 77 [Suc 0] = Some 2"
  by (simp_all add: has_callref_def)

lemma example_buf_simps [simp]:
  "as_msg_type (example_buf t m) = t" "as_mncc (example_buf t m) = m"
  "rtp_callref (as_rtp (example_buf t m)) = mncc_callref m"
  by (simp_all add: example_buf_def)

lemma plain_msg_simps [simp]: "mncc_callref (plain_msg t r) = r" "mncc_msg_type (plain_msg t r) = t"
  by (simp_all add: plain_msg_def)

lemma example_mo_buf:
  assumes "w = example_mo_call \<or> w = example_bridge s []" and "b = example_buf MNCC_RTP_CREATE (plain_msg MNCC_RTP_CREATE 77)"
  shows "sizeof_rtp \<le> 1168" "as_msg_type b = MNCC_RTP_CREATE"
    "lookup_callref w (rtp_callref (as_rtp b)) (g_call_list w) = Some 2" "allocs w = []"
    "mncc_direction (zero_mncc_leg\<lparr>mncc_state := s', callref := 77\<rparr>) = MNCC_DIR_MO"
  using assms by (auto simp: has_callref_def)

theorem mo_call_invited_witness:
  "\<exists>w' l' b h. mncc_data example_sdp_ext (example_buf MNCC_RTP_CREATE (plain_msg MNCC_RTP_CREATE 77)) 1168 example_mo_call = Inr ((), w')
     \<and> safe w' \<and> out w' = [Tx_mncc (plain_msg MNCC_CALL_PROC_REQ 77), Nua_handle_bind (Some h) b,
         Nua_invite (Some h) (Some ''sip:@127.0.0.1:5060'') (Some ''sip:@pbx:5060'') None (sdp_towards_sip example_sdp_ext l' sdp_sendrecv)]"
proof -
  have f: "fmt_d 5060 = ''5060''" by (simp add: fmt_d_def fmt_u.simps)
  let ?m = "zero_mncc_leg\<lparr>mncc_state := MNCC_CC_INITIAL, callref := 77\<rparr>" and ?l = "example_mncc_leg MNCC_CC_INITIAL"
  note h = example_mo_buf [OF disjI1 [OF refl] refl]
  have "\<not> in_release ?l" "calls example_mo_call (leg_call ?l) = Some (created_call 5001 2)" by simp_all
  from mo_call_invited [OF example_mo_call_connected h(1-3) example_mo_call_simps(1) example_mncc_leg_object(1) this(1) h(5) this(2)
    example_call_simps(1,2) h(4), of example_sdp_ext]
  obtain w' l' b k where "mncc_data example_sdp_ext (example_buf MNCC_RTP_CREATE (plain_msg MNCC_RTP_CREATE 77)) 1168 example_mo_call = Inr ((), w')"
    "safe w'" "out w' = out example_mo_call @ [Tx_mncc (plain_msg MNCC_CALL_PROC_REQ (callref ?m)), Nua_handle_bind (Some k) b,
         Nua_invite (Some k)
           (Some (sip_uri (mo_source example_config ?m) (sip_local_addr example_config) (sip_local_port example_config)))
           (Some (sip_uri (mo_dest ?m) (sip_remote_addr example_config) (sip_remote_port example_config)))
           (gcr_header example_sdp_ext (created_call 5001 2)) (sdp_towards_sip example_sdp_ext l' sdp_sendrecv)]"
    unfolding example_mo_call_simps by blast
  then show ?thesis
    by (intro exI [of _ w'] exI [of _ l'] exI [of _ b] exI [of _ k])
       (simp add: gcr_header_def mo_source_def mo_dest_def example_config_def sip_uri_def zero_number_def f)
qed



section \<open>Screening a call from the mobile network\<close>

definition setup_ok :: "ext \<Rightarrow> gsm_mncc \<Rightarrow> bool" where
  "setup_ok X m = ((mncc_fields m AND MNCC_F_CALLED \<noteq> 0 \<or> mncc_emergency m \<noteq> 0)
     \<and> mncc_fields m AND MNCC_F_CALLING \<noteq> 0
     \<and> num_plan (mncc_called m) \<in> {GSM340_PLAN_UNKNOWN, GSM340_PLAN_ISDN}
     \<and> (mncc_fields m AND MNCC_F_GCR \<noteq> 0 \<longrightarrow> x_dec_gcr X (mncc_gcr m) \<noteq> None))"

definition setup_number :: "gsm_mncc \<Rightarrow> gsm_mncc_number" where
  "setup_number m = (if mncc_fields m AND MNCC_F_CALLED \<noteq> 0 then mncc_called m else emergency_number)"

definition setup_gcr_of :: "ext \<Rightarrow> gsm_mncc \<Rightarrow> gcr option" where
  "setup_gcr_of X m = (if mncc_fields m AND MNCC_F_GCR \<noteq> 0 then x_dec_gcr X (mncc_gcr m) else None)"

lemma check_setup_screens:
  "check_setup X buf rc = (if rc < x_sizeof_mncc X then close_connection (release X)
     else if setup_ok X (as_mncc buf) then setup_call X (as_mncc buf) (setup_number (as_mncc buf)) (setup_gcr_of X (as_mncc buf))
     else setup_reject X (as_mncc buf))"
  by (auto simp: check_setup_def setup_ok_def setup_number_def setup_gcr_of_def continue_setup_def Let_def split: option.splits)



section \<open>Messages that call a function a SIP leg does not have\<close>

lemma wp_run_eq: "wp m (\<lambda>r v. r = x \<and> v = s') s \<Longrightarrow> m s = Inr (x, s')"
  by (auto simp: wp_iff_run)

text \<open>
  C33. ALERT and SETUP confirmation are messages for calls to the mobile. When the MSC sends one for a call
  from the mobile whose SIP leg exists, the connector calls through a NULL function pointer: the
  SIP leg of such a call has no ring and no connect function.
\<close>

theorem alert_on_mo_call_null_call:
  assumes "connected w" and "x_sizeof_mncc X \<le> rc" and "4 < rc"
    and "as_msg_type buf = MNCC_ALERT_IND \<or> as_msg_type buf = MNCC_SETUP_CNF"
    and "lookup_callref w (mncc_callref (as_mncc buf)) (g_call_list w) = Some a" and "mncc_at w a True (Some b)"
  shows "mncc_data X buf rc w = Inl Null_call"
proof -
  have find: "find_leg X buf rc w = Inr (Some a, w)"
    by (rule wp_run_eq) (use assms(1,2,5) in \<open>simp add: find_leg_def wp_mncc_find_leg connectedD\<close>)
  have nofun: "ring X b u = Inl Null_call \<and> connect X b u = Inl Null_call" if u: "connected u" "shape u = shape w" for u
  proof -
    obtain k where k: "legs u b = Some k" "\<not> is_mncc k" "\<not> bare k" "leg_mo k = (\<not> True)" "b \<noteq> a"
      using mncc_at_partner [OF mncc_at_shape [OF u(2) assms(6)] connectedD(3) [OF u(1)]] .
    then have "ring_call k = None" "connect_call k = None"
      using leg_ok_sip(8,9) [OF heap_invD(2) [OF connectedD(3) [OF u(1)] k(1)]] by simp_all
    then show ?thesis using k(1) by (simp add: ring_def connect_def get_leg_def mbind_def mfail_def)
  qed
  obtain v where v: "call_leg_rx_sdp a (Some (mncc_sdp (as_mncc buf))) w = Inr ((), v)" "connected v" "shape v = shape w"
    using rx.quiet [OF assms(1) mncc_at_live [OF assms(6)], of "Some (mncc_sdp (as_mncc buf))"] by (auto simp: wp_iff_run)
  note mv = mncc_at_shape [OF v(3) assms(6)]
  have other: "call_leg_other a v = Inr (Some b, v)" by (rule wp_run_eq) (simp add: mncc_at_other [OF mv])
  have alrt: "alrt_ind X (as_mncc buf) a w = Inl Null_call"
    using v(1) other nofun [OF v(2,3)] by (simp add: alrt_ind_def mthen_def mbind_def)
  have live: "legs v b \<noteq> None" using mncc_at_partner [OF mv connectedD(3) [OF v(2)]] by blast
  obtain u where u: "send_rtp_connect (release X) a b v = Inr (True, u)" "connected u" "shape u = shape v"
  proof -
    obtain l m where l: "legs v a = Some l" "leg_object l = Mncc_object m" using mncc_atE [OF mv connectedD(3) [OF v(2)]] by metis
    have "wp (send_rtp_connect (release X) a b) (\<lambda>r _. r) v"
      using l live by (auto simp: wp_send_rtp_connect_open connectedD [OF v(2)])
    from wp_conj [OF this rtp_connect.quiet [OF v(2), of a b]] live mncc_leg_atI [OF mv] that show ?thesis
      by (auto simp: wp_iff_run)
  qed
  let ?st = "upd_mncc a (mncc_state_update (\<lambda>_. MNCC_CC_CONNECTED))"
  have mu: "mncc_leg_at u a" using mncc_leg_atI [OF mncc_at_shape [OF u(3) mv]] .
  obtain t where t: "?st u = Inr ((), t)" "connected t" "shape t = shape u"
    using mncc_upd.quiet [OF u(2), of "mncc_state_update (\<lambda>_. MNCC_CC_CONNECTED)" a] mu by (auto simp: wp_iff_run)
  obtain z where z: "leg_send X MNCC_SETUP_COMPL_REQ a t = Inr ((), z)" "connected z" "shape z = shape t"
    using send.quiet [OF t(2) mncc_leg_at_shape [OF t(3) mu], of X MNCC_SETUP_COMPL_REQ] by (auto simp: wp_iff_run)
  have cnf: "stp_cnf X (as_mncc buf) a w = Inl Null_call"
    using v(1) other u(1) t(1) z(1) nofun [OF z(2)] z(3) t(3) u(3) v(3) by (simp add: stp_cnf_def mthen_def mbind_def)
  show ?thesis using assms(3,4) find alrt cnf
    by (auto simp: mncc_data_def check_alrt_ind_def check_stp_cnf_def on_leg_def mbind_def)
qed

theorem alert_on_mo_call_witness:
  "mncc_data example_sdp_ext (example_buf MNCC_ALERT_IND (plain_msg MNCC_ALERT_IND 77)) 2208 (example_bridge MNCC_CC_PROCEEDING []) = Inl Null_call"
proof -
  have "x_sizeof_mncc example_sdp_ext \<le> 2208" by (simp add: example_sdp_ext_def example_ext_def)
  moreover have "mncc_at (example_bridge MNCC_CC_PROCEEDING []) 2 True (Some 3)"
    by (simp add: mncc_at_def other_leg_def)
  ultimately show ?thesis
    using alert_on_mo_call_null_call [OF example_bridge_connected, of example_sdp_ext 2208] example_lookups(2)
    by (simp add: has_callref_def)
qed

end
