(* ===== verification/Call_Ends.thy ===== *)
theory Call_Ends
  imports Call_Flows
begin

text \<open>
  How calls end: what the other side is told when one side ends a call, refuses it or does not
  answer in time; and the paths of the SIP side on which a leg or a call is left behind.
\<close>

section \<open>Messages with a cause\<close>

definition cause_msg :: "u32 \<Rightarrow> u32 \<Rightarrow> int \<Rightarrow> gsm_mncc" where
  "cause_msg t r v = (plain_msg t r)\<lparr>mncc_fields := MNCC_F_CAUSE,
     mncc_cause := \<lparr>cause_coding = GSM48_CAUSE_CODING_GSM, cause_location = GSM48_CAUSE_LOC_PUN_S_LU, cause_value = v\<rparr>\<rparr>"

lemma lookup_callref_cong:
  assumes "\<And>p. has_callref v r p = has_callref w r p" and "calls v = calls w"
  shows "lookup_callref v r cs = lookup_callref w r cs"
  by (induction cs) (simp_all add: assms split: option.split)

lemma has_callref_upd:
  assumes "legs w a = Some l" and "leg_object l = Mncc_object m" and "leg_object l' = Mncc_object m'" and "callref m' = callref m"
  shows "has_callref (w\<lparr>legs := (legs w)(a \<mapsto> l')\<rparr>) r p = has_callref w r p"
  using assms by (auto simp: has_callref_def)

text \<open>A leg in release that waits for an answer.\<close>

definition waiting :: "addr \<Rightarrow> call_leg \<Rightarrow> mncc_call_leg \<Rightarrow> u32 \<Rightarrow> world \<Rightarrow> world" where
  "waiting a l m r w = w\<lparr>legs := (legs w)(a \<mapsto> l\<lparr>in_release := True, leg_object := Mncc_object (m\<lparr>rsp_wanted := r\<rparr>)\<rparr>),
     timers := a # removeAll a (timers w)\<rparr>"

lemma connected_waiting:
  assumes c: "connected w" and l: "legs w a = Some l" "leg_object l = Mncc_object m"
  shows "connected (waiting a l m r w)"
proof -
  let ?l = "l\<lparr>in_release := True, leg_object := Mncc_object (m\<lparr>rsp_wanted := r\<rparr>)\<rparr>"
  have id: "ident ?l = ident l" using l(2) by (simp add: ident_def is_mncc_def leg_mo_def leg_handle_def)
  have "connected (w\<lparr>legs := (legs w)(a \<mapsto> ?l)\<rparr>)" by (rule connected_upd [OF c l(1) id])
  moreover from this have "heap_inv (w\<lparr>legs := (legs w)(a \<mapsto> ?l), timers := a # removeAll a (timers w)\<rparr>)"
    by (intro heap_inv_timers [OF connectedD(3)])
       (auto simp: is_mncc_def dest: wf_heapD(7) [OF heap_invD(1) [OF connectedD(3) [OF c]]])
  ultimately show ?thesis by (simp add: connected_def inv_iff waiting_def)
qed

lemma waiting_message:
  assumes l: "legs w a = Some l" "leg_object l = Mncc_object m" and f: "lookup_callref w (callref m) (g_call_list w) = Some a"
    and t: "t = MNCC_DISC_REQ \<or> t = MNCC_REL_REQ"
  shows "mncc_message (waiting a l m r w) t (callref m) = cause_msg t (callref m) (cause l)"
proof -
  have "lookup_callref (waiting a l m r w) (callref m) (g_call_list w) = Some a"
    using f lookup_callref_cong [of "waiting a l m r w" "callref m" w]
      has_callref_upd [OF l, of "l\<lparr>in_release := True, leg_object := Mncc_object (m\<lparr>rsp_wanted := r\<rparr>)\<rparr>"]
    by (simp add: waiting_def has_callref_def)
  then show ?thesis using t by (auto simp: mncc_message_def waiting_def cause_msg_def plain_msg_def)
qed

text \<open>Marking a leg, starting its timer and sending one message.\<close>

lemma wp_release_wait:
  assumes c: "connected w" and l: "legs w a = Some l" "leg_object l = Mncc_object m"
    and f: "lookup_callref w (callref m) (g_call_list w) = Some a" and t: "t = MNCC_DISC_REQ \<or> t = MNCC_REL_REQ"
  shows "wp (mthen (upd_leg a (in_release_update (\<lambda>_. True))) (mthen (start_cmd_timer a r)
      (mthen (mncc_send X rel t (callref m)) n))) Q w =
    wp n Q ((waiting a l m r w)\<lparr>out := out w @ [Tx_mncc (cause_msg t (callref m) (cause l))]\<rparr>)"
proof -
  note cw = connected_waiting [OF c l, of r]
  have lw: "legs (waiting a l m r w) a = Some (l\<lparr>in_release := True, leg_object := Mncc_object (m\<lparr>rsp_wanted := r\<rparr>)\<rparr>)"
    by (simp add: waiting_def)
  have "wp (mncc_send X rel t (callref m)) (\<lambda>_. wp n Q) (waiting a l m r w) =
     wp n Q ((waiting a l m r w)\<lparr>out := out w @ [Tx_mncc (cause_msg t (callref m) (cause l))]\<rparr>)"
    using wp_mncc_send_open [OF connectedD(3,2) [OF cw] lw, of "m\<lparr>rsp_wanted := r\<rparr>"] waiting_message [OF l f t, of r]
    by (simp add: waiting_def)
  then show ?thesis using l by (simp add: wp_mthen wp_upd_leg start_cmd_timer_def wp_upd_mncc wp_timer_schedule waiting_def)
qed

lemma wp_release_wait_leg:
  assumes c: "connected w" and l: "legs w a = Some l" "leg_object l = Mncc_object m"
    and f: "lookup_callref w (callref m) (g_call_list w) = Some a" and t: "t = MNCC_DISC_REQ \<or> t = MNCC_REL_REQ"
  shows "wp (mthen (upd_leg a (in_release_update (\<lambda>_. True))) (mthen (start_cmd_timer a r) (mthen (leg_send X t a) n))) Q w =
    wp n Q ((waiting a l m r w)\<lparr>out := out w @ [Tx_mncc (cause_msg t (callref m) (cause l))]\<rparr>)"
  unfolding wp_release_wait [OF c l f t, where X = X and rel = "release X", symmetric]
  using l by (simp add: wp_mthen wp_upd_leg start_cmd_timer_def wp_upd_mncc wp_timer_schedule leg_send_def wp_mbind wp_get_mncc wp_mret_fun)

section \<open>Releasing either kind of leg\<close>

definition sip_release_actions :: "sip_call_leg \<Rightarrow> int \<Rightarrow> action list" where
  "sip_release_actions s v = (case sip_state s of
       SIP_CC_INITIAL \<Rightarrow> [Nua_handle_destroy (nua_handle s)]
     | SIP_CC_DLG_CNFD \<Rightarrow> (if sip_direction s = SIP_DIR_MT then [Nua_cancel (nua_handle s)]
         else [Nua_respond (nua_handle s) (sip_status (cause2status v)) (Some (release_reason v)) None,
               Nua_handle_destroy (nua_handle s)])
     | _ \<Rightarrow> [Nua_bye (nua_handle s)])"

definition sip_ends_at_once :: "sip_call_leg \<Rightarrow> bool" where
  "sip_ends_at_once s = (sip_state s = SIP_CC_INITIAL \<or> sip_state s = SIP_CC_DLG_CNFD \<and> sip_direction s = SIP_DIR_MO)"

lemma wp_release_sip:
  assumes inv: "heap_inv w" and k: "legs w b = Some k" "leg_object k = Sip_object s" "\<not> bare k"
  shows "wp (release X b) (\<lambda>_ v. out v = out w @ sip_release_actions s (cause k) \<and> timers v = timers w
     \<and> legs v = (if sip_ends_at_once s then (legs w)(b := None) else legs w)) w"
proof -
  have nm: "\<not> is_mncc k" using k(2) by (simp add: is_mncc_def)
  note ok = heap_invD(2) [OF inv k(1)]
  obtain x where x: "calls w (leg_call k) = Some x" using wf_heap_leg_call [OF heap_invD(1) [OF inv] k(1)] .
  have "wp (sip_release_call b) (\<lambda>_ v. out v = out w @ sip_release_actions s (cause k) \<and> timers v = timers w
     \<and> legs v = (if sip_ends_at_once s then (legs w)(b := None) else legs w)) w"
    using leg_ok_sip(1) [OF ok nm] k x heap_invD(1) [OF inv]
    by (cases "sip_state s"; cases "sip_direction s")
       (simp_all add: sip_release_call_def wp sip_release_actions_def sip_ends_at_once_def leg_gone_def)
  then show ?thesis using leg_ok_sip(4) [OF ok nm k(3)] k(1) by (simp add: numeral_2_eq_2 release_leg.simps wp_mbind wp_get_leg)
qed

definition mncc_release_msg :: "mncc_call_leg \<Rightarrow> int \<Rightarrow> gsm_mncc" where
  "mncc_release_msg m v = (if mncc_state m = MNCC_CC_INITIAL then
       (if mncc_direction m = MNCC_DIR_MO then plain_msg MNCC_REJ_REQ (callref m) else cause_msg MNCC_REL_REQ (callref m) v)
     else cause_msg MNCC_DISC_REQ (callref m) v)"

lemma wp_release_mncc:
  assumes c: "connected w" and r: "conn_state (conn w) = MNCC_READY" and l: "legs w a = Some l" "leg_object l = Mncc_object m"
    and f: "lookup_callref w (callref m) (g_call_list w) = Some a"
  shows "wp (release X a) (\<lambda>_ v. out v = out w @ [Tx_mncc (mncc_release_msg m (cause l))]) w"
proof -
  have im: "is_mncc l" using l(2) by (simp add: is_mncc_def)
  note ok = heap_invD(2) [OF connectedD(3) [OF c] l(1)]
  note wait = wp_release_wait [OF c l f]
  have "wp (mncc_call_leg_release X rel a) (\<lambda>_ v. out v = out w @ [Tx_mncc (mncc_release_msg m (cause l))]) w" for rel
  proof (cases "mncc_state m = MNCC_CC_INITIAL \<and> mncc_direction m = MNCC_DIR_MO")
    case True
    obtain x where x: "calls w (leg_call l) = Some x" using heap_inv_mncc [OF connectedD(3) [OF c] l(1) im] by blast
    let ?v = "w\<lparr>timers := removeAll a (timers w), out := out w @ [Tx_mncc (plain_msg MNCC_REJ_REQ (callref m))]\<rparr>"
    have hv: "heap_inv ?v" using heap_inv_timers_removeAll [OF connectedD(3) [OF c], of a] by simp
    show ?thesis
      using True r l leg_ok_mncc(1) [OF ok im] wp_mncc_leg_release [OF hv, of a l x] x
      by (simp add: mncc_call_leg_release_def wp_mbind wp_mthen wp_get_leg wp_massert wp_get_mncc wp_mget
          wp_mncc_send_plain [OF connectedD(2) [OF c]] wp_timer_del plain_msg_def leg_gone_def mncc_release_msg_def world_norm)
  next
    case False
    then show ?thesis
      using r l leg_ok_mncc(1) [OF ok im]
      by (auto simp: mncc_call_leg_release_def wp_mbind wp_mthen [of "massert _"] wp_get_leg wp_massert wp_get_mncc wp_mget
          wait wp_mret mncc_release_msg_def intro: mncc_dir.exhaust)
  qed
  then show ?thesis using leg_ok_mncc(4) [OF ok im] l(1) by (simp add: numeral_2_eq_2 release_leg.simps wp_mbind wp_get_leg)
qed

section \<open>The network ends a call\<close>

lemma disc_ind_both:
  assumes "connected w" and "x_sizeof_mncc X \<le> rc" and "4 < rc" and "as_msg_type buf = MNCC_DISC_IND"
    and "lookup_callref w (mncc_callref (as_mncc buf)) (g_call_list w) = Some a"
    and "legs w a = Some l" and "leg_object l = Mncc_object m" and "calls w (leg_call l) = Some x"
    and "other_leg a x = Some b" and "legs w b = Some k" and "leg_object k = Sip_object s"
  shows "wp (mncc_data X buf rc) (\<lambda>_ w'. safe w'
     \<and> out w' = out w @ Tx_mncc (cause_msg MNCC_REL_REQ (callref m) (cause l))
         # sip_release_actions s (cause_value (mncc_cause (as_mncc buf)))
     \<and> legs w' a = Some (l\<lparr>in_release := True, leg_object := Mncc_object (m\<lparr>rsp_wanted := MNCC_REL_CNF\<rparr>)\<rparr>)
     \<and> a \<in> set (timers w') \<and> (legs w' b = None \<longleftrightarrow> sip_ends_at_once s)) w"
proof -
  let ?cv = "cause_value (mncc_cause (as_mncc buf))"
  have r: "mncc_callref (as_mncc buf) = callref m" using lookup_callref_Some [OF assms(5)] assms(6,7) by auto
  have im: "is_mncc l" using assms(7) by (simp add: is_mncc_def)
  note inv = connectedD(3) [OF assms(1)]
  have ab: "a \<noteq> b" using other_leg_cases [OF heap_invD(1) [OF inv] assms(6,8,9)] by blast
  have nb: "\<not> bare k" using pair_not_bare(2) [OF inv assms(6,8,9,10)] .
  let ?w1 = "(waiting a l m MNCC_REL_CNF w)\<lparr>out := out w @ [Tx_mncc (cause_msg MNCC_REL_REQ (callref m) (cause l))]\<rparr>"
  let ?w2 = "?w1\<lparr>legs := (legs ?w1)(b \<mapsto> k\<lparr>cause := ?cv\<rparr>)\<rparr>"
  let ?post = "\<lambda>w'. out w' = out w @ Tx_mncc (cause_msg MNCC_REL_REQ (callref m) (cause l)) # sip_release_actions s ?cv
     \<and> legs w' a = Some (l\<lparr>in_release := True, leg_object := Mncc_object (m\<lparr>rsp_wanted := MNCC_REL_CNF\<rparr>)\<rparr>)
     \<and> a \<in> set (timers w') \<and> (legs w' b = None \<longleftrightarrow> sip_ends_at_once s)"
  have c1: "connected ?w1" using connected_waiting [OF assms(1,6,7)] by simp
  have k1: "legs ?w1 b = Some k" using assms(10) ab by (simp add: waiting_def)
  have "connected ?w2" by (rule connected_upd [OF c1 k1]) simp
  then have "wp (release X b) (\<lambda>_. ?post) ?w2"
    using ab assms(11) ident_eqD(6) [of "k\<lparr>cause := ?cv\<rparr>" k] nb
    by (intro wp_mono [OF wp_release_sip [OF connectedD(3), of ?w2 b "k\<lparr>cause := ?cv\<rparr>" s]])
       (auto simp: waiting_def split: if_splits)
  then have rel: "wp (release_with_cause X (Some b) ?cv) (\<lambda>_. ?post) ?w1"
    using k1 by (simp add: release_with_cause_def wp_mthen wp_upd_leg)
  have other: "wp (call_leg_other a) Q ?w1 = Q (Some b) ?w1" for Q
    using assms(8,9) by (auto simp: wp_call_leg_other waiting_def)
  have d: "wp (disc_ind X (as_mncc buf) a) (\<lambda>_. ?post) w"
    using rel r assms(5) unfolding disc_ind_def
    by (simp only: wp_release_wait_leg [OF assms(1,6,7), of MNCC_REL_REQ] simp_thms wp_mbind other)
  have "wp (check_disc_ind X buf rc) (\<lambda>_. ?post) w"
    using d assms(2,5) by (simp add: check_disc_ind_def on_leg_def find_leg_def wp_mbind wp_mncc_find_leg [OF inv])
  moreover have "msc_conforms w buf" using assms(4) by (simp add: msc_conforms_def)
  ultimately show ?thesis
    using mncc_data_safe [OF assms(1), of buf X rc] assms(3,4) by (auto simp: mncc_data_def wp_iff_run)
qed

text \<open>
  C13. A DISC indication ends the call on both sides. The MSC gets one REL_REQ for the leg, which is then
  marked as in release and waits under its timer for the confirmation; the SIP side is ended as
  its dialogue requires, with the status for the cause the network gave. The SIP leg is freed at
  once exactly when no answer of the peer is to be awaited.
\<close>

theorem disc_ind_correct:
  assumes "connected w" and "x_sizeof_mncc X \<le> rc" and "4 < rc" and "as_msg_type buf = MNCC_DISC_IND"
    and "lookup_callref w (mncc_callref (as_mncc buf)) (g_call_list w) = Some a"
    and "legs w a = Some l" and "leg_object l = Mncc_object m" and "calls w (leg_call l) = Some x"
    and "other_leg a x = Some b" and "legs w b = Some k" and "leg_object k = Sip_object s"
  shows "\<exists>w'. mncc_data X buf rc w = Inr ((), w') \<and> safe w'
     \<and> out w' = out w @ Tx_mncc (cause_msg MNCC_REL_REQ (callref m) (cause l))
         # sip_release_actions s (cause_value (mncc_cause (as_mncc buf)))
     \<and> legs w' a = Some (l\<lparr>in_release := True, leg_object := Mncc_object (m\<lparr>rsp_wanted := MNCC_REL_CNF\<rparr>)\<rparr>)
     \<and> a \<in> set (timers w') \<and> (legs w' b = None \<longleftrightarrow> sip_ends_at_once s)"
  using disc_ind_both [OF assms] by (simp add: wp_iff_run)

lemma example_mncc_size: "x_sizeof_mncc example_sdp_ext \<le> 2208"
  by (simp add: example_sdp_ext_def example_ext_def)

lemma example_remote_object [simp]:
  "leg_object example_remote_leg = Sip_object (zero_sip\<lparr>nua_handle := Some 9, sip_direction := SIP_DIR_MT\<rparr>)"
  "cause example_remote_leg = 0" "\<not> bare example_remote_leg"
  using example_leg_idents(2)
  by (auto simp: example_remote_leg_def zero_leg_def bare_def ident_def sip_identity_def bare_identity_def)

theorem disc_ind_witness:
  "\<exists>w'. mncc_data example_sdp_ext (example_buf MNCC_DISC_IND (cause_msg MNCC_DISC_IND 77 17)) 2208 (example_bridge MNCC_CC_PROCEEDING [])
       = Inr ((), w') \<and> out w' = [Tx_mncc (cause_msg MNCC_REL_REQ 77 31), Nua_handle_destroy (Some 9)] \<and> legs w' 3 = None \<and> 2 \<in> set (timers w')"
proof -
  let ?w = "example_bridge MNCC_CC_PROCEEDING []" and ?b = "example_buf MNCC_DISC_IND (cause_msg MNCC_DISC_IND 77 17)"
  have "lookup_callref ?w (mncc_callref (as_mncc ?b)) (g_call_list ?w) = Some 2"
    by (simp add: cause_msg_def has_callref_def)
  moreover have "calls ?w (leg_call (example_mncc_leg MNCC_CC_PROCEEDING)) = Some ((created_call 5001 2)\<lparr>remote := Some 3\<rparr>)"
    "other_leg 2 ((created_call 5001 2)\<lparr>remote := Some 3\<rparr>) = Some 3" by (simp_all add: other_leg_def)
  ultimately show ?thesis
    using disc_ind_correct [where buf = ?b and x = "(created_call 5001 2)\<lparr>remote := Some 3\<rparr>", OF example_bridge_connected example_mncc_size
      _ _ _ example_bridge_simps(1) example_mncc_leg_object(1) _ _ example_bridge_simps(2) example_remote_object(1)]
    by (auto simp: sip_release_actions_def sip_ends_at_once_def zero_sip_def)
qed

section \<open>The SIP peer ends or refuses a call\<close>

text \<open>The MNCC leg stays findable when its partner goes.\<close>

lemma lookup_without_partner:
  assumes l: "legs w a = Some l" "\<not> is_mncc l" and x: "calls w (leg_call l) = Some x" and o: "other_leg a x = Some b"
  shows "lookup_callref (leg_gone a (leg_call l) x w) r cs = lookup_callref w r cs"
proof -
  let ?v = "leg_gone a (leg_call l) x w"
  have a: "\<not> has_callref w r (Some a)" for r using l by (auto simp: has_callref_def is_mncc_def)
  have h: "has_callref ?v r p = has_callref w r p" for p
    using a [of r] o by (cases "p = Some a") (auto simp: has_callref_def leg_gone_def)
  have no: "\<not> has_callref w r None" by (simp add: has_callref_def)
  have u: "has_callref w r (initial (unlink a x)) = has_callref w r (initial x)"
    "has_callref w r (remote (unlink a x)) = has_callref w r (remote x)"
    "has_callref w r (initial x) \<Longrightarrow> initial (unlink a x) = initial x"
    "has_callref w r (remote x) \<Longrightarrow> remote (unlink a x) = remote x"
    using a [of r] no by (auto simp: unlink_def)
  have c: "calls ?v = (calls w)(leg_call l \<mapsto> unlink a x)" using o by (simp add: leg_gone_def)
  show ?thesis
  proof (induction cs)
    case (Cons d cs)
    then show ?case using x u by (cases "d = leg_call l") (auto simp: h c split: option.split)
  qed simp
qed

text \<open>What is common to the ends: the SIP leg is freed and the MNCC leg released.\<close>

lemma sip_gone_release:
  assumes s: "safe w" and r: "conn_state (conn w) = MNCC_READY" and k: "legs w a = Some k" "\<not> is_mncc k"
    and x: "calls w (leg_call k) = Some x" "other_leg a x = Some b" and l: "legs w b = Some l" "leg_object l = Mncc_object m"
    and f: "lookup_callref w (callref m) (g_call_list w) = Some b"
  shows "wp (mthen (call_leg_release a) (release X b)) (\<lambda>_ v. out v = out w @ [Tx_mncc (mncc_release_msg m (cause l))]) w"
    and "wp (mthen (call_leg_release a) (release_with_cause X (Some b) v)) (\<lambda>_ v'. out v' = out w @ [Tx_mncc (mncc_release_msg m v)]) w"
proof -
  note inv = safeD(2) [OF s]
  let ?v = "leg_gone a (leg_call k) x w"
  obtain sl x' where t: "a \<notin> set (timers w)" using heap_inv_sip [OF inv k(1)] k(2) unfolding sip_kind_def by blast
  have "safe ?v" using safe_frame [OF only_leg_frame [OF only_leg_gone [OF k(1)]] heap_inv_leg_gone [OF inv k(1) x(1) t] s] .
  have ab: "b \<noteq> a" using other_leg_cases [OF heap_invD(1) [OF inv] k(1) x] by blast
  have lv: "legs ?v b = Some l" using l(1) ab by (simp add: leg_gone_def)
  have cv: "connected ?v" using safe_mncc_connected [OF \<open>safe ?v\<close> lv] l(2) by (simp add: is_mncc_def)
  have same: "conn ?v = conn w" "out ?v = out w" "g_call_list ?v = g_call_list w" using x(2) by (simp_all add: leg_gone_def)
  have fv: "lookup_callref ?v (callref m) (g_call_list w) = Some b" using f lookup_without_partner [OF k x] by simp
  let ?l = "l\<lparr>cause := v\<rparr>"
  let ?u = "?v\<lparr>legs := (legs ?v)(b \<mapsto> ?l)\<rparr>"
  have cu: "connected ?u" by (rule connected_upd [OF cv lv]) simp
  have "lookup_callref ?u (callref m) (g_call_list w) = Some b"
    using fv lookup_callref_cong [of ?u "callref m" ?v] has_callref_upd [OF lv l(2), of ?l m] l(2) by simp
  then have "wp (release X b) (\<lambda>_ v'. out v' = out ?u @ [Tx_mncc (mncc_release_msg m (cause ?l))]) ?u"
    by (intro wp_release_mncc [OF cu]) (use same r l(2) in simp_all)
  then show "wp (mthen (call_leg_release a) (release_with_cause X (Some b) v)) (\<lambda>_ v'. out v' = out w @ [Tx_mncc (mncc_release_msg m v)]) w"
    using lv same by (simp add: wp_mthen wp_call_leg_release [OF safeD(3) [OF s] k(1) x(1)] release_with_cause_def wp_upd_leg)
  have "wp (release X b) (\<lambda>_ v'. out v' = out ?v @ [Tx_mncc (mncc_release_msg m (cause l))]) ?v"
    by (rule wp_release_mncc [OF cv _ lv l(2)]) (use same r fv in simp_all)
  then show "wp (mthen (call_leg_release a) (release X b)) (\<lambda>_ v. out v = out w @ [Tx_mncc (mncc_release_msg m (cause l))]) w"
    using same by (simp add: wp_mthen wp_call_leg_release [OF safeD(3) [OF s] k(1) x(1)])
qed





section \<open>No answer in time\<close>

text \<open>
  C16. When the MSC does not answer in time, the MNCC leg is freed with its timer, and the SIP leg
  of the call, if there is one, is ended as its dialogue requires. Nothing is sent to the MSC.
\<close>

theorem cmd_timeout_correct:
  assumes "connected w" and "legs w a = Some l" and "is_mncc l" and "calls w (leg_call l) = Some x"
  shows "\<exists>w'. cmd_timeout X a w = Inr ((), w') \<and> safe w' \<and> legs w' a = None \<and> a \<notin> set (timers w')
     \<and> (case other_leg a x of None \<Rightarrow> calls w' (leg_call l) = None \<and> out w' = out w
        | Some b \<Rightarrow> \<exists>k s. legs w b = Some k \<and> leg_object k = Sip_object s
            \<and> out w' = out w @ sip_release_actions s (cause k) \<and> (legs w' b = None \<longleftrightarrow> sip_ends_at_once s))"
    (is "\<exists>w'. _ \<and> _ \<and> _ \<and> _ \<and> ?end w'")
proof -
  note inv = connectedD(3) [OF assms(1)]
  obtain m where m: "leg_object l = Mncc_object m" using heap_inv_mncc [OF inv assms(2,3)] by blast
  have "wp (cmd_timeout X a) (\<lambda>_. ?end) w"
  proof (cases "other_leg a x")
    case None
    then show ?thesis using assms(2,4) m wp_mncc_leg_release [OF inv assms(2,4)]
      by (simp add: cmd_timeout_def wp_mbind wp_mthen wp_get_mncc wp_call_leg_other release_ptr_def wp_mret leg_gone_def)
  next
    case (Some b)
    obtain k where k: "legs w b = Some k" "leg_call k = leg_call l" "b \<noteq> a"
      using other_leg_cases [OF heap_invD(1) [OF inv] assms(2,4) Some] by blast
    have nb: "\<not> bare k" "\<not> is_mncc k" using pair_not_bare [OF inv assms(2,4) Some k(1)] assms(3) by auto
    obtain s where s: "leg_object k = Sip_object s" using leg_ok_sip(3) [OF heap_invD(2) [OF inv k(1)] nb(2)] by blast
    have "wp (release X b) (\<lambda>_. wp (mncc_leg_release a) (\<lambda>_. ?end)) w"
    proof (rule wp_mono [OF wp_conj [OF wp_release_sip [OF inv k(1) s nb(1)] release_connected [OF assms(1) k(1) nb(1)]]])
      fix v assume v: "(out v = out w @ sip_release_actions s (cause k) \<and> timers v = timers w
         \<and> legs v = (if sip_ends_at_once s then (legs w)(b := None) else legs w)) \<and> connected v \<and> leg_frame b w v"
      then have lv: "legs v a = Some l" using assms(2) k(3) by simp
      then obtain y where y: "calls v (leg_call l) = Some y" using wf_heap_leg_call [OF heap_invD(1) [OF connectedD(3)]] v by blast
      show "wp (mncc_leg_release a) (\<lambda>_. ?end) v"
        using wp_mncc_leg_release [OF _ lv y] v k s Some connectedD(3) by (auto simp: leg_gone_def)
    qed
    then show ?thesis using assms(2,4) m Some by (simp add: cmd_timeout_def wp_mbind wp_mthen wp_get_mncc wp_call_leg_other release_ptr_def)
  qed
  from wp_conj [OF this cmd_timeout_connected [OF assms(1-3), of X]]
  obtain w' where w': "cmd_timeout X a w = Inr ((), w')" "?end w'" "connected w'" "legs w' a = None" by (auto simp: wp_iff_run)
  moreover have "a \<notin> set (timers w')" using wf_heapD(7) [OF heap_invD(1) [OF connectedD(3) [OF w'(3)]], of a] w'(4) by auto
  ultimately show ?thesis by (intro exI [of _ w']) (auto simp: connected_safe)
qed

theorem cmd_timeout_witness:
  "\<exists>w'. cmd_timeout example_sdp_ext 2 (example_bridge MNCC_CC_PROCEEDING []) = Inr ((), w') \<and> legs w' 2 = None
     \<and> out w' = [Nua_handle_destroy (Some 9)]"
proof -
  have "calls (example_bridge MNCC_CC_PROCEEDING []) (leg_call (example_mncc_leg MNCC_CC_PROCEEDING)) = Some ((created_call 5001 2)\<lparr>remote := Some 3\<rparr>)"
    by simp
  from cmd_timeout_correct [OF example_bridge_connected example_bridge_simps(1) example_leg_simps(4) this, of example_sdp_ext]
  show ?thesis by (auto simp: other_leg_def sip_release_actions_def zero_sip_def)
qed

section \<open>The connection\<close>

text \<open>
  C17. The connection becomes ready exactly on a HELLO of the right size and version, and nothing
  else changes. Any other HELLO closes the connection, frees every MNCC leg and schedules a new attempt.
\<close>

theorem hello_correct:
  assumes "connected w" and "4 < rc" and "as_msg_type buf = MNCC_SOCKET_HELLO"
  shows "\<exists>w'. mncc_data X buf rc w = Inr ((), w') \<and> safe w'
     \<and> (if rc = sizeof_hello \<and> hello_version (as_hello buf) = MNCC_SOCK_VERSION
        then w' = w\<lparr>conn := (conn w)\<lparr>conn_state := MNCC_READY\<rparr>\<rparr>
        else conn_state (conn w') = MNCC_DISCONNECTED \<and> reconnect_pending (conn w')
          \<and> (\<forall>a l. legs w' a = Some l \<longrightarrow> \<not> is_mncc l))"
    (is "\<exists>w'. _ \<and> _ \<and> ?end w'")
proof -
  have od: "on_disconnect (conn w) = Some FP_app_mncc_disconnected" and fd: "0 \<le> conn_fd (conn w)"
    using invD(3) [OF connectedD(1) [OF assms(1)]] connectedD(2) [OF assms(1)] by (auto simp: conn_ok_def open_conn_def)
  have "wp (close_connection (release X)) (\<lambda>_ w'. conn_state (conn w') = MNCC_DISCONNECTED \<and> reconnect_pending (conn w')
       \<and> (\<forall>a l. legs w' a = Some l \<longrightarrow> \<not> is_mncc l)) w"
    using wp_mono [OF close_connection_ok [OF connectedD(3) [OF assms(1)] od fd, of X 1]]
    by (simp add: numeral_2_eq_2 inv_def conn_ok_def)
  then have "wp (check_hello X buf rc) (\<lambda>_. ?end) w" by (auto simp: check_hello_def wp_mmod)
  from wp_conj [OF this check_hello_safe [OF assms(1)]] assms(2,3) show ?thesis by (auto simp: mncc_data_def wp_iff_run)
qed

theorem hello_witness:
  "\<exists>w'. mncc_data example_sdp_ext (example_buf MNCC_SOCKET_HELLO zero_mncc) 31 example_mo_call = Inr ((), w')
     \<and> conn_state (conn w') = MNCC_DISCONNECTED \<and> reconnect_pending (conn w')"
  using hello_correct [OF example_mo_call_connected, of 31 "example_buf MNCC_SOCKET_HELLO zero_mncc" example_sdp_ext] by auto

section \<open>Whole messages and events are safe\<close>

text \<open>
  Memory safety of the MNCC side. Whatever packet arrives on an open connection, of any type,
  length and content, is handled without a fault - no access to freed memory, no NULL pointer, no failed
  assertion - and leaves the invariant in place, provided the MSC sends ALERT and SETUP
  confirmation only for calls it was offered and answers RTP_CREATE of a call only once.
\<close>

theorem mncc_message_safe:
  assumes "connected w" and "msc_conforms w buf"
  shows "\<exists>w'. mncc_data X buf rc w = Inr ((), w') \<and> inv w' \<and> writes w' = []"
  using mncc_data_safe [OF assms, of X rc] by (auto simp: wp_iff_run safe_def)

theorem mncc_message_witness:
  "\<exists>w'. mncc_data example_sdp_ext (example_buf MNCC_HOLD_IND (plain_msg MNCC_HOLD_IND 77)) 2208 (example_bridge MNCC_CC_CONNECTED [])
     = Inr ((), w') \<and> inv w'"
proof -
  have "msc_conforms (example_bridge MNCC_CC_CONNECTED []) (example_buf MNCC_HOLD_IND (plain_msg MNCC_HOLD_IND 77))"
    by (simp add: msc_conforms_def)
  from mncc_message_safe [OF example_bridge_connected this] show ?thesis by blast
qed

text \<open>
  Memory safety of the SIP side. Every event of the SIP stack, with any status, handle and
  message, is handled without a fault and leaves the invariant in place, whether or not the MNCC
  connection is up, provided the stack hands over the leg it was given for the handle and a
  message where it promises one, and memory for a new call can be had.
\<close>

theorem sip_event_safe:
  assumes "safe w" and "stack_conforms w event status hmagic sip"
  shows "\<exists>w'. nua_callback X event status nh hmagic sip w = Inr ((), w') \<and> inv w' \<and> writes w' = []"
  using nua_callback_safe [OF assms, of X nh] by (auto simp: wp_iff_run safe_def)

theorem sip_event_witness:
  "\<exists>w'. nua_callback example_sdp_ext nua_r_invite 200 9 (Some 3) (Some example_sip) (example_bridge MNCC_CC_PROCEEDING [])
     = Inr ((), w') \<and> inv w'"
proof -
  have "stack_conforms (example_bridge MNCC_CC_PROCEEDING []) nua_r_invite 200 (Some 3) (Some example_sip)"
    by (simp add: stack_conforms_def leg_handle_def)
  moreover have "safe (example_bridge MNCC_CC_PROCEEDING [])" using example_bridge_connected by (simp add: connected_safe)
  ultimately show ?thesis using sip_event_safe by blast
qed

section \<open>What the SIP side leaves behind\<close>

text \<open>Received SDP and extracted media change the leg only, and not what identifies it.\<close>

definition touched :: "addr \<Rightarrow> world \<Rightarrow> world \<Rightarrow> bool" where
  "touched a w v = (\<exists>k k'. legs w a = Some k \<and> v = w\<lparr>legs := (legs w)(a \<mapsto> k')\<rparr> \<and> ident k' = ident k \<and> leg_object k' = leg_object k)"

lemma touched_refl: "legs w a \<noteq> None \<Longrightarrow> touched a w w"
proof -
  assume "legs w a \<noteq> None"
  then obtain k where k: "legs w a = Some k" by blast
  then have "w = w\<lparr>legs := (legs w)(a \<mapsto> k)\<rparr>" by (simp add: fun_upd_idem)
  with k show ?thesis unfolding touched_def by blast
qed

lemma touched_upd: "touched a w v \<Longrightarrow> legs v a = Some k \<Longrightarrow> ident k' = ident k \<Longrightarrow> leg_object k' = leg_object k \<Longrightarrow>
    touched a w (v\<lparr>legs := (legs v)(a \<mapsto> k')\<rparr>)"
  by (auto simp: touched_def)

lemma touched_rx:
  assumes "touched a w v"
  shows "wp (call_leg_rx_sdp a sd) (\<lambda>_. touched a w) v"
proof -
  obtain k where k: "legs v a = Some k" using assms by (auto simp: touched_def)
  have "touched a w (v\<lparr>legs := (legs v)(a \<mapsto> k\<lparr>rx_sdp := t, rx_sdp_changed := True\<rparr>)\<rparr>)" for t
    by (rule touched_upd [OF assms k]) (simp_all add: ident_def is_mncc_def leg_mo_def leg_handle_def)
  then show ?thesis using assms k by (auto simp: wp_call_leg_rx_sdp split: option.splits)
qed

lemma touched_release:
  assumes "safe w" and "legs w a = Some k" and "calls w (leg_call k) = Some x" and "other_leg a x = Some b" and "legs w b = Some l"
    and "touched a w v"
  shows "wp (call_leg_release a) (\<lambda>_ w'. out w' = os \<and> legs w' a = None \<and> legs w' b = Some l
     \<and> map_option (other_leg b) (calls w' (leg_call k)) = Some None) (v\<lparr>out := os\<rparr>)"
proof -
  have ab: "b \<noteq> a" and ob: "other_leg b x = Some a"
    using other_leg_cases [OF safeD(3) [OF assms(1)] assms(2-4)] assms(5) by auto
  obtain k' where k': "v = w\<lparr>legs := (legs w)(a \<mapsto> k')\<rparr>" "ident k' = ident k" using assms(2,6) by (auto simp: touched_def)
  then have "safe (v\<lparr>out := os\<rparr>)" using safe_upd [OF assms(1,2) k'(2)] by simp
  from wp_call_leg_release [OF safeD(3) [OF this], of a k' x] k' assms(2-5) ab ob ident_eqD(2) [OF k'(2)]
  show ?thesis by (auto simp: leg_gone_def unlink_def other_leg_def split: if_splits)
qed

lemma reinvite_media_refuses:
  assumes v: "touched a w v" and k: "legs w a = Some k" "leg_object k = Sip_object s" and sdp: "parsed_session X sip False = Some sdp"
    and no: "\<forall>md \<in> set (sdp_medias sdp). \<not> usable_media True (wanted_codec s) md"
    and rel: "\<And>v. touched a w v \<Longrightarrow> wp (call_leg_release a) (\<lambda>_. P) (v\<lparr>out := out w @ refusal nh\<rparr>)"
  shows "wp (mbind (reinvite_media X a b nh sip prev) (\<lambda>r. case r of None \<Rightarrow> mret () | Some s \<Rightarrow> respond_sdp nh s)) (\<lambda>_. P) v"
proof -
  obtain k' where k': "legs v a = Some k'" "leg_object k' = Sip_object s" "out v = out w" using v k by (auto simp: touched_def)
  have "\<not> extract_ok X sdp True s k'"
    using no extract_media_None_iff [of True "wanted_codec s" "sdp_medias sdp"] by (simp add: extract_ok_def)
  moreover have "touched a w (v\<lparr>legs := (legs v)(a \<mapsto> extracted X sdp True s k')\<rparr>)"
    by (rule touched_upd [OF v k'(1)]) (simp_all add: ident_extracted)
  ultimately show ?thesis using rel k'
    by (simp add: reinvite_media_def wp_mbind wp_sdp_extract_sdp sdp wp_not_acceptable wp_mthen wp_mret wp_mret_fun)
qed

text \<open>
  C37. A re-INVITE without usable audio ends only half of the call: the SIP leg is refused with 406
  and freed, but the MNCC leg stays, not marked as in release, and the MSC is told nothing.
\<close>

theorem reinvite_without_audio_strands:
  assumes "safe w" and "lookup_handle w nh (g_call_list w) = Some a" and "legs w a = Some k" and "leg_object k = Sip_object s"
    and "calls w (leg_call k) = Some x" and "other_leg a x = Some b" and "legs w b = Some l"
    and "sdp_get_sdp_mode X sip = Some mode" and "mode \<noteq> sdp_sendonly" and "parsed_session X sip False = Some sdp"
    and "\<forall>md \<in> set (sdp_medias sdp). \<not> usable_media True (wanted_codec s) md"
  shows "\<exists>w'. nua_callback X nua_i_invite 100 nh hmagic (Some sip) w = Inr ((), w')
     \<and> out w' = out w @ [Nua_respond (Some nh) 406 None None, Nua_handle_destroy (Some nh)]
     \<and> legs w' a = None \<and> legs w' b = Some l \<and> map_option (other_leg b) (calls w' (leg_call k)) = Some None"
proof -
  note inv = safeD(2) [OF assms(1)]
  let ?post = "\<lambda>w'. out w' = out w @ refusal nh
     \<and> legs w' a = None \<and> legs w' b = Some l \<and> map_option (other_leg b) (calls w' (leg_call k)) = Some None"
  have media: "wp (mbind (reinvite_media X a b nh sip prev) (\<lambda>r. case r of None \<Rightarrow> mret () | Some s \<Rightarrow> respond_sdp nh s)) (\<lambda>_. ?post) v"
    if "touched a w v" for v prev
    by (rule reinvite_media_refuses [OF that assms(3,4,10,11)]) (rule touched_release [OF assms(1,3,5-7)])
  have reinvite: "wp (sip_handle_reinvite X a nh sip) (\<lambda>_. ?post) v" if v: "touched a w v" for v
  proof -
    obtain k' where k': "legs v a = Some k'" "leg_call k' = leg_call k" "calls v = calls w"
      using v assms(3) by (auto simp: touched_def dest: ident_eqD(2))
    have "wp (mthen (call_leg_rx_sdp a sd) (mbind (reinvite_media X a b nh sip prev)
        (\<lambda>r. case r of None \<Rightarrow> mret () | Some s \<Rightarrow> respond_sdp nh s))) (\<lambda>_. ?post) v" for sd prev
      unfolding wp_mthen by (rule wp_mono [OF touched_rx [OF v]]) (rule media)
    then show ?thesis using k' assms(5,6,8,9)
      by (simp add: sip_handle_reinvite_def wp_mbind [of "get_leg _"] wp_get_leg wp_mbind [of "call_leg_other _"] wp_call_leg_other)
  qed
  have "wp (mthen (call_leg_rx_sdp a sd) (sip_handle_reinvite X a nh sip)) (\<lambda>_. ?post) w" for sd
    unfolding wp_mthen by (rule wp_mono [OF touched_rx [OF touched_refl]]) (use assms(3) reinvite in auto)
  then have "wp (nua_callback X nua_i_invite 100 nh hmagic (Some sip)) (\<lambda>_. ?post) w"
    using assms(2) by (simp add: nua_callback_def i_invite_def deref_sip_def wp_mbind [of "mret _"] wp_mret wp_mbind [of "sip_find_leg _"] wp_sip_find_leg [OF inv])
  then show ?thesis by (auto simp: wp_iff_run)
qed

text \<open>SDP with a video stream only.\<close>

definition video_session :: sdp_session where
  "video_session = \<lparr>sdp_connections = [\<lparr>c_addrtype = sdp_addr_ip4, c_address = ''10.0.0.9''\<rparr>],
     sdp_medias = [\<lparr>m_proto = sdp_proto_rtp, m_type = sdp_media_other, m_port = 4000, m_mode = sdp_sendrecv, m_rtpmaps = []\<rparr>],
     sdp_rest = ''v=0''\<rparr>"

theorem reinvite_without_audio_witness:
  "\<exists>w'. nua_callback (example_ext (\<lambda>_. Some (Some video_session))) nua_i_invite 100 9 None (Some example_sip) (example_bridge MNCC_CC_CONNECTED [])
       = Inr ((), w')
     \<and> out w' = [Nua_respond (Some 9) 406 None None, Nua_handle_destroy (Some 9)]
     \<and> legs w' 3 = None \<and> legs w' 2 = Some (example_mncc_leg MNCC_CC_CONNECTED)"
proof -
  let ?w = "example_bridge MNCC_CC_CONNECTED []" and ?X = "example_ext (\<lambda>_. Some (Some video_session))"
  have "safe ?w" using example_bridge_connected by (simp add: connected_safe)
  moreover have "lookup_handle ?w 9 (g_call_list ?w) = Some 3"
    by (simp add: has_handle_def leg_handle_def)
  moreover have "calls ?w (leg_call example_remote_leg) = Some ((created_call 5001 2)\<lparr>remote := Some 3\<rparr>)"
    "other_leg 3 ((created_call 5001 2)\<lparr>remote := Some 3\<rparr>) = Some 2" by (simp_all add: other_leg_def)
  moreover have "parsed_session ?X example_sip b = Some video_session" for b
    by (simp add: parsed_session_def payload_data_def example_sip_def example_ext_def)
  moreover from this have "sdp_get_sdp_mode ?X example_sip = Some sdp_sendrecv"
    by (simp add: sdp_get_sdp_mode_def video_session_def)
  moreover have "\<forall>md \<in> set (sdp_medias video_session). \<not> usable_media True c md" for c
    by (simp add: video_session_def usable_media_def)
  ultimately show ?thesis
    using reinvite_without_audio_strands [where x = "(created_call 5001 2)\<lparr>remote := Some 3\<rparr>" and X = ?X and w = ?w and nh = 9 and mode = sdp_sendrecv
      and sdp = video_session and sip = example_sip and hmagic = None, OF _ _ example_bridge_simps(2) example_remote_object(1) _ _ example_bridge_simps(1)]
    by auto
qed



end
