(* ===== verification/Log_Categories.thy ===== *)
theory Log_Categories
  imports Prelude
begin

text \<open>
  \<open>src/src/logging.h\<close> and the table of categories of \<open>src/src/main.c\<close>. Which messages libosmocore writes
  is a parameter (\<open>log_check_level\<close>); it starts from the table.
\<close>

section \<open>Categories and levels\<close>

datatype log_category = DSIP | DMNCC | DAPP | DCALL

fun cat_index :: "log_category \<Rightarrow> nat" where
  "cat_index DSIP = 0"
| "cat_index DMNCC = 1"
| "cat_index DAPP = 2"
| "cat_index DCALL = 3"

text \<open>The levels of libosmocore, from the least severe to the most severe.\<close>

datatype log_level = LOGL_DEBUG | LOGL_INFO | LOGL_NOTICE | LOGL_ERROR | LOGL_FATAL

fun severity :: "log_level \<Rightarrow> nat" where
  "severity LOGL_DEBUG = 0"
| "severity LOGL_INFO = 1"
| "severity LOGL_NOTICE = 2"
| "severity LOGL_ERROR = 3"
| "severity LOGL_FATAL = 4"

instantiation log_level :: linorder
begin

definition less_eq_log_level :: "log_level \<Rightarrow> log_level \<Rightarrow> bool" where
  "a \<le> b = (severity a \<le> severity b)"

definition less_log_level :: "log_level \<Rightarrow> log_level \<Rightarrow> bool" where
  "a < b = (severity a < severity b)"

instance
proof
  fix a b :: log_level
  show "a \<le> b \<Longrightarrow> b \<le> a \<Longrightarrow> a = b"
    by (cases a; cases b) (simp_all add: less_eq_log_level_def)
qed (auto simp: less_eq_log_level_def less_log_level_def)

end

section \<open>The table\<close>

text \<open>An array with designated initialisers: as long as the highest index asks for; what is not named is empty.\<close>

fun designated :: "(nat \<times> 'a) list \<Rightarrow> 'a option list \<Rightarrow> 'a option list" where
  "designated [] xs = xs"
| "designated ((i, x) # es) xs = designated es ((xs @ replicate (Suc i - length xs) None)[i := Some x])"

record log_info_cat =
  cat_name :: string
  cat_description :: string
  cat_enabled :: bool
  cat_loglevel :: log_level

definition mncc_sip_categories :: "log_info_cat option list" where
  "mncc_sip_categories = designated [
     (cat_index DSIP, \<lparr>cat_name = ''DSIP'', cat_description = ''SIP interface'', cat_enabled = True, cat_loglevel = LOGL_NOTICE\<rparr>),
     (cat_index DMNCC, \<lparr>cat_name = ''DMNCC'', cat_description = ''MNCC interface'', cat_enabled = True, cat_loglevel = LOGL_NOTICE\<rparr>),
     (cat_index DAPP, \<lparr>cat_name = ''DAPP'', cat_description = ''Application interface'', cat_enabled = True, cat_loglevel = LOGL_NOTICE\<rparr>),
     (cat_index DCALL, \<lparr>cat_name = ''DCALL'', cat_description = ''Call management'', cat_enabled = True, cat_loglevel = LOGL_NOTICE\<rparr>)] []"

record log_info =
  info_cat :: "log_info_cat option list"
  num_cat :: nat

definition mncc_sip_info :: log_info where
  "mncc_sip_info = \<lparr>info_cat = mncc_sip_categories, num_cat = length mncc_sip_categories\<rparr>"

text \<open>The table has an entry for every category and none besides; no two have the same name.\<close>

lemma categories_complete:
  "num_cat mncc_sip_info = 4" "cat_index c < num_cat mncc_sip_info" "None \<notin> set (info_cat mncc_sip_info)"
  "distinct (map (map_option cat_name) (info_cat mncc_sip_info))"
  by (cases c; simp add: mncc_sip_info_def mncc_sip_categories_def)+

text \<open>What \<open>osmo_init_logging2\<close> makes of a table: a category is written from its level on if it is enabled.\<close>

definition log_follows :: "log_info \<Rightarrow> (log_category \<Rightarrow> log_level \<Rightarrow> bool) \<Rightarrow> bool" where
  "log_follows info check = (\<forall>c level. check c level = (cat_index c < num_cat info \<and>
     (case info_cat info ! cat_index c of None \<Rightarrow> False | Some e \<Rightarrow> cat_enabled e \<and> cat_loglevel e \<le> level)))"

lemma notices_logged: "log_follows mncc_sip_info check \<Longrightarrow> check c level \<longleftrightarrow> LOGL_NOTICE \<le> level"
  by (cases c) (simp_all add: log_follows_def mncc_sip_info_def mncc_sip_categories_def)

end
