(* ===== verification/Sip_Agent.thy ===== *)
theory Sip_Agent
  imports Sip_Leg Log_Categories
begin

text \<open>
  The rest of \<open>src/src/sip.c\<close>: the SIP agent (\<open>struct sip_agent\<close> of \<open>src/src/sip.h\<close>), how it is initialised
  and started, and the function through which Sofia-SIP logs. The objects that Sofia-SIP creates are
  addresses or NULL; what it is asked to do is recorded in order.
\<close>

section \<open>Log lines of the SIP stack\<close>

text \<open>
  A buffer of bytes. \<open>vsnprintf\<close> with a size writes the formatted text, cut so that the
  terminating NUL fits, and leaves the rest of the buffer as it is; it returns the length of the
  whole text or a negative number. The second write is \<open>osmo_strlcpy\<close> of a newline at \<open>end\<close>.
\<close>

definition NUL :: char where "NUL = CHR 0x00"

definition vsnprintf_into :: "char list \<Rightarrow> string \<Rightarrow> char list" where
  "vsnprintf_into buf s = (let t = take (length buf - 1) s in t @ NUL # drop (length t + 1) buf)"

definition c_string :: "char list \<Rightarrow> string" where
  "c_string buf = takeWhile (\<lambda>c. c \<noteq> NUL) buf"

definition log_end :: "nat \<Rightarrow> int \<Rightarrow> nat" where
  "log_end n rc = min (nat rc) (n - 2)"

text \<open>\<open>log_line\<close>: the buffer as it is on the stack; \<open>msg\<close>: the formatted message; \<open>rc\<close>: the result of
  \<open>vsnprintf\<close>. The result is the category, the level and the line that is logged.\<close>

definition sip_logger :: "(log_category \<Rightarrow> log_level \<Rightarrow> bool) \<Rightarrow> char list \<Rightarrow> string \<Rightarrow> int
    \<Rightarrow> (log_category \<times> log_level \<times> string) option" where
  "sip_logger log_check_level log_line msg rc = (if \<not> log_check_level DSIP LOGL_NOTICE then None
     else if rc > 0 then
       (let buf = vsnprintf_into log_line msg; end = log_end (length log_line) rc in
        Some (DSIP, LOGL_NOTICE, c_string (buf[end := CHR 0x0A, Suc end := NUL])))
     else Some (DSIP, LOGL_NOTICE, ''unknown logging from sip'' @ [CHR 0x0A]))"

lemma length_vsnprintf_into: "buf \<noteq> [] \<Longrightarrow> length (vsnprintf_into buf s) = length buf"
  by (cases buf) (auto simp: vsnprintf_into_def Let_def)

lemma take_vsnprintf_into: "n \<le> length s \<Longrightarrow> n < length buf \<Longrightarrow> take n (vsnprintf_into buf s) = take n s"
  by (auto simp: vsnprintf_into_def Let_def min_def)

lemma take_c_string: "NUL \<notin> set (take n buf) \<Longrightarrow> n < length buf \<Longrightarrow> buf ! n = NUL \<Longrightarrow> c_string buf = take n buf"
proof (induction n arbitrary: buf)
  case 0
  then show ?case by (cases buf) (simp_all add: c_string_def)
next
  case (Suc n)
  then show ?case by (cases buf) (auto simp: c_string_def)
qed

text \<open>
  C30. A message of the SIP stack, however long, is logged within the buffer of 256 bytes while the
  category is set up as the table says: the newline and the final NUL are written inside it, and the
  line that is logged, as a notice of the SIP category, is the message, cut to 254 characters,
  with one newline added.
\<close>

theorem sip_logger_in_buffer:
  assumes "log_follows mncc_sip_info log_check_level"
    and "length log_line = 256" and "msg \<noteq> []" and "NUL \<notin> set msg" and "rc = int (length msg)"
  shows "Suc (log_end (length log_line) rc) < length (vsnprintf_into log_line msg)
     \<and> sip_logger log_check_level log_line msg rc = Some (DSIP, LOGL_NOTICE, take 254 msg @ [CHR 0x0A])"
proof -
  define n where "n = log_end (length log_line) rc"
  have n: "n = min (length msg) 254" using assms(2,5) by (simp add: n_def log_end_def)
  have len: "length (vsnprintf_into log_line msg) = 256" using length_vsnprintf_into [of log_line msg] assms(2) by fastforce
  let ?b = "(vsnprintf_into log_line msg)[n := CHR 0x0A, Suc n := NUL]"
  have le: "n < 255" using n by simp
  then have "take (Suc n) ?b = take n ?b @ [?b ! n]" using len by (intro take_Suc_conv_app_nth) simp
  also have "take n ?b = take n msg" using take_vsnprintf_into [of n msg log_line] n assms(2) by simp
  also have "?b ! n = CHR 0x0A" using len le by (simp add: nth_list_update)
  finally have t: "take (Suc n) ?b = take 254 msg @ [CHR 0x0A]" using n by (simp add: min_def)
  moreover have "NUL \<notin> set (take 254 msg @ [CHR 0x0A])" using assms(4) by (auto simp: NUL_def dest: in_set_takeD)
  moreover have "?b ! Suc n = NUL" using len le by simp
  ultimately have "c_string ?b = take 254 msg @ [CHR 0x0A]" using take_c_string [of "Suc n" ?b] len le by simp
  moreover have "0 < rc" using assms(3,5) by simp
  ultimately show ?thesis using len le notices_logged [OF assms(1)] by (simp add: sip_logger_def Let_def n_def)
qed

theorem sip_logger_witness:
  "sip_logger (\<lambda>c level. LOGL_NOTICE \<le> level) (replicate 256 (CHR ''x'')) ''nua: hello'' 10
   = Some (DSIP, LOGL_NOTICE, ''nua: hello'' @ [CHR 0x0A])"
proof -
  have "log_follows mncc_sip_info (\<lambda>c level. LOGL_NOTICE \<le> level)"
    unfolding log_follows_def
  proof (intro allI)
    fix c level
    show "LOGL_NOTICE \<le> level = (cat_index c < num_cat mncc_sip_info \<and> (case info_cat mncc_sip_info ! cat_index c of
        None \<Rightarrow> False | Some e \<Rightarrow> cat_enabled e \<and> cat_loglevel e \<le> level))"
      by (cases c) (simp_all add: mncc_sip_info_def mncc_sip_categories_def)
  qed
  from sip_logger_in_buffer [OF this, of "replicate 256 (CHR ''x'')" "''nua: hello''" 10] show ?thesis by (simp add: NUL_def)
qed

section \<open>The agent\<close>

text \<open>\<open>struct sip_agent\<close>: the pointer to the configuration (there is one, \<open>g_app\<close>), whether the memory pool
  has been initialised, the main loop object and the SIP stack.\<close>

datatype app_ptr = G_app

record sip_agent =
  agent_app :: "app_ptr option"
  agent_home :: bool
  agent_root :: "addr option"
  agent_nua :: "addr option"

definition zero_agent :: sip_agent where
  "zero_agent = \<lparr>agent_app = None, agent_home = False, agent_root = None, agent_nua = None\<rparr>"

text \<open>What the connector asks of Sofia-SIP outside of a call. The log handler and the event callback it
  passes are always \<open>sip_logger\<close> and \<open>nua_callback\<close>; \<open>Nua_create\<close> carries the URL and the automatic answers.\<close>

datatype su_log = su_log_default | su_log_global

record nua_tags =
  NUTAG_URL :: string
  NUTAG_AUTOACK :: int
  NUTAG_AUTOALERT :: int
  NUTAG_AUTOANSWER :: int

datatype su_call =
    Su_init
  | Su_home_init
  | Su_log_redirect su_log
  | Su_log_set_level su_log int
  | Su_glib_root_create
  | Su_root_threading "addr option" int
  | Nua_create "addr option" nua_tags

text \<open>\<open>root\<close>: what \<open>su_glib_root_create\<close> returns.\<close>

definition sip_agent_init :: "addr option \<Rightarrow> app_ptr \<Rightarrow> sip_agent \<Rightarrow> sip_agent \<times> su_call list" where
  "sip_agent_init root app agent = (agent\<lparr>agent_app := Some app, agent_home := True, agent_root := root\<rparr>,
     [Su_init, Su_home_init, Su_log_redirect su_log_default, Su_log_redirect su_log_global, Su_glib_root_create, Su_root_threading root 0])"

definition sip_agent_start :: "(addr option \<Rightarrow> string \<Rightarrow> addr option) \<Rightarrow> app_config \<Rightarrow> sip_agent \<Rightarrow> int \<times> sip_agent \<times> su_call list" where
  "sip_agent_start nua_create app agent = (let sip_uri = make_sip_uri app; agent = agent\<lparr>agent_nua := nua_create (agent_root agent) sip_uri\<rparr> in
     (if agent_nua agent \<noteq> None then 0 else - 1, agent,
      [Nua_create (agent_root agent) \<lparr>NUTAG_URL = sip_uri, NUTAG_AUTOACK = 0, NUTAG_AUTOALERT = 0, NUTAG_AUTOANSWER = 0\<rparr>]))"

text \<open>The agent as it is when it runs.\<close>

definition agent_up :: "(addr option \<Rightarrow> string \<Rightarrow> addr option) \<Rightarrow> app_config \<Rightarrow> sip_agent \<Rightarrow> bool" where
  "agent_up nua_create app agent = (agent_app agent = Some G_app \<and> agent_home agent \<and> agent_nua agent \<noteq> None
     \<and> agent_nua agent = nua_create (agent_root agent) (make_sip_uri app))"

lemma agent_start_up:
  "sip_agent_init root G_app agent = (a, ss) \<Longrightarrow> sip_agent_start nua_create app a = (rc, b, ts) \<Longrightarrow>
     (rc < 0 \<longleftrightarrow> nua_create root (make_sip_uri app) = None) \<and> (0 \<le> rc \<longrightarrow> agent_up nua_create app b \<and> agent_root b = root)"
  by (auto simp: sip_agent_init_def sip_agent_start_def agent_up_def Let_def split: if_splits)

end
