(* ===== verification/Vty_Commands.thy ===== *)
theory Vty_Commands
  imports Sip_Agent
begin

text \<open>
  \<open>src/src/vty.c\<close>, first part: the nodes and commands that \<open>mncc_sip_vty_init\<close> installs, the configuration
  commands, the writing of the configuration and reading it back. Lines are matched to commands by libosmovty,
  a parameter that follows the syntax given with each command.
\<close>

section \<open>Nodes and configuration commands\<close>

text \<open>Nodes of the library below and above the connector's three; the numbers grow in this order.\<close>

datatype vty_node = ENABLE_NODE | CONFIG_NODE | Library_node nat | SIP_NODE | MNCC_NODE | APP_NODE | Later_node nat

definition node_ge_sip :: "vty_node \<Rightarrow> bool" where
  "node_ge_sip n = (case n of SIP_NODE \<Rightarrow> True | MNCC_NODE \<Rightarrow> True | APP_NODE \<Rightarrow> True | Later_node _ \<Rightarrow> True | _ \<Rightarrow> False)"

definition mncc_vty_go_parent :: "vty_node \<Rightarrow> vty_node" where
  "mncc_vty_go_parent n = (case n of SIP_NODE \<Rightarrow> CONFIG_NODE | MNCC_NODE \<Rightarrow> CONFIG_NODE | APP_NODE \<Rightarrow> CONFIG_NODE
     | _ \<Rightarrow> (if node_ge_sip n then CONFIG_NODE else ENABLE_NODE))"

datatype vty_cmd = Cfg_sip | Cfg_sip_local_addr | Cfg_sip_remote_addr | Cfg_sip_sofia_log_level | Cfg_mncc | Cfg_mncc_path
  | Cfg_app | Cfg_use_imsi | Cfg_no_use_imsi

text \<open>\<open>vty_su\<close>: what the commands have asked of Sofia-SIP.\<close>

record vty_state =
  vty_node :: vty_node
  vty_app :: app_config
  vty_su :: "su_call list"

text \<open>The nodes in which \<open>mncc_sip_vty_init\<close> installs the commands.\<close>

definition installed_in :: "vty_cmd \<Rightarrow> vty_node" where
  "installed_in c = (case c of Cfg_sip \<Rightarrow> CONFIG_NODE | Cfg_mncc \<Rightarrow> CONFIG_NODE | Cfg_app \<Rightarrow> CONFIG_NODE
     | Cfg_sip_local_addr \<Rightarrow> SIP_NODE | Cfg_sip_remote_addr \<Rightarrow> SIP_NODE | Cfg_sip_sofia_log_level \<Rightarrow> SIP_NODE
     | Cfg_mncc_path \<Rightarrow> MNCC_NODE | Cfg_use_imsi \<Rightarrow> APP_NODE | Cfg_no_use_imsi \<Rightarrow> APP_NODE)"

text \<open>The command functions; \<open>argv\<close> has as many words as the command has arguments.\<close>

definition cfg_sip_local_addr :: "string list \<Rightarrow> app_config \<Rightarrow> app_config" where
  "cfg_sip_local_addr argv app = app\<lparr>sip_local_addr := argv ! 0, sip_local_port := atoi (argv ! 1)\<rparr>"

definition cfg_sip_remote_addr :: "string list \<Rightarrow> app_config \<Rightarrow> app_config" where
  "cfg_sip_remote_addr argv app = app\<lparr>sip_remote_addr := argv ! 0, sip_remote_port := atoi (argv ! 1)\<rparr>"

definition cfg_sip_sofia_log_level :: "string list \<Rightarrow> app_config \<Rightarrow> app_config \<times> su_call list" where
  "cfg_sip_sofia_log_level argv app = (let app = app\<lparr>sofia_log_level := atoi (argv ! 0)\<rparr> in
     (app, [Su_log_set_level su_log_default (sofia_log_level app), Su_log_set_level su_log_global (sofia_log_level app)]))"

definition cfg_mncc_path :: "string list \<Rightarrow> app_config \<Rightarrow> app_config" where
  "cfg_mncc_path argv app = app\<lparr>mncc_path := argv ! 0\<rparr>"

definition cfg_use_imsi :: "app_config \<Rightarrow> app_config" where
  "cfg_use_imsi app = app\<lparr>use_imsi_as_id := 1\<rparr>"

definition cfg_no_use_imsi :: "app_config \<Rightarrow> app_config" where
  "cfg_no_use_imsi app = app\<lparr>use_imsi_as_id := 0\<rparr>"

definition run_cmd :: "vty_cmd \<Rightarrow> string list \<Rightarrow> vty_state \<Rightarrow> vty_state" where
  "run_cmd c argv v = (case c of
       Cfg_sip \<Rightarrow> v\<lparr>vty_node := SIP_NODE\<rparr>
     | Cfg_mncc \<Rightarrow> v\<lparr>vty_node := MNCC_NODE\<rparr>
     | Cfg_app \<Rightarrow> v\<lparr>vty_node := APP_NODE\<rparr>
     | Cfg_sip_local_addr \<Rightarrow> v\<lparr>vty_app := cfg_sip_local_addr argv (vty_app v)\<rparr>
     | Cfg_sip_remote_addr \<Rightarrow> v\<lparr>vty_app := cfg_sip_remote_addr argv (vty_app v)\<rparr>
     | Cfg_sip_sofia_log_level \<Rightarrow> (case cfg_sip_sofia_log_level argv (vty_app v) of (app, su) \<Rightarrow> v\<lparr>vty_app := app, vty_su := vty_su v @ su\<rparr>)
     | Cfg_mncc_path \<Rightarrow> v\<lparr>vty_app := cfg_mncc_path argv (vty_app v)\<rparr>
     | Cfg_use_imsi \<Rightarrow> v\<lparr>vty_app := cfg_use_imsi (vty_app v)\<rparr>
     | Cfg_no_use_imsi \<Rightarrow> v\<lparr>vty_app := cfg_no_use_imsi (vty_app v)\<rparr>)"

section \<open>Writing the configuration\<close>

definition config_write_sip :: "app_config \<Rightarrow> string list" where
  "config_write_sip app = [''sip'',
     '' local '' @ sip_local_addr app @ '' '' @ fmt_d (sip_local_port app),
     '' remote '' @ sip_remote_addr app @ '' '' @ fmt_d (sip_remote_port app),
     '' sofia-sip log-level '' @ fmt_d (sofia_log_level app)]"

definition config_write_mncc :: "app_config \<Rightarrow> string list" where
  "config_write_mncc app = [''mncc'', '' socket-path '' @ mncc_path app]"

definition config_write_app :: "app_config \<Rightarrow> string list" where
  "config_write_app app = ''app'' # (if use_imsi_as_id app \<noteq> 0 then ['' use-imsi''] else [])"

section \<open>Installing nodes and commands\<close>

datatype show_cmd = Show_calls | Show_calls_sum | Show_mncc_conn

datatype vty_element = Cfg vty_cmd | Show show_cmd

text \<open>The syntax given to \<open>DEFUN\<close>.\<close>

definition cmd_syntax :: "vty_element \<Rightarrow> string" where
  "cmd_syntax e = (case e of
       Cfg c \<Rightarrow> (case c of
         Cfg_sip \<Rightarrow> ''sip''
       | Cfg_sip_local_addr \<Rightarrow> ''local A.B.C.D <1-65534>''
       | Cfg_sip_remote_addr \<Rightarrow> ''remote ADDR <1-65534>''
       | Cfg_sip_sofia_log_level \<Rightarrow> ''sofia-sip log-level <0-9>''
       | Cfg_mncc \<Rightarrow> ''mncc''
       | Cfg_mncc_path \<Rightarrow> ''socket-path NAME''
       | Cfg_app \<Rightarrow> ''app''
       | Cfg_use_imsi \<Rightarrow> ''use-imsi''
       | Cfg_no_use_imsi \<Rightarrow> ''no use-imsi'')
     | Show s \<Rightarrow> (case s of
         Show_calls \<Rightarrow> ''show calls''
       | Show_calls_sum \<Rightarrow> ''show calls summary''
       | Show_mncc_conn \<Rightarrow> ''show mncc-connection''))"

record cmd_node =
  node_id :: vty_node
  node_prompt :: string
  node_vtysh :: int

definition sip_node :: cmd_node where
  "sip_node = \<lparr>node_id = SIP_NODE, node_prompt = ''%s(config-sip)# '', node_vtysh = 1\<rparr>"

definition mncc_node :: cmd_node where
  "mncc_node = \<lparr>node_id = MNCC_NODE, node_prompt = ''%s(config-mncc)# '', node_vtysh = 1\<rparr>"

definition app_node :: cmd_node where
  "app_node = \<lparr>node_id = APP_NODE, node_prompt = ''%s(config-app)# '', node_vtysh = 1\<rparr>"

text \<open>Pointers to functions of \<open>vty.c\<close> that the library keeps.\<close>

datatype vty_fn = Mncc_vty_go_parent

datatype config_writer = Config_write_sip | Config_write_mncc | Config_write_app

definition run_writer :: "config_writer \<Rightarrow> app_config \<Rightarrow> string list" where
  "run_writer f = (case f of Config_write_sip \<Rightarrow> config_write_sip | Config_write_mncc \<Rightarrow> config_write_mncc | Config_write_app \<Rightarrow> config_write_app)"

record vty_app_info =
  info_name :: string
  info_version :: string
  go_parent_cb :: vty_fn
  info_copyright :: string

text \<open>The version is the one the build system gives (\<open>PACKAGE_VERSION\<close>).\<close>

definition vty_info :: "string \<Rightarrow> vty_app_info" where
  "vty_info package_version = \<lparr>info_name = ''OsmoSIPcon'', info_version = package_version, go_parent_cb = Mncc_vty_go_parent,
     info_copyright = ''GNU AGPLv3+'' @ [CHR 0x0A]\<rparr>"

datatype vty_call =
    Vty_init vty_app_info
  | Install_element vty_node vty_element
  | Install_node cmd_node config_writer
  | Install_element_ve vty_element

text \<open>\<open>mncc_sip_vty_init\<close> sets the defaults (\<open>main\<close> sets the log level, the other members are zero) and tells the
  library of the nodes and commands.\<close>

definition default_config :: "app_config \<Rightarrow> app_config" where
  "default_config app = app\<lparr>mncc_path := ''/tmp/msc_mncc'', sip_local_addr := ''127.0.0.1'', sip_local_port := 5060,
     sip_remote_addr := ''pbx'', sip_remote_port := 5060\<rparr>"

definition mncc_sip_vty_init :: "string \<Rightarrow> app_config \<Rightarrow> app_config \<times> vty_call list" where
  "mncc_sip_vty_init package_version app = (default_config app, [
     Vty_init (vty_info package_version),
     Install_element CONFIG_NODE (Cfg Cfg_sip),
     Install_node sip_node Config_write_sip,
     Install_element SIP_NODE (Cfg Cfg_sip_local_addr),
     Install_element SIP_NODE (Cfg Cfg_sip_remote_addr),
     Install_element SIP_NODE (Cfg Cfg_sip_sofia_log_level),
     Install_element CONFIG_NODE (Cfg Cfg_mncc),
     Install_node mncc_node Config_write_mncc,
     Install_element MNCC_NODE (Cfg Cfg_mncc_path),
     Install_element CONFIG_NODE (Cfg Cfg_app),
     Install_node app_node Config_write_app,
     Install_element APP_NODE (Cfg Cfg_use_imsi),
     Install_element APP_NODE (Cfg Cfg_no_use_imsi),
     Install_element_ve (Show Show_calls),
     Install_element_ve (Show Show_calls_sum),
     Install_element_ve (Show Show_mncc_conn)])"

text \<open>What the calls have installed: the nodes known after them, the elements in a node, the writers in order.\<close>

fun known_nodes :: "vty_call list \<Rightarrow> vty_node set" where
  "known_nodes [] = {}"
| "known_nodes (Vty_init i # cs) = {ENABLE_NODE, CONFIG_NODE} \<union> known_nodes cs"
| "known_nodes (Install_node n f # cs) = insert (node_id n) (known_nodes cs)"
| "known_nodes (Install_element n e # cs) = known_nodes cs"
| "known_nodes (Install_element_ve e # cs) = known_nodes cs"

fun elements_of :: "vty_node \<Rightarrow> vty_call list \<Rightarrow> vty_element list" where
  "elements_of n [] = []"
| "elements_of n (c # cs) = (case c of
       Install_element m e \<Rightarrow> (if m = n then [e] else [])
     | Install_element_ve e \<Rightarrow> (if n = ENABLE_NODE then [e] else [])
     | _ \<Rightarrow> []) @ elements_of n cs"

fun writers :: "vty_call list \<Rightarrow> config_writer list" where
  "writers [] = []"
| "writers (c # cs) = (case c of Install_node n f \<Rightarrow> [f] | _ \<Rightarrow> []) @ writers cs"

text \<open>The library ends the process when a command is installed in a node it does not know yet.\<close>

fun installs_ok :: "vty_node set \<Rightarrow> vty_call list \<Rightarrow> bool" where
  "installs_ok known [] = True"
| "installs_ok known (c # cs) = ((case c of
       Install_element n e \<Rightarrow> n \<in> known
     | Install_element_ve e \<Rightarrow> ENABLE_NODE \<in> known
     | Install_node n f \<Rightarrow> node_id n \<notin> known
     | Vty_init i \<Rightarrow> True) \<and> installs_ok (known \<union> known_nodes [c]) cs)"

lemmas init_defs = mncc_sip_vty_init_def sip_node_def mncc_node_def app_node_def

lemma vty_init_installs_ok: "installs_ok {} (snd (mncc_sip_vty_init version app))"
  by (simp add: init_defs)

lemma installed_in_iff: "Cfg c \<in> set (elements_of n (snd (mncc_sip_vty_init version app))) \<longleftrightarrow> n = installed_in c"
  by (cases c; cases n) (simp_all add: init_defs installed_in_def)

lemma distinct_syntax: "distinct (map cmd_syntax (elements_of n (snd (mncc_sip_vty_init version app))))"
  by (cases n) (simp_all add: init_defs cmd_syntax_def)

text \<open>A command that the library runs in its node leaves the terminal in a node that exists.\<close>

lemma run_cmd_known:
  assumes "vty_node v = installed_in c"
  shows "vty_node (run_cmd c argv v) \<in> known_nodes (snd (mncc_sip_vty_init version app))"
  using assms by (cases c) (simp_all add: init_defs installed_in_def run_cmd_def cfg_sip_sofia_log_level_def Let_def)

lemma writers_all: "map run_writer (writers (snd (mncc_sip_vty_init version app))) = [config_write_sip, config_write_mncc, config_write_app]"
  by (simp add: init_defs run_writer_def)

section \<open>Matching a line\<close>

text \<open>The words of a line; a command is a list of words, of which some stand for arguments.\<close>

fun split_words :: "string \<Rightarrow> string \<Rightarrow> string list" where
  "split_words w [] = (if w = [] then [] else [w])"
| "split_words w (c # cs) = (if c = CHR '' '' then (if w = [] then split_words [] cs else w # split_words [] cs)
     else split_words (w @ [c]) cs)"

datatype vty_token = Literal string | Ipv4 | Range int int | Variable

definition token_of :: "string \<Rightarrow> vty_token" where
  "token_of s = (if s = ''A.B.C.D'' then Ipv4
     else case s of [] \<Rightarrow> Literal s | c # cs \<Rightarrow>
       if c = CHR ''<'' then (let lo = takeWhile is_digit cs in Range (atoi lo) (atoi (drop (Suc (length lo)) cs)))
       else if (of_char (CHR ''A'') :: nat) \<le> of_char c \<and> (of_char c :: nat) \<le> of_char (CHR ''Z'') then Variable
       else Literal s)"

definition cmd_tokens :: "vty_cmd \<Rightarrow> vty_token list" where
  "cmd_tokens c = map token_of (split_words [] (cmd_syntax (Cfg c)))"

text \<open>An IPv4 address in dotted decimal notation.\<close>

fun split_dots :: "string \<Rightarrow> string list" where
  "split_dots [] = [[]]"
| "split_dots (c # cs) = (if c = CHR ''.'' then [] # split_dots cs else (c # hd (split_dots cs)) # tl (split_dots cs))"

definition octet :: "string \<Rightarrow> bool" where
  "octet s = (s \<noteq> [] \<and> length s \<le> 3 \<and> list_all is_digit s \<and> digits_val s \<le> 255)"

definition ipv4 :: "string \<Rightarrow> bool" where
  "ipv4 s = (length (split_dots s) = 4 \<and> list_all octet (split_dots s))"

fun token_matches :: "vty_token \<Rightarrow> string \<Rightarrow> bool" where
  "token_matches (Literal k) s = (s = k)"
| "token_matches Ipv4 s = ipv4 s"
| "token_matches (Range lo hi) s = (s \<noteq> [] \<and> list_all is_digit s \<and> lo \<le> atoi s \<and> atoi s \<le> hi)"
| "token_matches Variable s = (s \<noteq> [])"

fun is_arg :: "vty_token \<Rightarrow> bool" where
  "is_arg (Literal k) = False"
| "is_arg _ = True"

text \<open>The arguments with which a command runs, if the words match.\<close>

definition match_args :: "vty_token list \<Rightarrow> string list \<Rightarrow> string list option" where
  "match_args ts ws = (if list_all2 token_matches ts ws then Some (map snd (filter (\<lambda>tw. is_arg (fst tw)) (zip ts ws))) else None)"

lemma cmd_tokens_simps [simp]:
  "cmd_tokens Cfg_sip = [Literal ''sip'']" "cmd_tokens Cfg_mncc = [Literal ''mncc'']" "cmd_tokens Cfg_app = [Literal ''app'']"
  "cmd_tokens Cfg_sip_local_addr = [Literal ''local'', Ipv4, Range 1 65534]"
  "cmd_tokens Cfg_sip_remote_addr = [Literal ''remote'', Variable, Range 1 65534]"
  "cmd_tokens Cfg_sip_sofia_log_level = [Literal ''sofia-sip'', Literal ''log-level'', Range 0 9]"
  "cmd_tokens Cfg_mncc_path = [Literal ''socket-path'', Variable]"
  "cmd_tokens Cfg_use_imsi = [Literal ''use-imsi'']" "cmd_tokens Cfg_no_use_imsi = [Literal ''no'', Literal ''use-imsi'']"
  by (simp_all add: cmd_tokens_def cmd_syntax_def token_of_def is_digit_def atoi_def digits_val_def Let_def)

section \<open>Reading the configuration back\<close>

text \<open>
  libosmovty as a parameter: the command a line stands for in a node, with its arguments. A line
  it does not know ends the reading. The sections are read one after the other from the
  configuration node, to which the library returns through \<open>mncc_vty_go_parent\<close>.
\<close>

type_synonym vty_lib = "vty_node \<Rightarrow> string \<Rightarrow> (vty_cmd \<times> string list) option"

fun read_lines :: "vty_lib \<Rightarrow> vty_state \<Rightarrow> string list \<Rightarrow> vty_state option" where
  "read_lines L v [] = Some v"
| "read_lines L v (s # ss) = (case L (vty_node v) s of None \<Rightarrow> None | Some (c, argv) \<Rightarrow> read_lines L (run_cmd c argv v) ss)"

fun read_sections :: "vty_lib \<Rightarrow> vty_state \<Rightarrow> string list list \<Rightarrow> vty_state option" where
  "read_sections L v [] = Some v"
| "read_sections L v (s # ss) = (case read_lines L v s of None \<Rightarrow> None
     | Some v' \<Rightarrow> read_sections L (v'\<lparr>vty_node := mncc_vty_go_parent (vty_node v')\<rparr>) ss)"

text \<open>What the library promises: a line whose words match the syntax of a command installed in the node is that
  command, with the words that stand for arguments.\<close>

definition vty_matches :: "vty_lib \<Rightarrow> bool" where
  "vty_matches L = (\<forall>c line args. match_args (cmd_tokens c) (split_words [] line) = Some args \<longrightarrow> L (installed_in c) line = Some (c, args))"

definition word :: "string \<Rightarrow> bool" where
  "word s = (s \<noteq> [] \<and> CHR '' '' \<notin> set s)"

definition config_valid :: "app_config \<Rightarrow> bool" where
  "config_valid app = (ipv4 (sip_local_addr app) \<and> 1 \<le> sip_local_port app \<and> sip_local_port app \<le> 65534
     \<and> word (sip_remote_addr app) \<and> 1 \<le> sip_remote_port app \<and> sip_remote_port app \<le> 65534
     \<and> 0 \<le> sofia_log_level app \<and> sofia_log_level app \<le> 9 \<and> word (mncc_path app))"

lemma split_words_word: "CHR '' '' \<notin> set a \<Longrightarrow> split_words w (a @ s) = split_words (w @ a) s"
  by (induction a arbitrary: w) auto

lemma split_words_last: "word a \<Longrightarrow> split_words [] a = [a]"
  using split_words_word [of a "[]" "[]"] by (simp add: word_def)

lemma split_words_next: "word a \<Longrightarrow> split_words [] (a @ CHR '' '' # s) = a # split_words [] s"
  using split_words_word [of a "[]" "CHR '' '' # s"] by (simp add: word_def)

lemma fmt_u_no_blank: "CHR '' '' \<notin> set (fmt_u n)"
proof -
  have "\<not> is_digit (CHR '' '')" by (simp add: is_digit_def)
  then show ?thesis using fmt_u_digits [of n] by (auto simp: list_all_iff)
qed

lemma fmt_d_word: "word (fmt_d i)"
  using fmt_u_no_blank by (simp add: word_def fmt_d_def)

lemma fmt_d_in_range: "0 \<le> i \<Longrightarrow> lo \<le> i \<Longrightarrow> i \<le> hi \<Longrightarrow> token_matches (Range lo hi) (fmt_d i)"
  using fmt_u_digits [of "nat i"] atoi_fmt_d [of i] by (simp add: fmt_d_def)

lemma split_dots_chars: "split_dots s \<noteq> [] \<and> set s \<subseteq> insert (CHR ''.'') (\<Union>p \<in> set (split_dots s). set p)"
proof (induction s)
  case (Cons c cs)
  then obtain p ps where "split_dots cs = p # ps" by (cases "split_dots cs") auto
  with Cons show ?case by auto
qed simp

lemma ipv4_word: "ipv4 a \<Longrightarrow> word a"
proof -
  assume a: "ipv4 a"
  have "\<not> is_digit (CHR '' '')" by (simp add: is_digit_def)
  then have "CHR '' '' \<notin> (\<Union>p \<in> set (split_dots a). set p)" using a by (auto simp: ipv4_def octet_def list_all_iff)
  then have "CHR '' '' \<notin> set a" using split_dots_chars [of a] by auto
  moreover have "a \<noteq> []" using a by (auto simp: ipv4_def)
  ultimately show ?thesis by (simp add: word_def)
qed

text \<open>The lines that are written are found again.\<close>

lemma written_lines_match:
  assumes L: "vty_matches L" and ok: "config_valid app"
  shows "L CONFIG_NODE ''sip'' = Some (Cfg_sip, [])" "L CONFIG_NODE ''mncc'' = Some (Cfg_mncc, [])"
    "L CONFIG_NODE ''app'' = Some (Cfg_app, [])" "L APP_NODE '' use-imsi'' = Some (Cfg_use_imsi, [])"
    "L SIP_NODE ('' local '' @ sip_local_addr app @ '' '' @ fmt_d (sip_local_port app))
       = Some (Cfg_sip_local_addr, [sip_local_addr app, fmt_d (sip_local_port app)])"
    "L SIP_NODE ('' remote '' @ sip_remote_addr app @ '' '' @ fmt_d (sip_remote_port app))
       = Some (Cfg_sip_remote_addr, [sip_remote_addr app, fmt_d (sip_remote_port app)])"
    "L SIP_NODE ('' sofia-sip log-level '' @ fmt_d (sofia_log_level app)) = Some (Cfg_sip_sofia_log_level, [fmt_d (sofia_log_level app)])"
    "L MNCC_NODE ('' socket-path '' @ mncc_path app) = Some (Cfg_mncc_path, [mncc_path app])"
proof -
  have use: "L (installed_in c) line = Some (c, args)"
    if "split_words [] line = ws" "match_args (cmd_tokens c) ws = Some args" for c line ws args
    using L that by (simp add: vty_matches_def)
  note w = split_words_last split_words_next fmt_d_word ipv4_word
  note ok = ok [unfolded config_valid_def]
  have "sip_remote_addr app \<noteq> []" "mncc_path app \<noteq> []"
    using ok by (simp_all add: word_def)
  moreover have "token_matches (Range 1 65534) (fmt_d (sip_local_port app))" "token_matches (Range 1 65534) (fmt_d (sip_remote_port app))"
      "token_matches (Range 0 9) (fmt_d (sofia_log_level app))"
    using ok by (simp_all add: fmt_d_in_range del: token_matches.simps)
  ultimately have m: "match_args (cmd_tokens Cfg_sip_local_addr) [''local'', sip_local_addr app, fmt_d (sip_local_port app)]
        = Some [sip_local_addr app, fmt_d (sip_local_port app)]"
      "match_args (cmd_tokens Cfg_sip_remote_addr) [''remote'', sip_remote_addr app, fmt_d (sip_remote_port app)]
        = Some [sip_remote_addr app, fmt_d (sip_remote_port app)]"
      "match_args (cmd_tokens Cfg_sip_sofia_log_level) [''sofia-sip'', ''log-level'', fmt_d (sofia_log_level app)] = Some [fmt_d (sofia_log_level app)]"
      "match_args (cmd_tokens Cfg_mncc_path) [''socket-path'', mncc_path app] = Some [mncc_path app]"
    using ok by (simp_all add: match_args_def)
  show "L CONFIG_NODE ''sip'' = Some (Cfg_sip, [])" "L CONFIG_NODE ''mncc'' = Some (Cfg_mncc, [])"
    "L CONFIG_NODE ''app'' = Some (Cfg_app, [])" "L APP_NODE '' use-imsi'' = Some (Cfg_use_imsi, [])"
    using use [of "''sip''" "[''sip'']" Cfg_sip "[]"] use [of "''mncc''" "[''mncc'']" Cfg_mncc "[]"]
      use [of "''app''" "[''app'']" Cfg_app "[]"] use [of "'' use-imsi''" "[''use-imsi'']" Cfg_use_imsi "[]"]
    by (simp_all add: match_args_def installed_in_def)
  show "L SIP_NODE ('' local '' @ sip_local_addr app @ '' '' @ fmt_d (sip_local_port app))
       = Some (Cfg_sip_local_addr, [sip_local_addr app, fmt_d (sip_local_port app)])"
    using use [OF _ m(1), of "'' local '' @ sip_local_addr app @ '' '' @ fmt_d (sip_local_port app)"] ok by (simp add: w installed_in_def)
  show "L SIP_NODE ('' remote '' @ sip_remote_addr app @ '' '' @ fmt_d (sip_remote_port app))
       = Some (Cfg_sip_remote_addr, [sip_remote_addr app, fmt_d (sip_remote_port app)])"
    using use [OF _ m(2), of "'' remote '' @ sip_remote_addr app @ '' '' @ fmt_d (sip_remote_port app)"] ok by (simp add: w installed_in_def)
  show "L SIP_NODE ('' sofia-sip log-level '' @ fmt_d (sofia_log_level app)) = Some (Cfg_sip_sofia_log_level, [fmt_d (sofia_log_level app)])"
    using use [OF _ m(3), of "'' sofia-sip log-level '' @ fmt_d (sofia_log_level app)"] by (simp add: w installed_in_def)
  show "L MNCC_NODE ('' socket-path '' @ mncc_path app) = Some (Cfg_mncc_path, [mncc_path app])"
    using use [OF _ m(4), of "'' socket-path '' @ mncc_path app"] ok by (simp add: w installed_in_def)
qed

lemma read_written:
  assumes L: "vty_matches L" and ok: "config_valid app" and "use_imsi_as_id app0 = 0"
  shows "read_sections L \<lparr>vty_node = CONFIG_NODE, vty_app = app0, vty_su = su\<rparr> [config_write_sip app, config_write_mncc app, config_write_app app]
     = Some \<lparr>vty_node = CONFIG_NODE, vty_app = app\<lparr>use_imsi_as_id := (if use_imsi_as_id app \<noteq> 0 then 1 else 0)\<rparr>,
         vty_su = su @ [Su_log_set_level su_log_default (sofia_log_level app), Su_log_set_level su_log_global (sofia_log_level app)]\<rparr>"
proof -
  note L = written_lines_match [OF L ok]
  have 1: "read_lines L \<lparr>vty_node = CONFIG_NODE, vty_app = a, vty_su = s\<rparr> (config_write_sip app) = Some \<lparr>vty_node = SIP_NODE,
      vty_app = a\<lparr>sip_local_addr := sip_local_addr app, sip_local_port := sip_local_port app, sip_remote_addr := sip_remote_addr app,
        sip_remote_port := sip_remote_port app, sofia_log_level := sofia_log_level app\<rparr>,
      vty_su = s @ [Su_log_set_level su_log_default (sofia_log_level app), Su_log_set_level su_log_global (sofia_log_level app)]\<rparr>" for a s
    unfolding config_write_sip_def
    by (simp only: read_lines.simps L run_cmd_def vty_cmd.case option.case prod.case vty_state.simps)
       (simp add: L [simplified] run_cmd_def cfg_sip_local_addr_def cfg_sip_remote_addr_def cfg_sip_sofia_log_level_def atoi_fmt_d Let_def)
  have 2: "read_lines L \<lparr>vty_node = CONFIG_NODE, vty_app = a, vty_su = s\<rparr> (config_write_mncc app)
      = Some \<lparr>vty_node = MNCC_NODE, vty_app = a\<lparr>mncc_path := mncc_path app\<rparr>, vty_su = s\<rparr>" for a s
    using L(2,8) by (simp add: config_write_mncc_def run_cmd_def cfg_mncc_path_def)
  have 3: "read_lines L \<lparr>vty_node = CONFIG_NODE, vty_app = a, vty_su = s\<rparr> (config_write_app app)
      = Some \<lparr>vty_node = APP_NODE, vty_app = (if use_imsi_as_id app \<noteq> 0 then a\<lparr>use_imsi_as_id := 1\<rparr> else a), vty_su = s\<rparr>" for a s
    using L(3,4) by (simp add: config_write_app_def run_cmd_def cfg_use_imsi_def)
  show ?thesis using assms(3) by (simp add: 1 2 3 mncc_vty_go_parent_def)
qed

text \<open>
  C23. The configuration survives being written and read. Reading what the functions that were installed
  with the three nodes wrote, into a configuration in which the IMSI is not used, gives
  every setting back (a non-zero IMSI setting as 1), sets both log levels of the SIP stack and ends in
  the configuration node, whatever library matches lines to commands by the syntax they were given.
\<close>

theorem config_roundtrip:
  assumes "vty_matches L" and "config_valid app" and "use_imsi_as_id app0 = 0"
  shows "read_sections L \<lparr>vty_node = CONFIG_NODE, vty_app = app0, vty_su = su\<rparr>
       (map (\<lambda>f. run_writer f app) (writers (snd (mncc_sip_vty_init version zero))))
     = Some \<lparr>vty_node = CONFIG_NODE, vty_app = app\<lparr>use_imsi_as_id := (if use_imsi_as_id app \<noteq> 0 then 1 else 0)\<rparr>,
         vty_su = su @ [Su_log_set_level su_log_default (sofia_log_level app), Su_log_set_level su_log_global (sofia_log_level app)]\<rparr>"
proof -
  have "map (\<lambda>f. run_writer f app) (writers (snd (mncc_sip_vty_init version zero))) = [config_write_sip app, config_write_mncc app, config_write_app app]"
    by (simp add: init_defs run_writer_def)
  with read_written [OF assms] show ?thesis by simp
qed

text \<open>A library that looks for the first command of the node whose syntax matches keeps the promise.\<close>

definition all_cmds :: "vty_cmd list" where
  "all_cmds = [Cfg_sip, Cfg_sip_local_addr, Cfg_sip_remote_addr, Cfg_sip_sofia_log_level, Cfg_mncc, Cfg_mncc_path, Cfg_app, Cfg_use_imsi, Cfg_no_use_imsi]"

definition example_vty :: vty_lib where
  "example_vty n line = (let hits = filter (\<lambda>c. installed_in c = n \<and> match_args (cmd_tokens c) (split_words [] line) \<noteq> None) all_cmds in
     case hits of [] \<Rightarrow> None | c # cs \<Rightarrow> map_option (Pair c) (match_args (cmd_tokens c) (split_words [] line)))"

text \<open>No line is two commands of one node.\<close>

lemma match_first_word:
  assumes "match_args (cmd_tokens c) ws = Some args"
  shows "\<exists>k rest. cmd_tokens c = Literal k # rest \<and> ws \<noteq> [] \<and> hd ws = k"
  using assms by (cases c) (auto simp: match_args_def list_all2_Cons1 split: if_splits)

lemma match_unique:
  assumes "match_args (cmd_tokens c) ws = Some args" and "match_args (cmd_tokens d) ws = Some args'"
  shows "d = c"
  using match_first_word [OF assms(1)] match_first_word [OF assms(2)] by (cases c; cases d) auto

lemma example_vty_matches: "vty_matches example_vty"
  unfolding vty_matches_def
proof (intro allI impI)
  fix c line args
  assume m: "match_args (cmd_tokens c) (split_words [] line) = Some args"
  have "(installed_in d = installed_in c \<and> match_args (cmd_tokens d) (split_words [] line) \<noteq> None) = (d = c)" for d
    using m match_unique [OF m, of d] by auto
  moreover have "filter (\<lambda>d. d = c) all_cmds = [c]" by (cases c) (simp_all add: all_cmds_def)
  ultimately show "example_vty (installed_in c) line = Some (c, args)" using m by (simp add: example_vty_def)
qed

lemma example_config_valid: "config_valid example_config"
  by (simp add: config_valid_def example_config_def word_def ipv4_def octet_def is_digit_def digits_val_def)

theorem config_roundtrip_witness:
  "read_sections example_vty \<lparr>vty_node = CONFIG_NODE, vty_app = example_config\<lparr>sip_local_port := 1, mncc_path := []\<rparr>, vty_su = []\<rparr>
     (map (\<lambda>f. run_writer f example_config) (writers (snd (mncc_sip_vty_init ''1.0'' example_config))))
   = Some \<lparr>vty_node = CONFIG_NODE, vty_app = example_config, vty_su = [Su_log_set_level su_log_default 2, Su_log_set_level su_log_global 2]\<rparr>"
  using config_roundtrip [OF example_vty_matches example_config_valid, of "example_config\<lparr>sip_local_port := 1, mncc_path := []\<rparr>" "[]"]
  by (simp add: example_config_def)

end
