(* ===== verification/Vty.thy ===== *)
theory Vty
  imports Call_Ends Vty_Commands
begin

text \<open>
  \<open>src/src/vty.c\<close>, second part: the show commands. What a command prints is the list of its lines; reading a
  call that is gone faults.
\<close>

section \<open>Showing calls\<close>

text \<open>Conversions of \<open>vty_out\<close>: a string pointer that may be NULL (as the C library prints it), a right-aligned
  number of five columns, a left-aligned string of 32; how a pointer is printed is left open.\<close>

definition str_or_null :: "string option \<Rightarrow> string" where
  "str_or_null s = (case s of None \<Rightarrow> ''(null)'' | Some t \<Rightarrow> t)"

definition fmt_5u :: "nat \<Rightarrow> string" where
  "fmt_5u n = replicate (5 - length (fmt_u n)) (CHR '' '') @ fmt_u n"

definition fmt_32s :: "string \<Rightarrow> string" where
  "fmt_32s s = s @ replicate (32 - length s) (CHR '' '')"

definition fmt_number :: "gsm_mncc_number \<Rightarrow> string" where
  "fmt_number n = ''TON('' @ fmt_d (num_type n) @ '') NPI('' @ fmt_d (num_plan n) @ '') NUM('' @ prec_s 32 (num_number n) @ '')''"

definition dump_leg :: "(addr option \<Rightarrow> string) \<Rightarrow> addr option \<Rightarrow> string \<Rightarrow> string list io" where
  "dump_leg fmt_p p kind = (case p of None \<Rightarrow> mret [] | Some a \<Rightarrow> mbind (get_leg a) (\<lambda>l.
     let head = '' '' @ kind @ '' leg of type: '' @ get_value_string call_type_vals (leg_type l) in
     case leg_type l of
       CALL_TYPE_SIP \<Rightarrow> mbind (get_sip a) (\<lambda>s. mret [head,
         '' SIP nua_handle('' @ fmt_p (nua_handle s) @ '')'',
         '' SIP state('' @ get_value_string sip_state_vals (sip_state s) @ '')'',
         '' SIP dir('' @ get_value_string sip_dir_vals (sip_direction s) @ '')'',
         '' SIP wanted_codec('' @ str_or_null (wanted_codec s) @ '')''])
     | CALL_TYPE_MNCC \<Rightarrow> mbind (get_mncc a) (\<lambda>m. mbind (mget timers) (\<lambda>ts. mret [head,
         '' MNCC state('' @ get_value_string mncc_state_vals (mncc_state m) @ '')'',
         '' MNCC dir('' @ get_value_string mncc_dir_vals (mncc_direction m) @ '')'',
         '' MNCC callref('' @ fmt_u (unat (callref m)) @ '')'',
         '' MNCC called '' @ fmt_number (called m),
         '' MNCC calling '' @ fmt_number (calling m),
         '' MNCC imsi('' @ prec_s 16 (imsi m) @ '')'',
         '' MNCC timer pending('' @ fmt_d (if a \<in> set ts then 1 else 0) @ '')'']))
     | CALL_TYPE_NONE \<Rightarrow> mret [head, '' Unhandled type: 0'']))"

text \<open>A string member of the call, read through its pointer.\<close>

definition show_str :: "owned_str option \<Rightarrow> string io" where
  "show_str p = (case p of None \<Rightarrow> mret (str_or_null None) | Some s \<Rightarrow> get_str (Some s))"

fun show_each :: "(addr option \<Rightarrow> string) \<Rightarrow> addr list \<Rightarrow> string list io" where
  "show_each fmt_p [] = mret []"
| "show_each fmt_p (c # cs) = mbind (get_call c) (\<lambda>x. mbind (show_str (source x)) (\<lambda>src. mbind (show_str (dest x)) (\<lambda>dst.
     mbind (dump_leg fmt_p (initial x) ''Initial'') (\<lambda>i. mbind (dump_leg fmt_p (remote x) ''Remote'') (\<lambda>r.
     mbind (show_each fmt_p cs) (\<lambda>rest.
     mret ((''Call('' @ fmt_u (unat (call_id x)) @ '') from '' @ src @ '' to '' @ dst) # i @ r @ rest)))))))"

definition show_calls :: "(addr option \<Rightarrow> string) \<Rightarrow> string list io" where
  "show_calls fmt_p = mbind (mget g_call_list) (show_each fmt_p)"

fun sum_rows :: "addr list \<Rightarrow> string list io" where
  "sum_rows [] = mret []"
| "sum_rows (c # cs) = mbind (get_call c) (\<lambda>x. mbind (deref (initial x)) (\<lambda>a. mbind (get_leg a) (\<lambda>l.
     if leg_type l = CALL_TYPE_MNCC then mbind (get_mncc a) (\<lambda>m. mbind (call_leg_state a) (\<lambda>st. mbind (sum_rows cs) (\<lambda>rest.
       mret ((fmt_5u (unat (call_id x)) @ '' '' @ fmt_32s (num_number (calling m)) @ '' '' @ fmt_32s (num_number (called m)) @ '' '' @ st) # rest))))
     else sum_rows cs)))"

definition show_calls_sum :: "string list io" where
  "show_calls_sum = mbind (mget g_call_list) (\<lambda>cs. if cs = [] then mret [''No active calls.'']
     else mbind (sum_rows cs) (\<lambda>rows. mret (
       [''ID    From                             To                               State'',
        ''----- -------------------------------- -------------------------------- ----------''] @ rows)))"

definition show_mncc_conn :: "world \<Rightarrow> string list" where
  "show_mncc_conn w = [''MNCC connection to path '' @ [CHR 0x27] @ mncc_path (g_app w) @ [CHR 0x27] @ '' is in state ''
     @ get_value_string mncc_conn_state_vals (conn_state (conn w))]"

definition run_show :: "(addr option \<Rightarrow> string) \<Rightarrow> show_cmd \<Rightarrow> string list io" where
  "run_show fmt_p e = (case e of
       Show_calls \<Rightarrow> show_calls fmt_p
     | Show_calls_sum \<Rightarrow> show_calls_sum
     | Show_mncc_conn \<Rightarrow> mget show_mncc_conn)"

section \<open>What the show commands can read\<close>

text \<open>A call's row in the summary: one if an MNCC leg started it.\<close>

definition sum_row :: "world \<Rightarrow> addr \<Rightarrow> string list" where
  "sum_row w c = (case calls w c of None \<Rightarrow> [] | Some x \<Rightarrow> (case initial x of None \<Rightarrow> [] | Some a \<Rightarrow> (case legs w a of None \<Rightarrow> [] | Some l \<Rightarrow>
     (case leg_object l of Sip_object _ \<Rightarrow> [] | Mncc_object m \<Rightarrow>
       [fmt_5u (unat (call_id x)) @ '' '' @ fmt_32s (num_number (calling m)) @ '' '' @ fmt_32s (num_number (called m)) @ '' ''
          @ get_value_string mncc_state_vals (mncc_state m)]))))"

definition keeps_initial :: "world \<Rightarrow> addr \<Rightarrow> bool" where
  "keeps_initial w c = (case calls w c of None \<Rightarrow> True | Some x \<Rightarrow> initial x \<noteq> None)"

lemma sum_rows_correct:
  assumes inv: "heap_inv w" and "\<forall>c \<in> set cs. calls w c \<noteq> None"
  shows "sum_rows cs w = (if list_all (keeps_initial w) cs then Inr (concat (map (sum_row w) cs), w) else Inl Null_deref)"
  using assms(2)
proof (induction cs)
  case Nil
  then show ?case by (simp add: mret_def)
next
  case (Cons c cs)
  then obtain x where x: "calls w c = Some x" by auto
  show ?case
  proof (cases "initial x")
    case None
    then show ?thesis using x by (simp add: get_call_def deref_def monad_defs keeps_initial_def [of w c])
  next
    case (Some a)
    then obtain l where l: "legs w a = Some l" using wf_heap_call_leg_ex [OF heap_invD(1) [OF inv] x] by blast
    note ok = heap_invD(2) [OF inv l]
    show ?thesis
    proof (cases "is_mncc l")
      case True
      then show ?thesis using Some x l leg_ok_mncc(1,9) [OF ok True] Cons
        by (auto simp: get_call_def deref_def get_leg_def get_mncc_def call_leg_state_def monad_defs keeps_initial_def [of w c] sum_row_def [of w c])
    next
      case False
      then show ?thesis using Some x l leg_ok_sip(1,3) [OF ok False] Cons
        by (auto simp: get_call_def deref_def get_leg_def monad_defs keeps_initial_def [of w c] sum_row_def [of w c])
    qed
  qed
qed

lemma show_calls_sum_run:
  assumes "heap_inv w" and "g_call_list w \<noteq> []"
  shows "show_calls_sum w = (if list_all (keeps_initial w) (g_call_list w)
     then Inr ([''ID    From                             To                               State'',
        ''----- -------------------------------- -------------------------------- ----------'']
        @ concat (map (sum_row w) (g_call_list w)), w)
     else Inl Null_deref)"
proof -
  have "\<forall>c \<in> set (g_call_list w). calls w c \<noteq> None" using wf_heapD(2) [OF heap_invD(1) [OF assms(1)]] by blast
  from sum_rows_correct [OF assms(1) this] show ?thesis using assms(2)
    by (auto simp: show_calls_sum_def mbind_def mget_def mret_def)
qed

text \<open>
  C38. The summary of the calls lists, below its two head lines, every call that an MNCC leg
  started, in the order of the registry, with its numbers and state, and changes nothing; but as
  soon as one call has lost the leg that started it, the command goes through a NULL pointer.
\<close>

theorem show_calls_sum_correct:
  assumes "heap_inv w" and "g_call_list w \<noteq> []"
  shows "show_calls_sum w = (if list_all (keeps_initial w) (g_call_list w)
     then Inr ([''ID    From                             To                               State'',
        ''----- -------------------------------- -------------------------------- ----------'']
        @ concat (map (sum_row w) (g_call_list w)), w)
     else Inl Null_deref)"
  using assms by (rule show_calls_sum_run)

text \<open>A string of a call can be read while the leg that owns it lives.\<close>

definition str_live :: "world \<Rightarrow> owned_str option \<Rightarrow> bool" where
  "str_live w p = (case p of None \<Rightarrow> True | Some s \<Rightarrow> legs w (str_owner s) \<noteq> None)"

definition strings_live :: "world \<Rightarrow> addr \<Rightarrow> bool" where
  "strings_live w c = (case calls w c of None \<Rightarrow> True | Some x \<Rightarrow> str_live w (source x) \<and> str_live w (dest x))"

lemma show_str_run: "\<exists>s. show_str p w = (if str_live w p then Inr (s, w) else Inl Use_after_free)"
  by (cases p) (auto simp: show_str_def str_live_def get_str_def get_leg_def monad_defs split: option.splits)

lemma dump_leg_run:
  assumes "heap_inv w" and "\<And>a. p = Some a \<Longrightarrow> legs w a \<noteq> None"
  shows "\<exists>ls. dump_leg fmt_p p kind w = Inr (ls, w)"
proof (cases p)
  case None
  then show ?thesis by (simp add: dump_leg_def mret_def)
next
  case (Some a)
  then obtain l where l: "legs w a = Some l" using assms(2) by blast
  note ok = heap_invD(2) [OF assms(1) l]
  show ?thesis
    using Some l leg_ok_mncc(1,9) [OF ok] leg_ok_sip(1,3) [OF ok]
    by (cases "is_mncc l") (auto simp: dump_leg_def get_leg_def get_mncc_def get_sip_def monad_defs Let_def)
qed

lemma show_each_run:
  assumes inv: "heap_inv w" and "\<forall>c \<in> set cs. calls w c \<noteq> None"
  shows "\<exists>ls. show_each fmt_p cs w = (if list_all (strings_live w) cs then Inr (ls, w) else Inl Use_after_free)"
  using assms(2)
proof (induction cs)
  case Nil
  then show ?case by (simp add: mret_def)
next
  case (Cons c cs)
  then obtain x where x: "calls w c = Some x" by auto
  have ptr: "initial x = Some a \<or> remote x = Some a \<Longrightarrow> legs w a \<noteq> None" for a
    using wf_heap_call_leg_ex [OF heap_invD(1) [OF inv] x] by auto
  obtain i r where d: "dump_leg fmt_p (initial x) ''Initial'' w = Inr (i, w)" "dump_leg fmt_p (remote x) ''Remote'' w = Inr (r, w)"
    using dump_leg_run [OF inv] ptr by metis
  obtain s t where s: "show_str (source x) w = (if str_live w (source x) then Inr (s, w) else Inl Use_after_free)"
      "show_str (dest x) w = (if str_live w (dest x) then Inr (t, w) else Inl Use_after_free)"
    using show_str_run by metis
  obtain ls where ls: "show_each fmt_p cs w = (if list_all (strings_live w) cs then Inr (ls, w) else Inl Use_after_free)"
    using Cons by auto
  show ?case using x by (auto simp: d s ls get_call_def mbind_def mret_def strings_live_def [of w c])
qed

lemma show_calls_run:
  assumes "heap_inv w"
  shows "\<exists>ls. show_calls fmt_p w = (if list_all (strings_live w) (g_call_list w) then Inr (ls, w) else Inl Use_after_free)"
proof -
  have "\<forall>c \<in> set (g_call_list w). calls w c \<noteq> None" using wf_heapD(2) [OF heap_invD(1) [OF assms]] by blast
  from show_each_run [OF assms this] show ?thesis by (simp add: show_calls_def mbind_def mget_def)
qed

text \<open>
  C39. Listing the calls runs through, without a change to the state, exactly when the caller and
  called strings of every call still belong to a live leg. Both strings belong to the leg that
  started the call: once it is released and the other leg is still waiting, the command reads
  freed memory.
\<close>

theorem show_calls_reads_freed:
  assumes "heap_inv w"
  shows "\<exists>ls. show_calls fmt_p w = (if list_all (strings_live w) (g_call_list w) then Inr (ls, w) else Inl Use_after_free)"
  using assms by (rule show_calls_run)

text \<open>When a show command can be given without harm.\<close>

definition show_ok :: "world \<Rightarrow> show_cmd \<Rightarrow> bool" where
  "show_ok w s = (case s of
       Show_calls \<Rightarrow> list_all (strings_live w) (g_call_list w)
     | Show_calls_sum \<Rightarrow> list_all (keeps_initial w) (g_call_list w)
     | Show_mncc_conn \<Rightarrow> True)"

lemma run_show_ok:
  assumes "heap_inv w" and "show_ok w s"
  shows "\<exists>ls. run_show fmt_p s w = Inr (ls, w)"
proof (cases s)
  case Show_calls
  then show ?thesis using assms show_calls_run [OF assms(1), of fmt_p] by (simp add: run_show_def show_ok_def)
next
  case Show_calls_sum
  then show ?thesis using assms show_calls_sum_run [OF assms(1)]
    by (cases "g_call_list w = []") (simp_all add: run_show_def show_ok_def show_calls_sum_def mbind_def mget_def mret_def)
next
  case Show_mncc_conn
  then show ?thesis by (simp add: run_show_def mget_def)
qed

section \<open>Examples\<close>

text \<open>The bridged call of the examples, and the same call after its MNCC leg, which started it, is gone
  while the SIP leg waits for the answer to its BYE.\<close>

definition example_orphan :: world where
  "example_orphan = (example_bridge MNCC_CC_CONNECTED [])\<lparr>legs := [3 \<mapsto> example_remote_leg], timers := [],
     calls := [1 \<mapsto> (created_call 5001 2)\<lparr>initial := None, remote := Some 3, source := Some \<lparr>str_owner = 2, str_val = ''100''\<rparr>\<rparr>]\<rparr>"

lemma example_orphan_inv: "heap_inv example_orphan"
  by (auto simp: heap_inv_def wf_heap_def legs_ok_def call_wf_def call_ok_def call_legs_iff example_orphan_def
      example_bridge_def init_world_def created_call_def zero_call_def split: if_splits)

theorem show_calls_sum_witness:
  "(\<exists>rows. show_calls_sum (example_bridge MNCC_CC_CONNECTED []) = Inr (rows, example_bridge MNCC_CC_CONNECTED []) \<and> length rows = 3)
   \<and> show_calls_sum example_orphan = Inl Null_deref"
proof -
  have "heap_inv (example_bridge MNCC_CC_CONNECTED [])" using example_bridge_inv by (simp add: inv_iff)
  from show_calls_sum_correct [OF this] show_calls_sum_correct [OF example_orphan_inv] show ?thesis
    by (simp add: keeps_initial_def sum_row_def created_call_def example_orphan_def)
qed

theorem show_calls_witness: "show_calls (\<lambda>_. ''(nil)'') example_orphan = Inl Use_after_free"
  using show_calls_reads_freed [OF example_orphan_inv, of "\<lambda>_. ''(nil)''"]
  by (simp add: strings_live_def str_live_def example_orphan_def)

end
