(* ===== verification/Evpoll.thy ===== *)
theory Evpoll
  imports Prelude "HOL-Library.Signed_Division"
begin

text \<open>
  \<open>src/src/evpoll.c\<close>: the poll function that GLib's main loop calls and that serves libosmocore's
  file descriptors and timers as well. libosmocore and \<open>select\<close> are parameters; the calls made to
  them are recorded in order. A file descriptor beyond the size of \<open>fd_set\<close> is the result \<open>None\<close>:
  C leaves that access undefined.
\<close>

section \<open>Time\<close>

datatype timeval = Timeval (tv_sec: int) (tv_usec: int)

lemma timeval_eq_iff: "a = b \<longleftrightarrow> tv_sec a = tv_sec b \<and> tv_usec a = tv_usec b"
  by (auto intro: timeval.expand)

text \<open>\<open>timercmp(a, b, <)\<close>, as an order.\<close>

instantiation timeval :: linorder
begin

definition less_timeval :: "timeval \<Rightarrow> timeval \<Rightarrow> bool" where
  "less_timeval a b = (if tv_sec a = tv_sec b then tv_usec a < tv_usec b else tv_sec a < tv_sec b)"

definition less_eq_timeval :: "timeval \<Rightarrow> timeval \<Rightarrow> bool" where
  "less_eq_timeval a b = (a < b \<or> a = (b :: timeval))"

instance
  by standard (auto simp: less_timeval_def less_eq_timeval_def timeval_eq_iff split: if_splits)

end

definition normal :: "timeval \<Rightarrow> bool" where
  "normal t = (0 \<le> tv_sec t \<and> 0 \<le> tv_usec t \<and> tv_usec t < 1000000)"

definition usecs :: "timeval \<Rightarrow> int" where
  "usecs t = tv_sec t * 1000000 + tv_usec t"

text \<open>For normal times the order is that of the microseconds they stand for.\<close>

lemma less_iff_usecs: "normal a \<Longrightarrow> normal b \<Longrightarrow> a < b \<longleftrightarrow> usecs a < usecs b"
  unfolding less_timeval_def usecs_def normal_def by (cases "tv_sec a" "tv_sec b" rule: linorder_cases) auto

section \<open>Descriptors and the library\<close>

definition POLLIN :: "16 word" where "POLLIN = 1"
definition POLLPRI :: "16 word" where "POLLPRI = 2"
definition POLLOUT :: "16 word" where "POLLOUT = 4"
definition POLLERR :: "16 word" where "POLLERR = 8"

definition FD_SETSIZE :: int where "FD_SETSIZE = 1024"

unbundle bit_operations_syntax

record pollfd =
  fd :: int
  events :: "16 word"
  revents :: "16 word"

record fd_sets =
  readset :: "int set"
  writeset :: "int set"
  exceptset :: "int set"

datatype poll_call = Fill_fds | Timers_check | Timers_prepare | Select int fd_sets "timeval option" | Timers_update | Disp_fds fd_sets

text \<open>
  \<open>osmo_fd_fill_fds\<close> on empty sets: the highest registered descriptor and the sets; \<open>osmo_timers_nearest\<close>:
  the time to the nearest timer, if there is one; \<open>select\<close>: its result and the sets it leaves.
\<close>

record poll_lib =
  lib_fill :: "int \<times> fd_sets"
  lib_nearest :: "timeval option"
  lib_select :: "int \<Rightarrow> fd_sets \<Rightarrow> timeval option \<Rightarrow> int \<times> fd_sets"

section \<open>The poll function\<close>

text \<open>The loop that adds GLib's descriptors.\<close>

fun add_fds :: "pollfd list \<Rightarrow> int \<Rightarrow> fd_sets \<Rightarrow> (int \<times> fd_sets) option" where
  "add_fds [] maxfd s = Some (maxfd, s)"
| "add_fds (p # ps) maxfd s = (
     if fd p < 0 then add_fds ps maxfd s
     else if events p AND (POLLIN OR POLLOUT OR POLLPRI) = 0 then add_fds ps maxfd s
     else if FD_SETSIZE \<le> fd p then None
     else add_fds ps (if fd p > maxfd then fd p else maxfd)
       \<lparr>readset = (if events p AND POLLIN \<noteq> 0 then insert (fd p) (readset s) else readset s),
        writeset = (if events p AND POLLOUT \<noteq> 0 then insert (fd p) (writeset s) else writeset s),
        exceptset = (if events p AND POLLPRI \<noteq> 0 then insert (fd p) (exceptset s) else exceptset s)\<rparr>)"

definition poll_timeout :: "timeval option \<Rightarrow> int \<Rightarrow> timeval option" where
  "poll_timeout nearest timeout = (
     if timeout = 0 then Some (Timeval 0 0)
     else if timeout = - 1 then nearest
     else let poll_tv = Timeval (timeout sdiv 1000) ((timeout smod 1000) * 1000) in
       case nearest of None \<Rightarrow> Some poll_tv | Some tv \<Rightarrow> (if poll_tv < tv then Some poll_tv else Some tv))"

text \<open>The loop that reports what happened.\<close>

definition report :: "fd_sets \<Rightarrow> pollfd \<Rightarrow> pollfd" where
  "report s p = (if fd p < 0 then p\<lparr>revents := 0\<rparr> else
     let r = (if fd p \<in> readset s then POLLIN OR POLLERR else 0);
         r = (if fd p \<in> writeset s then r OR POLLOUT else r);
         r = (if fd p \<in> exceptset s then r OR POLLPRI else r) in p\<lparr>revents := r\<rparr>)"

fun report_fds :: "fd_sets \<Rightarrow> pollfd list \<Rightarrow> pollfd list option" where
  "report_fds s [] = Some []"
| "report_fds s (p # ps) = (if FD_SETSIZE \<le> fd p then None else map_option (Cons (report s p)) (report_fds s ps))"

definition evpoll :: "poll_lib \<Rightarrow> pollfd list \<Rightarrow> int \<Rightarrow> (int \<times> pollfd list \<times> poll_call list) option" where
  "evpoll L fds timeout = (case lib_fill L of (maxfd, sets) \<Rightarrow>
     (case add_fds fds maxfd sets of None \<Rightarrow> None | Some (maxfd, sets) \<Rightarrow>
       (let tv = poll_timeout (lib_nearest L) timeout;
            calls = [Fill_fds, Timers_check, Timers_prepare, Select (maxfd + 1) sets tv] in
        case lib_select L (maxfd + 1) sets tv of (rc, sets') \<Rightarrow>
          if rc < 0 then Some (0, fds, calls)
          else (case report_fds sets' fds of None \<Rightarrow> None
            | Some fds' \<Rightarrow> Some (rc, fds', calls @ [Timers_update, Disp_fds sets'])))))"

section \<open>How long it may sleep\<close>

lemma poll_tv_normal:
  assumes "0 \<le> timeout"
  shows "normal (Timeval (timeout sdiv 1000) ((timeout smod 1000) * 1000))"
    and "usecs (Timeval (timeout sdiv 1000) ((timeout smod 1000) * 1000)) = timeout * 1000"
proof -
  have d: "timeout sdiv 1000 = timeout div 1000" "timeout smod 1000 = timeout mod 1000"
    using assms by (simp_all add: signed_divide_int_def signed_modulo_int_def sgn_if minus_div_mult_eq_mod)
  have "0 \<le> timeout div 1000" "0 \<le> timeout mod 1000" "timeout mod 1000 < 1000" using assms by auto
  then show "normal (Timeval (timeout sdiv 1000) ((timeout smod 1000) * 1000))" unfolding d normal_def by simp
  show "usecs (Timeval (timeout sdiv 1000) ((timeout smod 1000) * 1000)) = timeout * 1000"
    unfolding d usecs_def timeval.sel using div_mult_mod_eq [of timeout 1000] by linarith
qed

text \<open>
  The poll function never sleeps past a deadline: the time given to \<open>select\<close> is the smaller of
  GLib's timeout in milliseconds and the time to libosmocore's nearest timer; without a limit
  only when GLib sets none (-1) and no timer runs.
\<close>

theorem poll_timeout_correct:
  assumes "- 1 \<le> timeout" and "\<And>t. nearest = Some t \<Longrightarrow> normal t"
  shows "map_option usecs (poll_timeout nearest timeout) = (case nearest of
       None \<Rightarrow> if timeout = - 1 then None else Some (timeout * 1000)
     | Some t \<Rightarrow> Some (if timeout = - 1 then usecs t else min (timeout * 1000) (usecs t)))"
proof (cases "timeout = - 1")
  case True
  then show ?thesis by (simp add: poll_timeout_def split: option.split)
next
  case False
  then have t: "0 \<le> timeout" using assms(1) by simp
  note n = poll_tv_normal [OF t]
  show ?thesis
  proof (cases nearest)
    case None
    then show ?thesis using False n by (simp add: poll_timeout_def Let_def usecs_def)
  next
    case (Some u)
    then have u: "normal u" using assms(2) by simp
    then have "0 \<le> usecs u" by (simp add: normal_def usecs_def)
    then show ?thesis using False t Some n(2) less_iff_usecs [OF n(1) u]
      by (auto simp: poll_timeout_def Let_def min_def usecs_def)
  qed
qed

theorem poll_timeout_witness: "map_option usecs (poll_timeout (Some (Timeval 1 500000)) 2000) = Some 1500000"
  using poll_timeout_correct [of 2000 "Some (Timeval 1 500000)"] by (simp add: normal_def usecs_def)

section \<open>What it waits for and what it reports\<close>

text \<open>A descriptor for which GLib waits for one of the events of the mask.\<close>

definition wants :: "16 word \<Rightarrow> pollfd list \<Rightarrow> int set" where
  "wants e fds = {fd p | p. p \<in> set fds \<and> 0 \<le> fd p \<and> events p AND e \<noteq> 0}"

lemma wants_simps [simp]:
  "wants e [] = {}"
  "wants e (p # ps) = (if 0 \<le> fd p \<and> events p AND e \<noteq> 0 then insert (fd p) (wants e ps) else wants e ps)"
  by (auto simp: wants_def)

lemma no_events: "x AND (a OR b OR c) = (0 :: 16 word) \<longleftrightarrow> x AND a = 0 \<and> x AND b = 0 \<and> x AND c = 0"
  by (simp add: bit.conj_disj_distrib bit_eq_iff bit_simps) blast

lemma add_fds_correct:
  assumes "\<forall>p \<in> set fds. fd p < FD_SETSIZE"
  shows "\<exists>m. add_fds fds maxfd s = Some (m, \<lparr>readset = readset s \<union> wants POLLIN fds, writeset = writeset s \<union> wants POLLOUT fds,
       exceptset = exceptset s \<union> wants POLLPRI fds\<rparr>)
     \<and> maxfd \<le> m \<and> (\<forall>x \<in> wants POLLIN fds \<union> wants POLLOUT fds \<union> wants POLLPRI fds. x \<le> m)"
  using assms
proof (induction fds arbitrary: maxfd s)
  case Nil
  then show ?case by simp
next
  case (Cons p ps)
  then have p: "\<not> FD_SETSIZE \<le> fd p" and ps: "\<forall>p \<in> set ps. fd p < FD_SETSIZE" by auto
  show ?case
  proof (cases "fd p < 0 \<or> events p AND (POLLIN OR POLLOUT OR POLLPRI) = 0")
    case True
    then show ?thesis using Cons.IH [OF ps, of maxfd s] by (auto simp: no_events)
  next
    case False
    let ?m = "if fd p > maxfd then fd p else maxfd"
    let ?s = "\<lparr>readset = (if events p AND POLLIN \<noteq> 0 then insert (fd p) (readset s) else readset s),
        writeset = (if events p AND POLLOUT \<noteq> 0 then insert (fd p) (writeset s) else writeset s),
        exceptset = (if events p AND POLLPRI \<noteq> 0 then insert (fd p) (exceptset s) else exceptset s)\<rparr>"
    have "add_fds (p # ps) maxfd s = add_fds ps ?m ?s" using False p by simp
    moreover obtain m where "add_fds ps ?m ?s = Some (m, \<lparr>readset = readset ?s \<union> wants POLLIN ps, writeset = writeset ?s \<union> wants POLLOUT ps,
       exceptset = exceptset ?s \<union> wants POLLPRI ps\<rparr>)" "?m \<le> m"
       "\<forall>x \<in> wants POLLIN ps \<union> wants POLLOUT ps \<union> wants POLLPRI ps. x \<le> m"
      using Cons.IH [OF ps, of ?m ?s] by blast
    ultimately show ?thesis using False by (auto split: if_splits)
  qed
qed

lemma report_fds_correct: "\<forall>p \<in> set fds. fd p < FD_SETSIZE \<Longrightarrow> report_fds s fds = Some (map (report s) fds)"
  by (induction fds) auto

text \<open>What \<open>osmo_fd_fill_fds\<close> and \<open>select\<close> promise: the highest descriptor bounds the sets, and
  \<open>select\<close> leaves only descriptors it was given.\<close>

definition poll_lib_ok :: "poll_lib \<Rightarrow> bool" where
  "poll_lib_ok L = ((case lib_fill L of (m, s) \<Rightarrow> \<forall>x \<in> readset s \<union> writeset s \<union> exceptset s. x \<le> m)
     \<and> (\<forall>n s tv. case lib_select L n s tv of (rc, s') \<Rightarrow> 0 \<le> rc \<longrightarrow>
          readset s' \<subseteq> readset s \<and> writeset s' \<subseteq> writeset s \<and> exceptset s' \<subseteq> exceptset s))"


text \<open>GLib reads descriptor 7, libosmocore 5; only 7 is ready.\<close>

definition example_poll_lib :: poll_lib where
  "example_poll_lib = \<lparr>lib_fill = (5, \<lparr>readset = {5}, writeset = {}, exceptset = {}\<rparr>), lib_nearest = None,
     lib_select = (\<lambda>n s tv. (1, \<lparr>readset = readset s \<inter> {7}, writeset = {}, exceptset = {}\<rparr>))\<rparr>"


end
