(* ===== verification/Main_Prog.thy ===== *)
theory Main_Prog
  imports Vty Sip_Agent Evpoll
begin

text \<open>
  \<open>src/src/main.c\<close>: the command line, the start of the process and the main loop it ends up in. What
  \<open>getopt_long\<close>, the reading of the configuration file, the telnet server, Sofia-SIP and
  \<open>osmo_daemonize\<close> return is a parameter.
\<close>

section \<open>Command line\<close>

record options =
  daemonize :: bool
  config_file :: string

definition default_options :: options where
  "default_options = \<lparr>daemonize = False, config_file = ''osmo-sip-connector.cfg''\<rparr>"

definition print_help :: "string \<Rightarrow> string" where
  "print_help cfg = ''OsmoSIPcon: MNCC to SIP bridge'' @ [CHR 0x0A]
     @ ''  -h --help'' @ [CHR 0x09] @ ''This text'' @ [CHR 0x0A]
     @ ''  -c --config-file NAME'' @ [CHR 0x09] @ ''The config file to use ['' @ cfg @ '']'' @ [CHR 0x0A]
     @ ''  -D --daemonize'' @ [CHR 0x09] @ ''Fork the process into a background daemon'' @ [CHR 0x0A]
     @ ''  -V --version'' @ [CHR 0x09] @ ''Print the version number'' @ [CHR 0x0A]"

text \<open>The tables given to \<open>getopt_long\<close>: name, whether an argument follows, value.\<close>

type_synonym long_option = "string \<times> int \<times> char"

definition long_options :: "long_option list" where
  "long_options = [(''help'', 0, CHR ''h''), (''config-file'', 1, CHR ''c''), (''daemonize'', 0, CHR ''D''), (''version'', 0, CHR ''V'')]"

definition short_options :: string where
  "short_options = ''hc:DV''"

text \<open>The results of \<open>getopt_long\<close> up to the -1, each with \<open>optarg\<close>. \<open>Inl\<close>: the process prints this text and exits
  with this code; \<open>version\<close> is what \<open>print_version\<close> prints.\<close>

fun handle_options :: "string \<Rightarrow> (char \<times> string) list \<Rightarrow> options \<Rightarrow> (string \<times> int) + options" where
  "handle_options version [] opts = Inr opts"
| "handle_options version ((c, optarg) # rest) opts = (
     if c = CHR ''h'' then Inl (print_help (config_file opts), 0)
     else if c = CHR ''c'' then handle_options version rest (opts\<lparr>config_file := optarg\<rparr>)
     else if c = CHR ''D'' then handle_options version rest (opts\<lparr>daemonize := True\<rparr>)
     else if c = CHR ''V'' then Inl (version, 0)
     else handle_options version rest opts)"

text \<open>The last configuration file named counts.\<close>

definition named_config :: "string \<Rightarrow> (char \<times> string) list \<Rightarrow> string" where
  "named_config cfg os = last (cfg # map snd (filter (\<lambda>o1. fst o1 = CHR ''c'') os))"

definition asks_and_exits :: "char \<times> string \<Rightarrow> bool" where
  "asks_and_exits o1 = (fst o1 = CHR ''h'' \<or> fst o1 = CHR ''V'')"

lemma named_config_simps:
  "named_config cfg [] = cfg"
  "named_config cfg ((c, a) # os) = named_config (if c = CHR ''c'' then a else cfg) os"
  by (auto simp: named_config_def)

lemma handle_options_runs:
  "handle_options version os opts = Inr opts' \<Longrightarrow> daemonize opts' = (daemonize opts \<or> CHR ''D'' \<in> fst ` set os)
     \<and> config_file opts' = named_config (config_file opts) os \<and> \<not> list_ex asks_and_exits os"
  by (induction version os opts rule: handle_options.induct)
     (auto simp: named_config_simps asks_and_exits_def split: if_splits)

text \<open>The first request for help or the version decides; the help names the configuration file chosen before it.\<close>

lemma handle_options_exits:
  "handle_options version os opts = Inl (msg, code) \<Longrightarrow> code = 0 \<and> (\<exists>before o1 rest. os = before @ o1 # rest \<and> \<not> list_ex asks_and_exits before
     \<and> (fst o1 = CHR ''h'' \<and> msg = print_help (named_config (config_file opts) before) \<or> fst o1 = CHR ''V'' \<and> msg = version))"
proof (induction version os opts rule: handle_options.induct)
  case (2 version c optarg rest opts)
  show ?case
  proof (cases "asks_and_exits (c, optarg)")
    case True
    then show ?thesis using 2(4) by (intro conjI exI [of _ "[]"]) (auto simp: asks_and_exits_def named_config_simps split: if_splits)
  next
    case False
    then have c: "c \<noteq> CHR ''h''" "c \<noteq> CHR ''V''" by (simp_all add: asks_and_exits_def)
    let ?opts = "if c = CHR ''c'' then opts\<lparr>config_file := optarg\<rparr> else if c = CHR ''D'' then opts\<lparr>daemonize := True\<rparr> else opts"
    have "code = 0 \<and> (\<exists>before o1 rest'. rest = before @ o1 # rest' \<and> \<not> list_ex asks_and_exits before
        \<and> (fst o1 = CHR ''h'' \<and> msg = print_help (named_config (config_file ?opts) before) \<or> fst o1 = CHR ''V'' \<and> msg = version))"
      using c 2 by (simp split: if_splits)
    then obtain before o1 rest' where "code = 0" "rest = before @ o1 # rest'" "\<not> list_ex asks_and_exits before"
        "fst o1 = CHR ''h'' \<and> msg = print_help (named_config (config_file ?opts) before) \<or> fst o1 = CHR ''V'' \<and> msg = version"
      by blast
    then show ?thesis using False
      by (intro conjI exI [of _ "(c, optarg) # before"] exI [of _ o1] exI [of _ rest']) (auto simp: named_config_simps split: if_splits)
  qed
qed simp

lemma handle_options_exits_iff: "(\<exists>e. handle_options version os opts = Inl e) \<longleftrightarrow> list_ex asks_and_exits os"
  by (induction version os opts rule: handle_options.induct) (auto simp: asks_and_exits_def)

section \<open>The main loop\<close>

text \<open>GLib's loop: the event sources attached to it (here: main loop objects of Sofia-SIP) and its poll function.\<close>

datatype poll_fn = Default_poll | Evpoll_fn

record main_loop =
  loop_sources :: "addr option list"
  loop_poll :: poll_fn

definition g_main_loop_new :: main_loop where
  "g_main_loop_new = \<lparr>loop_sources = [], loop_poll = Default_poll\<rparr>"

definition marry_loops :: "sip_agent \<Rightarrow> main_loop" where
  "marry_loops agent = (let loop = g_main_loop_new; loop = loop\<lparr>loop_sources := loop_sources loop @ [agent_root agent]\<rparr>
     in loop\<lparr>loop_poll := Evpoll_fn\<rparr>)"

section \<open>Start\<close>

record boot_env =
  env_argv :: "string list"
  env_getopt :: "string list \<Rightarrow> string \<Rightarrow> long_option list \<Rightarrow> (char \<times> string) list"
  env_version :: string
  env_package_version :: string
  env_read_config :: "string \<Rightarrow> app_config \<Rightarrow> int \<times> app_config \<times> su_call list"
  env_telnet :: int
  env_root :: "addr option"
  env_nua_create :: "addr option \<Rightarrow> string \<Rightarrow> addr option"
  env_daemonize :: int

definition env_options :: "boot_env \<Rightarrow> (char \<times> string) list" where
  "env_options E = env_getopt E (env_argv E) short_options long_options"

text \<open>\<open>g_app\<close> before \<open>main\<close>: all zero.\<close>

definition zero_app :: app_config where
  "zero_app = \<lparr>sip_local_addr = [], sip_local_port = 0, sofia_log_level = 0, sip_remote_addr = [], sip_remote_port = 0,
     mncc_path = [], use_imsi_as_id = 0\<rparr>"

definition calls_init :: "unit io" where
  "calls_init = mret ()"

text \<open>The process when the main loop starts; \<open>proc_exit\<close>: what \<open>main\<close> returns if the loop is ever left.\<close>

record process =
  proc_log :: log_info
  proc_vty :: "vty_call list"
  proc_su :: "su_call list"
  proc_agent :: sip_agent
  proc_world :: world
  proc_loop :: main_loop
  proc_exit :: int

datatype main_result = Exit string int | Crash fault | Loop process

definition main :: "boot_env \<Rightarrow> main_result" where
  "main E = (
     case mncc_sip_vty_init (env_package_version E) zero_app of (app, vty) \<Rightarrow>
     let app = app\<lparr>sofia_log_level := 2\<rparr> in
     case handle_options (env_version E) (env_options E) default_options of
       Inl (msg, code) \<Rightarrow> Exit msg code
     | Inr opts \<Rightarrow> (case env_read_config E (config_file opts) app of (rc, app, su) \<Rightarrow>
         if rc < 0 then Exit [] 1
         else if env_telnet E < 0 then Exit [] 1
         else (case (mthen mncc_connection_init mncc_connection_start) (init_world app) of
             Inl f \<Rightarrow> Crash f
           | Inr (_, w) \<Rightarrow>
             (case sip_agent_init (env_root E) G_app zero_agent of (agent, su1) \<Rightarrow>
              case sip_agent_start (env_nua_create E) (g_app w) agent of (rc, agent, su2) \<Rightarrow>
              if rc < 0 then Exit [] 1
              else (case (mthen calls_init app_setup) w of
                  Inl f \<Rightarrow> Crash f
                | Inr (_, w) \<Rightarrow>
                  if daemonize opts \<and> env_daemonize E < 0 then Exit [] 1
                  else Loop \<lparr>proc_log = mncc_sip_info, proc_vty = vty, proc_su = su @ su1 @ su2, proc_agent = agent, proc_world = w,
                    proc_loop = marry_loops agent, proc_exit = 0\<rparr>)))))"

text \<open>What \<open>main\<close> has made of the configuration when it starts the connections, and the whole process.\<close>

definition booted :: "app_config \<Rightarrow> world" where
  "booted app = (init_world app)\<lparr>conn := \<lparr>conn_state = MNCC_DISCONNECTED, conn_fd = - 1, reconnect_pending = True,
     on_disconnect = Some FP_app_mncc_disconnected\<rparr>\<rparr>"

definition booted_agent :: "boot_env \<Rightarrow> app_config \<Rightarrow> sip_agent" where
  "booted_agent E app = \<lparr>agent_app = Some G_app, agent_home = True, agent_root = env_root E,
     agent_nua = env_nua_create E (env_root E) (make_sip_uri app)\<rparr>"

definition booted_process :: "boot_env \<Rightarrow> app_config \<Rightarrow> su_call list \<Rightarrow> process" where
  "booted_process E app su = \<lparr>proc_log = mncc_sip_info, proc_vty = snd (mncc_sip_vty_init (env_package_version E) zero_app),
     proc_su = su @ [Su_init, Su_home_init, Su_log_redirect su_log_default, Su_log_redirect su_log_global, Su_glib_root_create,
       Su_root_threading (env_root E) 0, Nua_create (env_root E)
         \<lparr>NUTAG_URL = make_sip_uri app, NUTAG_AUTOACK = 0, NUTAG_AUTOALERT = 0, NUTAG_AUTOANSWER = 0\<rparr>],
     proc_agent = booted_agent E app, proc_world = booted app,
     proc_loop = \<lparr>loop_sources = [env_root E], loop_poll = Evpoll_fn\<rparr>, proc_exit = 0\<rparr>"

definition initial_config :: app_config where
  "initial_config = (default_config zero_app)\<lparr>sofia_log_level := 2\<rparr>"

lemma booted_safe: "safe (booted app)"
  by (simp add: safe_def inv_def wf_heap_def legs_ok_def conn_ok_def booted_def init_world_def)

lemma main_eq:
  "main E = (case handle_options (env_version E) (env_options E) default_options of
       Inl (msg, code) \<Rightarrow> Exit msg code
     | Inr opts \<Rightarrow> (case env_read_config E (config_file opts) initial_config of (rc, app, su) \<Rightarrow>
         if rc < 0 \<or> env_telnet E < 0 \<or> env_nua_create E (env_root E) (make_sip_uri app) = None \<or> (daemonize opts \<and> env_daemonize E < 0)
         then Exit [] 1 else Loop (booted_process E app su)))"
  by (auto simp: main_def Let_def mncc_connection_init_def mncc_connection_start_def calls_init_def app_setup_def monad_defs
      sip_agent_init_def sip_agent_start_def zero_agent_def booted_def booted_agent_def booted_process_def initial_config_def
      init_world_def marry_loops_def g_main_loop_new_def mncc_sip_vty_init_def split: sum.split prod.split)


section \<open>Restart with the configuration that was written\<close>

text \<open>Reading a file whose lines the library turns into commands; a line it does not know is an error.\<close>

definition read_config_file :: "vty_lib \<Rightarrow> string list list \<Rightarrow> app_config \<Rightarrow> int \<times> app_config \<times> su_call list" where
  "read_config_file L file app = (case read_sections L \<lparr>vty_node = CONFIG_NODE, vty_app = app, vty_su = []\<rparr> file of
     None \<Rightarrow> (- 1, app, []) | Some v \<Rightarrow> (0, vty_app v, vty_su v))"

lemma restart_keeps_config:
  assumes "vty_matches L" and "config_valid app" and "use_imsi_as_id app \<in> {0, 1}"
    and "env_read_config E = (\<lambda>f. read_config_file L [config_write_sip app, config_write_mncc app, config_write_app app])"
    and "main E = Loop p"
  shows "g_app (proc_world p) = app"
proof -
  have "read_config_file L [config_write_sip app, config_write_mncc app, config_write_app app] initial_config = (0, app,
      [Su_log_set_level su_log_default (sofia_log_level app), Su_log_set_level su_log_global (sofia_log_level app)])"
    using read_written [OF assms(1,2), of initial_config "[]"] assms(3)
    by (auto simp: read_config_file_def initial_config_def default_config_def zero_app_def)
  then show ?thesis using assms(4,5)
    by (auto simp: main_eq booted_process_def booted_def init_world_def split: sum.splits if_splits)
qed

text \<open>The log level that \<open>main\<close> sets is not told to the SIP stack: only the command of the configuration file does that.\<close>

lemma default_log_level_untold:
  assumes "main E = Loop p" and "\<And>f app. snd (snd (env_read_config E f app)) = []"
  shows "Su_log_set_level l n \<notin> set (proc_su p)"
proof -
  obtain app su where p: "p = booted_process E app su" and su: "su = []"
    using assms(1) assms(2) [of "config_file (projr (handle_options (env_version E) (env_options E) default_options))" initial_config]
    by (auto simp: main_eq split: sum.splits if_splits prod.splits)
  then show ?thesis by (simp add: booted_process_def)
qed

section \<open>Examples\<close>

text \<open>An option letter at a time; \<open>-c\<close> takes the next word.\<close>

fun example_getopt :: "string list \<Rightarrow> (char \<times> string) list" where
  "example_getopt [] = []"
| "example_getopt [a] = (if length a = 2 \<and> hd a = CHR ''-'' then [(last a, [])] else [])"
| "example_getopt (a # b # as) = (if a = ''-c'' then (CHR ''c'', b) # example_getopt as
     else if length a = 2 \<and> hd a = CHR ''-'' then (last a, []) # example_getopt (b # as) else example_getopt (b # as))"

definition example_boot :: boot_env where
  "example_boot = \<lparr>env_argv = [''osmo-sip-connector'', ''-c'', ''a.cfg'', ''-D'', ''-c'', ''b.cfg''],
     env_getopt = (\<lambda>argv short long. example_getopt argv), env_version = ''1.0'', env_package_version = ''1.0'',
     env_read_config = (\<lambda>f app. if f = ''b.cfg'' then (0, app\<lparr>sip_remote_addr := ''10.0.0.1''\<rparr>, []) else (- 1, app, [])), env_telnet = 0,
     env_root = Some 1, env_nua_create = (\<lambda>r u. if r \<noteq> None \<and> u = ''sip:127.0.0.1:5060'' then Some 2 else None), env_daemonize = 0\<rparr>"

lemma example_boot_runs:
  "main example_boot = Loop (booted_process example_boot (example_config\<lparr>sip_remote_addr := ''10.0.0.1''\<rparr>) [])"
  "main (example_boot\<lparr>env_telnet := - 1\<rparr>) = Exit [] 1"
  "main (example_boot\<lparr>env_argv := [''osmo-sip-connector'', ''-c'', ''a.cfg'', ''-h'', ''-V'']\<rparr>) = Exit (print_help ''a.cfg'') 0"
proof -
  have "fmt_d 5060 = ''5060''" by (simp add: fmt_d_def fmt_u.simps)
  then have "make_sip_uri (example_config\<lparr>sip_remote_addr := ''10.0.0.1''\<rparr>) = ''sip:127.0.0.1:5060''"
    by (simp add: make_sip_uri_def example_config_def)
  then show "main example_boot = Loop (booted_process example_boot (example_config\<lparr>sip_remote_addr := ''10.0.0.1''\<rparr>) [])"
    by (simp add: main_eq env_options_def example_boot_def default_options_def zero_app_def initial_config_def default_config_def example_config_def)
  show "main (example_boot\<lparr>env_telnet := - 1\<rparr>) = Exit [] 1"
      "main (example_boot\<lparr>env_argv := [''osmo-sip-connector'', ''-c'', ''a.cfg'', ''-h'', ''-V'']\<rparr>) = Exit (print_help ''a.cfg'') 0"
    by (simp_all add: main_eq env_options_def example_boot_def default_options_def split: prod.split)
qed


end
