(* ===== verification/Run_Relation.thy ===== *)
theory Run_Relation
  imports Sip_Events
begin

text \<open>
  Relations between the states before and after an operation. The interface \<open>run_relation\<close> asks
  for an invariant, a preorder that every elementary operation of the program respects, and facts
  about single legs that stay true; inside it every handler of the program is shown to respect the
  preorder, whatever the state, the message and the results of the operating system are. What the
  operations that give a call its second leg do is left to the instances.
\<close>

section \<open>Judgement\<close>

text \<open>From a state with the invariant and the facts in \<open>A\<close>, a run that ends keeps the invariant and
  the relation. A fact is an address with the handle that may be bound to it.\<close>

definition upholds :: "(world \<Rightarrow> bool) \<Rightarrow> (world \<Rightarrow> world \<Rightarrow> bool) \<Rightarrow> (addr \<Rightarrow> addr option \<Rightarrow> world \<Rightarrow> bool) \<Rightarrow>
    (addr \<times> addr option) set \<Rightarrow> 'a io \<Rightarrow> bool" where
  "upholds I R F A m = (\<forall>w x w'. I w \<and> (\<forall>a p. (a, p) \<in> A \<longrightarrow> F a p w) \<and> m w = Inr (x, w') \<longrightarrow> I w' \<and> R w w')"

lemma upholdsI:
  "(\<And>w x w'. I w \<Longrightarrow> (\<And>a p. (a, p) \<in> A \<Longrightarrow> F a p w) \<Longrightarrow> m w = Inr (x, w') \<Longrightarrow> I w' \<and> R w w') \<Longrightarrow> upholds I R F A m"
  unfolding upholds_def by blast

lemma upholdsD:
  assumes "upholds I R F A m" and "I w" and "\<And>a p. (a, p) \<in> A \<Longrightarrow> F a p w" and "m w = Inr (x, w')"
  shows "I w'" "R w w'"
  using assms unfolding upholds_def by blast+

text \<open>Messages that do not concern the binding of handles.\<close>

fun plain_action :: "action \<Rightarrow> bool" where
  "plain_action (Nua_handle_bind _ _) = False"
| "plain_action (Nua_handle_destroy _) = False"
| "plain_action _ = True"

section \<open>Interface\<close>

locale run_relation =
  fixes I :: "world \<Rightarrow> bool" and R :: "world \<Rightarrow> world \<Rightarrow> bool" and F :: "addr \<Rightarrow> addr option \<Rightarrow> world \<Rightarrow> bool"
  assumes R_refl: "R w w"
    and R_trans: "R u v \<Longrightarrow> R v w \<Longrightarrow> R u w"
    and F_stable: "I w \<Longrightarrow> R w w' \<Longrightarrow> F a p w \<Longrightarrow> F a p w'"
    and F_handle: "I w \<Longrightarrow> legs w a = Some l \<Longrightarrow> F a (leg_handle l) w"
    and step_leg: "I w \<Longrightarrow> legs w a = Some l \<Longrightarrow> leg_handle l' = leg_handle l \<Longrightarrow> leg_call l' = leg_call l \<Longrightarrow>
      I (w\<lparr>legs := (legs w)(a \<mapsto> l')\<rparr>) \<and> R w (w\<lparr>legs := (legs w)(a \<mapsto> l')\<rparr>)"
    and step_call: "I w \<Longrightarrow> calls w c = Some x \<Longrightarrow> initial x' = initial x \<Longrightarrow> remote x' = remote x \<Longrightarrow>
      I (w\<lparr>calls := (calls w)(c \<mapsto> x')\<rparr>) \<and> R w (w\<lparr>calls := (calls w)(c \<mapsto> x')\<rparr>)"
    and step_timers: "I w \<Longrightarrow> I (w\<lparr>timers := ts\<rparr>) \<and> R w (w\<lparr>timers := ts\<rparr>)"
    and step_allocs: "I w \<Longrightarrow> I (w\<lparr>allocs := bs\<rparr>) \<and> R w (w\<lparr>allocs := bs\<rparr>)"
    and step_writes: "I w \<Longrightarrow> I (w\<lparr>writes := ws\<rparr>) \<and> R w (w\<lparr>writes := ws\<rparr>)"
    and step_out: "I w \<Longrightarrow> plain_action act \<Longrightarrow> I (w\<lparr>out := out w @ [act]\<rparr>) \<and> R w (w\<lparr>out := out w @ [act]\<rparr>)"
    and step_destroy: "I w \<Longrightarrow> I (w\<lparr>out := out w @ [Nua_handle_destroy p]\<rparr>) \<and> R w (w\<lparr>out := out w @ [Nua_handle_destroy p]\<rparr>)"
    and F_destroy: "I w \<Longrightarrow> F a p w \<Longrightarrow> F a None (w\<lparr>out := out w @ [Nua_handle_destroy p]\<rparr>)"
    and step_close: "I w \<Longrightarrow> I (w\<lparr>conn := (conn w)\<lparr>conn_fd := -1, reconnect_pending := True, conn_state := MNCC_DISCONNECTED\<rparr>\<rparr>)
      \<and> R w (w\<lparr>conn := (conn w)\<lparr>conn_fd := -1, reconnect_pending := True, conn_state := MNCC_DISCONNECTED\<rparr>\<rparr>)"
    and step_release: "I w \<Longrightarrow> F a None w \<Longrightarrow> call_leg_release a w = Inr ((), w') \<Longrightarrow> I w' \<and> R w w'"
begin

abbreviation keeps :: "(addr \<times> addr option) set \<Rightarrow> 'a io \<Rightarrow> bool" where
  "keeps \<equiv> upholds I R F"

lemma keeps_same: "(\<And>w x w'. m w = Inr (x, w') \<Longrightarrow> w' = w) \<Longrightarrow> keeps A m"
  by (rule upholdsI) (metis R_refl)

lemma keeps_weaken: "keeps A m \<Longrightarrow> A \<subseteq> B \<Longrightarrow> keeps B m"
  unfolding upholds_def by blast

lemma facts_stable: "I w \<Longrightarrow> R w w' \<Longrightarrow> (\<And>a p. (a, p) \<in> A \<Longrightarrow> F a p w) \<Longrightarrow> (a, p) \<in> A \<Longrightarrow> F a p w'"
  using F_stable by blast

text \<open>Sequencing, with the facts the first part establishes.\<close>

lemma keeps_bind_facts:
  assumes m: "keeps A m" and k: "\<And>x. keeps (A \<union> N x) (k x)"
    and new: "\<And>w x w' a p. I w \<Longrightarrow> m w = Inr (x, w') \<Longrightarrow> (\<And>a p. (a, p) \<in> A \<Longrightarrow> F a p w) \<Longrightarrow> (a, p) \<in> N x \<Longrightarrow> F a p w'"
  shows "keeps A (mbind m k)"
proof (rule upholdsI)
  fix w y w'
  assume i: "I w" and f: "\<And>a p. (a, p) \<in> A \<Longrightarrow> F a p w" and run: "mbind m k w = Inr (y, w')"
  then obtain x v where v: "m w = Inr (x, v)" "k x v = Inr (y, w')"
    by (auto simp: mbind_def split: sum.splits prod.splits)
  note wv = upholdsD [OF m i f v(1)]
  have "F a p v" if "(a, p) \<in> A \<union> N x" for a p
    using that facts_stable [OF i wv(2), of A] f new [OF i v(1) f] by blast
  from upholdsD [OF k wv(1) this v(2)] wv(2) show "I w' \<and> R w w'" using R_trans by blast
qed

lemma keeps_bind: "keeps A m \<Longrightarrow> (\<And>x. keeps A (k x)) \<Longrightarrow> keeps A (mbind m k)"
  using keeps_bind_facts [of A m "\<lambda>_. {}" k] by simp

lemma keeps_then: "keeps A m \<Longrightarrow> keeps A n \<Longrightarrow> keeps A (mthen m n)"
  unfolding mthen_def by (rule keeps_bind)

lemma keeps_if: "(b \<Longrightarrow> keeps A m) \<Longrightarrow> (\<not> b \<Longrightarrow> keeps A n) \<Longrightarrow> keeps A (if b then m else n)"
  by simp

lemma keeps_when: "(b \<Longrightarrow> keeps A m) \<Longrightarrow> keeps A (mwhen b m)"
  by (auto simp: mwhen_def intro: keeps_same simp: mret_def)

lemma keeps_option: "(p = None \<Longrightarrow> keeps A m) \<Longrightarrow> (\<And>a. p = Some a \<Longrightarrow> keeps A (k a)) \<Longrightarrow> keeps A (case p of None \<Rightarrow> m | Some a \<Rightarrow> k a)"
  by (cases p) auto

lemma keeps_reads:
  "keeps A (mret x)" "keeps A (mfail f)" "keeps A (mget g)" "keeps A (massert b)" "keeps A (deref p)" "keeps A (get_leg a)"
  "keeps A (get_call c)" "keeps A (get_str q)" "keeps A (deref_sip sip)"
  by (auto intro!: keeps_same simp: monad_defs deref_def get_leg_def get_call_def get_str_def deref_sip_def
      split: option.splits if_splits sum.splits)

lemma keeps_casts_basic: "keeps A (get_mncc a)" "keeps A (get_sip a)"
  by (auto intro!: keeps_same simp: get_mncc_def get_sip_def get_leg_def monad_defs split: option.splits leg_object.splits sum.splits)

text \<open>Reading a leg as what it is says which handle may be bound to it.\<close>

lemma keeps_get_mncc: "(\<And>m. keeps (insert (a, None) A) (k m)) \<Longrightarrow> keeps A (mbind (get_mncc a) k)"
proof (rule keeps_bind_facts [where N = "\<lambda>_. {(a, None)}"])
  show "keeps A (get_mncc a)" by (rule keeps_casts_basic)
  show "F b p w'" if "I w" "get_mncc a w = Inr (x, w')" "(b, p) \<in> {(a, None)}" for w x w' b p
    using that F_handle [of w a] by (auto simp: get_mncc_def get_leg_def monad_defs leg_handle_def split: option.splits leg_object.splits)
qed simp

lemma keeps_get_sip: "(\<And>s. keeps (insert (a, nua_handle s) A) (k s)) \<Longrightarrow> keeps A (mbind (get_sip a) k)"
proof (rule keeps_bind_facts [where N = "\<lambda>s. {(a, nua_handle s)}"])
  show "keeps A (get_sip a)" by (rule keeps_casts_basic)
  show "F b p w'" if "I w" "get_sip a w = Inr (x, w')" "(b, p) \<in> {(a, nua_handle x)}" for w x w' b p
    using that F_handle [of w a] by (auto simp: get_sip_def get_leg_def monad_defs leg_handle_def split: option.splits leg_object.splits)
qed simp

section \<open>Elementary operations\<close>

lemma keeps_upd_leg: "(\<And>l. leg_handle (f l) = leg_handle l \<and> leg_call (f l) = leg_call l) \<Longrightarrow> keeps A (upd_leg a f)"
  by (rule upholdsI) (auto simp: upd_leg_def intro!: step_leg [THEN conjunct1] step_leg [THEN conjunct2] split: option.splits)

lemma keeps_upd_mncc: "keeps A (upd_mncc a f)"
  unfolding upd_mncc_def
proof (rule upholdsI)
  fix w x w'
  assume "I w" and "mbind (get_mncc a) (\<lambda>m. upd_leg a (leg_object_update (\<lambda>_. Mncc_object (f m)))) w = Inr (x, w')"
  then show "I w' \<and> R w w'"
    by (auto simp: get_mncc_def upd_leg_def get_leg_def monad_defs leg_handle_def intro!: step_leg [THEN conjunct1] step_leg [THEN conjunct2] split: option.splits leg_object.splits)
qed

lemma keeps_upd_sip: "(\<And>s. nua_handle (f s) = nua_handle s) \<Longrightarrow> keeps A (upd_sip a f)"
  unfolding upd_sip_def
proof (rule upholdsI)
  fix w x w'
  assume "\<And>s. nua_handle (f s) = nua_handle s" and "I w"
    and "mbind (get_sip a) (\<lambda>s. upd_leg a (leg_object_update (\<lambda>_. Sip_object (f s)))) w = Inr (x, w')"
  then show "I w' \<and> R w w'"
    by (auto simp: get_sip_def upd_leg_def get_leg_def monad_defs leg_handle_def intro!: step_leg [THEN conjunct1] step_leg [THEN conjunct2] split: option.splits leg_object.splits)
qed

lemma keeps_upd_call: "(\<And>x. initial (f x) = initial x \<and> remote (f x) = remote x) \<Longrightarrow> keeps A (upd_call c f)"
  by (rule upholdsI) (auto simp: upd_call_def intro!: step_call [THEN conjunct1] step_call [THEN conjunct2] split: option.splits)

lemma keeps_emit: "plain_action x \<Longrightarrow> keeps A (emit x)"
  by (rule upholdsI) (auto simp: emit_def mmod_def intro!: step_out [THEN conjunct1] step_out [THEN conjunct2])

lemma keeps_destroy: "keeps A (emit (Nua_handle_destroy p))"
  by (rule upholdsI) (auto simp: emit_def mmod_def intro!: step_destroy [THEN conjunct1] step_destroy [THEN conjunct2])

lemma keeps_destroy_then: "keeps (insert (a, None) (insert (a, p) A)) n \<Longrightarrow> keeps (insert (a, p) A) (mthen (emit (Nua_handle_destroy p)) n)"
  unfolding mthen_def
  by (rule keeps_bind_facts [where N = "\<lambda>_. {(a, None)}"], rule keeps_destroy) (auto simp: emit_def mmod_def intro: F_destroy)

lemma keeps_timers: "keeps A (timer_del a)" "keeps A (timer_schedule a)"
  by (rule upholdsI; auto simp: timer_del_def timer_schedule_def get_leg_def monad_defs intro!: step_timers [THEN conjunct1] step_timers [THEN conjunct2] split: option.splits)+

lemma keeps_alloc_ok: "keeps A alloc_ok"
  by (rule upholdsI) (auto simp: alloc_ok_def R_refl intro!: step_allocs [THEN conjunct1] step_allocs [THEN conjunct2] split: list.splits)

lemma keeps_sock_write:
  assumes "plain_action x"
  shows "keeps A (sock_write n x)"
proof (rule upholdsI)
  fix w y w'
  assume i: "I w" and run: "sock_write n x w = Inr (y, w')"
  note o = step_out [OF i assms]
  have "I (w\<lparr>out := out w @ [x], writes := ws\<rparr>) \<and> R w (w\<lparr>out := out w @ [x], writes := ws\<rparr>)" for ws
    using step_writes [of "w\<lparr>out := out w @ [x]\<rparr>" ws] o R_trans by blast
  with i run o step_writes [OF i] show "I w' \<and> R w w'"
    by (auto simp: sock_write_def R_refl split: if_splits list.splits)
qed

lemma keeps_release: "(a, None) \<in> A \<Longrightarrow> keeps A (call_leg_release a)"
  by (rule upholdsI) (auto dest: step_release)

lemmas keeps_rules = keeps_get_mncc keeps_get_sip keeps_destroy_then keeps_then keeps_bind keeps_if keeps_when keeps_option
  keeps_reads keeps_casts_basic keeps_timers keeps_alloc_ok keeps_destroy keeps_upd_mncc keeps_release insertI1

end

section \<open>Operations on a leg\<close>

text \<open>The SIP legs' operations and what they use.\<close>

context run_relation
begin

lemma keeps_other: "keeps A (call_leg_other a)"
  unfolding call_leg_other_def by (intro keeps_rules)

lemma keeps_rx_sdp: "keeps A (call_leg_rx_sdp a sdp)"
  unfolding call_leg_rx_sdp_def by (intro keeps_rules keeps_upd_leg) (auto simp: leg_handle_def)

lemma keeps_talloc_str: "keeps A (talloc_str a s)"
  unfolding talloc_str_def by (intro keeps_rules)

lemma keeps_extract: "keeps A (sdp_extract_sdp X a sip b)"
  unfolding sdp_extract_sdp_def Let_def
  by (intro keeps_rules) (auto split: option.split prod.split intro!: keeps_rules keeps_upd_leg simp: leg_handle_def)

lemma keeps_create_file: "keeps A (sdp_create_file X a b mode)"
  unfolding sdp_create_file_def by (intro keeps_rules keeps_upd_sip) simp

lemma keeps_sip_state: "keeps A m1 \<Longrightarrow> keeps A m2 \<Longrightarrow> keeps A m3 \<Longrightarrow> keeps A m4 \<Longrightarrow>
    keeps A (case st of SIP_CC_INITIAL \<Rightarrow> m1 | SIP_CC_DLG_CNFD \<Rightarrow> m2 | SIP_CC_CONNECTED \<Rightarrow> m3 | SIP_CC_HOLD \<Rightarrow> m4)"
  by (cases st) auto

lemma keeps_sip_release: "keeps A (sip_release_call a)"
  unfolding sip_release_call_def mseq.simps by (intro keeps_rules keeps_sip_state keeps_emit) simp_all

lemmas keeps_leg_rules = keeps_other keeps_rx_sdp keeps_talloc_str keeps_extract keeps_create_file keeps_sip_release

lemma keeps_sip_ops:
  "keeps A (sip_ring_call a)" "keeps A (sip_connect_call X a)" "keeps A (sip_dtmf_call a k)" "keeps A (sip_hold_call X a)"
  "keeps A (sip_retrieve_call X a)"
  unfolding sip_ring_call_def sip_connect_call_def sip_dtmf_call_def sip_hold_call_def sip_retrieve_call_def
  by (intro keeps_rules keeps_leg_rules keeps_upd_sip keeps_emit; simp)+

section \<open>The MNCC connection\<close>

lemma keeps_has_callref: "keeps A (leg_has_callref r p)"
  unfolding leg_has_callref_def by (intro keeps_rules)

lemma keeps_find_callref: "keeps A (find_callref r cs)"
  by (induction cs) (auto intro!: keeps_rules keeps_has_callref)

lemma keeps_find_leg: "keeps A (mncc_find_leg r)"
  unfolding mncc_find_leg_def by (intro keeps_rules keeps_find_callref)

lemma keeps_is_mncc_ptr: "keeps A (is_mncc_ptr p)"
  unfolding is_mncc_ptr_def by (intro keeps_rules)

lemma keeps_release_ptr: "(\<And>a. keeps A (rel a)) \<Longrightarrow> keeps A (release_ptr rel p)"
  unfolding release_ptr_def by (intro keeps_rules)

lemma keeps_disconnect: "(\<And>a. keeps A (rel a)) \<Longrightarrow> keeps A (disconnect_calls rel cs)"
  by (induction cs) (auto intro!: keeps_rules keeps_is_mncc_ptr keeps_release_ptr)

lemma keeps_close_conn: "keeps A (mmod (\<lambda>w. w\<lparr>conn := (conn w)\<lparr>conn_fd := -1, reconnect_pending := True, conn_state := MNCC_DISCONNECTED\<rparr>\<rparr>))"
  by (rule upholdsI) (auto simp: mmod_def intro!: step_close [THEN conjunct1] step_close [THEN conjunct2])

lemma keeps_close: "(\<And>a. keeps A (rel a)) \<Longrightarrow> keeps A (close_connection rel)"
  unfolding close_connection_def app_mncc_disconnected_def by (intro keeps_rules keeps_close_conn keeps_disconnect)

lemma keeps_write: "(\<And>a. keeps A (rel a)) \<Longrightarrow> keeps A (mncc_write X rel m)"
  unfolding mncc_write_def by (intro keeps_rules keeps_close keeps_sock_write) simp_all

lemma keeps_rtp_write: "(\<And>a. keeps A (rel a)) \<Longrightarrow> keeps A (mncc_rtp_write rel m)"
  unfolding mncc_rtp_write_def by (intro keeps_rules keeps_close keeps_sock_write) simp_all

lemma keeps_fill_header: "keeps A (mncc_fill_header m t r)"
  unfolding mncc_fill_header_def Let_def by (intro keeps_rules keeps_find_leg)

lemma keeps_send: "(\<And>a. keeps A (rel a)) \<Longrightarrow> keeps A (mncc_send X rel t r)"
  unfolding mncc_send_def by (intro keeps_rules keeps_fill_header keeps_write)

lemma keeps_rtp_send: "(\<And>a. keeps A (rel a)) \<Longrightarrow> keeps A (mncc_rtp_send rel t r s)"
  unfolding mncc_rtp_send_def by (intro keeps_rtp_write)

lemma keeps_start_timer: "keeps A (start_cmd_timer a r)"
  unfolding start_cmd_timer_def by (intro keeps_rules)

lemma keeps_stop_timer: "keeps A (stop_cmd_timer a r)"
  unfolding stop_cmd_timer_def by (intro keeps_rules)

lemma keeps_leg_release: "(a, None) \<in> A \<Longrightarrow> keeps A (mncc_leg_release a)"
  unfolding mncc_leg_release_def by (intro keeps_rules)

lemma keeps_rtp_connect: "(\<And>B a. keeps B (rel a)) \<Longrightarrow> keeps A (send_rtp_connect rel a b)"
  unfolding send_rtp_connect_def by (intro keeps_rules keeps_rtp_write keeps_close)

lemmas keeps_conn_rules = keeps_find_leg keeps_release_ptr keeps_close keeps_write keeps_rtp_write keeps_fill_header keeps_send
  keeps_rtp_send keeps_start_timer keeps_stop_timer keeps_leg_release keeps_rtp_connect

lemma keeps_mncc_release: "(\<And>B a. keeps B (rel a)) \<Longrightarrow> keeps A (mncc_call_leg_release X rel a)"
  unfolding mncc_call_leg_release_def
  by (intro keeps_rules keeps_conn_rules keeps_upd_leg) (auto simp: leg_handle_def)

lemma keeps_release_depth: "keeps A (release_leg X n a)"
proof (induction n arbitrary: A a)
  case 0
  then show ?case by (simp add: keeps_reads)
next
  case (Suc n)
  show ?case unfolding release_leg.simps by (intro keeps_rules keeps_sip_release keeps_mncc_release Suc)
qed

lemma keeps_mncc_ops: "keeps A (mncc_call_leg_connect X (release_leg X n) a)" "keeps A (mncc_call_leg_ring X (release_leg X n) a)"
  unfolding mncc_call_leg_connect_def mncc_call_leg_ring_def
  by (intro keeps_rules keeps_conn_rules keeps_other keeps_release_depth)+

lemma keeps_update_rtp: "keeps A (mncc_update_rtp X a)"
  unfolding mncc_update_rtp_def
  by (intro keeps_rules) (auto split: call_type.split intro!: keeps_rules keeps_conn_rules keeps_other keeps_release_depth)

lemma keeps_cmd_timeout: "keeps A (cmd_timeout X a)"
  unfolding cmd_timeout_def by (intro keeps_rules keeps_conn_rules keeps_other keeps_release_depth)

end

section \<open>Handlers\<close>

text \<open>A leg found by its reference is an MNCC leg, a leg found by its handle has that handle.\<close>

lemma find_callref_run:
  "find_callref r cs w = Inr (p, w') \<Longrightarrow> w' = w \<and> (\<forall>a. p = Some a \<longrightarrow> (\<exists>l. legs w a = Some l \<and> leg_handle l = None))"
proof (induction cs)
  case Nil
  then show ?case by (simp add: mret_def)
next
  case (Cons c cs)
  have has: "leg_has_callref r q w = Inr (b, v) \<Longrightarrow> v = w \<and> (b \<longrightarrow> (\<exists>a l. q = Some a \<and> legs w a = Some l \<and> leg_handle l = None))" for q b v
    by (auto simp: leg_has_callref_def get_leg_def get_mncc_def monad_defs leg_handle_def split: option.splits if_splits leg_object.splits)
  from Cons show ?case
    by (auto simp: mbind_def get_call_def mret_def dest!: has split: option.splits sum.splits prod.splits if_splits)
qed

lemma find_handle_run:
  "find_handle h cs w = Inr (p, w') \<Longrightarrow> w' = w \<and> (\<forall>a. p = Some a \<longrightarrow> (\<exists>l. legs w a = Some l \<and> leg_handle l = Some h))"
proof (induction cs)
  case Nil
  then show ?case by (simp add: mret_def)
next
  case (Cons c cs)
  have has: "leg_has_handle h q w = Inr (b, v) \<Longrightarrow> v = w \<and> (b \<longrightarrow> (\<exists>a l. q = Some a \<and> legs w a = Some l \<and> leg_handle l = Some h))" for q b v
    by (auto simp: leg_has_handle_def get_leg_def get_sip_def monad_defs leg_handle_def split: option.splits if_splits leg_object.splits)
  from Cons show ?case
    by (auto simp: mbind_def get_call_def mret_def dest!: has split: option.splits sum.splits prod.splits if_splits)
qed

context run_relation
begin

lemma keeps_found:
  assumes find: "\<And>w p w'. m w = Inr (p, w') \<Longrightarrow> w' = w \<and> (\<forall>a. p = Some a \<longrightarrow> (\<exists>l. legs w a = Some l \<and> leg_handle l = h))"
    and k: "\<And>a. keeps (insert (a, h) A) (k a)" and n: "keeps A n"
  shows "keeps A (mbind m (\<lambda>p. case p of None \<Rightarrow> n | Some a \<Rightarrow> k a))"
proof (rule keeps_bind_facts [where N = "\<lambda>p. case p of None \<Rightarrow> {} | Some a \<Rightarrow> {(a, h)}"])
  show "keeps A m" using find by (intro keeps_same) blast
  show "keeps (A \<union> (case p of None \<Rightarrow> {} | Some a \<Rightarrow> {(a, h)})) (case p of None \<Rightarrow> n | Some a \<Rightarrow> k a)" for p
    using k n by (cases p) simp_all
  show "F b q w'" if "I w" "m w = Inr (p, w')" "(b, q) \<in> (case p of None \<Rightarrow> {} | Some a \<Rightarrow> {(a, h)})" for w p w' b q
    using that find [OF that(2)] F_handle [of w b] by (auto split: option.splits)
qed

lemma keeps_mncc_found:
  "(\<And>a. keeps (insert (a, None) A) (k a)) \<Longrightarrow> keeps A n \<Longrightarrow>
   keeps A (mbind (mncc_find_leg_not_released r) (\<lambda>p. case p of None \<Rightarrow> n | Some a \<Rightarrow> k a))"
  by (rule keeps_found) (auto simp: mncc_find_leg_not_released_def mncc_find_leg_def mbind_def mget_def mret_def get_leg_def
      dest!: find_callref_run split: sum.splits prod.splits option.splits if_splits)

lemma keeps_sip_found:
  "(\<And>a. keeps (insert (a, Some h) A) (k a)) \<Longrightarrow> keeps A n \<Longrightarrow> keeps A (mbind (sip_find_leg h) (\<lambda>p. case p of None \<Rightarrow> n | Some a \<Rightarrow> k a))"
  by (rule keeps_found) (auto simp: sip_find_leg_def mbind_def mget_def dest!: find_handle_run split: sum.splits prod.splits option.splits)

lemma keeps_on_leg:
  assumes "\<And>a. keeps (insert (a, None) A) (k a)"
  shows "keeps A (on_leg X buf rc k)"
proof (cases "rc < x_sizeof_mncc X")
  case True
  have "mbind (mthen m (mret None)) f = mthen m (f None)" for m :: "unit io" and f :: "addr option \<Rightarrow> unit io"
    by (rule ext) (simp add: mthen_def mbind_def mret_def split: sum.split prod.split)
  then show ?thesis unfolding on_leg_def find_leg_def using True
    by (simp add: keeps_then keeps_close keeps_release_depth keeps_reads)
next
  case False
  then show ?thesis unfolding on_leg_def find_leg_def using assms
    by simp (rule keeps_found, auto simp: mncc_find_leg_def mbind_def mget_def keeps_reads dest!: find_callref_run split: sum.splits prod.splits)
qed

lemmas keeps_all = keeps_rules keeps_conn_rules keeps_leg_rules keeps_release_depth keeps_sip_ops keeps_mncc_ops keeps_mncc_release

lemma keeps_pointer_calls:
  "keeps A (ring X a)" "keeps A (connect X a)" "keeps A (hold X a)" "keeps A (retrieve X a)" "keeps A (send_dtmf a k)"
  unfolding ring_def connect_def hold_def retrieve_def send_dtmf_def by (intro keeps_all)+

lemma keeps_with_cause: "keeps A (release_with_cause X p v)"
  unfolding release_with_cause_def by (intro keeps_all keeps_upd_leg) (simp add: leg_handle_def)

lemma keeps_new_sdp: "keeps A (new_sdp p)"
  unfolding new_sdp_def by (intro keeps_all keeps_upd_leg) (simp add: leg_handle_def)

lemma keeps_leg_send: "keeps A (leg_send X t a)"
  unfolding leg_send_def by (intro keeps_all)

lemma keeps_dtmf_rsp: "keeps A (dtmf_rsp X t d a)"
  unfolding dtmf_rsp_def by (intro keeps_all)

lemmas keeps_step = keeps_all keeps_pointer_calls keeps_with_cause keeps_new_sdp keeps_leg_send keeps_dtmf_rsp

lemma keeps_disc_ind: "keeps A (disc_ind X d a)"
  unfolding disc_ind_def by (intro keeps_step keeps_upd_leg) (simp add: leg_handle_def)

lemma keeps_rel_ind: "keeps (insert (a, None) A) (rel_ind X d a)"
  unfolding rel_ind_def by (intro keeps_step)

lemma keeps_rej_ind: "keeps (insert (a, None) A) (rej_ind X d a)"
  unfolding rej_ind_def by (intro keeps_step)

lemma keeps_leg_handlers:
  "keeps A (cnf_ind X d a)" "keeps A (alrt_ind X d a)" "keeps A (hold_ind X a)" "keeps A (retrieve_ind X a)"
  "keeps A (stp_cnf X d a)" "keeps A (dtmf_start X d a)"
  unfolding cnf_ind_def alrt_ind_def hold_ind_def retrieve_ind_def stp_cnf_def dtmf_start_def by (intro keeps_step)+

lemma keeps_handlers:
  "keeps A (check_disc_ind X buf rc)" "keeps A (check_rel_ind X buf rc)" "keeps A (check_rel_cnf X buf rc)"
  "keeps A (check_stp_cmpl_ind X buf rc)" "keeps A (check_rej_ind X buf rc)" "keeps A (check_cnf_ind X buf rc)"
  "keeps A (check_alrt_ind X buf rc)" "keeps A (check_hold_ind X buf rc)" "keeps A (check_retrieve_ind X buf rc)"
  "keeps A (check_stp_cnf X buf rc)" "keeps A (check_dtmf_start X buf rc)" "keeps A (check_dtmf_stop X buf rc)"
  unfolding check_disc_ind_def check_rel_ind_def check_rel_cnf_def check_stp_cmpl_ind_def check_rej_ind_def check_cnf_ind_def
    check_alrt_ind_def check_hold_ind_def check_retrieve_ind_def check_stp_cnf_def check_dtmf_start_def check_dtmf_stop_def
  by (intro keeps_on_leg keeps_disc_ind keeps_rel_ind keeps_rej_ind keeps_leg_handlers keeps_step)+

lemma keeps_rtp_connect_msg: "keeps A (check_rtp_connect X buf rc)"
  unfolding check_rtp_connect_def Let_def by (intro keeps_if keeps_mncc_found keeps_step)

text \<open>Every message but the four that start a call or a connection.\<close>

lemma keeps_mncc_data:
  assumes "4 < rc \<Longrightarrow> as_msg_type buf = MNCC_SOCKET_HELLO \<Longrightarrow> keeps A (check_hello X buf rc)"
    and "4 < rc \<Longrightarrow> as_msg_type buf = MNCC_SETUP_IND \<Longrightarrow> keeps A (check_setup X buf rc)"
    and "4 < rc \<Longrightarrow> as_msg_type buf = MNCC_RTP_CREATE \<Longrightarrow> keeps A (check_rtp_create X buf rc)"
  shows "keeps A (mncc_data X buf rc)"
  unfolding mncc_data_def Let_def
  by (intro keeps_if keeps_close keeps_release_depth keeps_handlers keeps_rtp_connect_msg keeps_reads) (use assms in simp_all)

section \<open>Events of the SIP stack\<close>

lemma keeps_not_acceptable: "keeps A (not_acceptable nh)"
  unfolding not_acceptable_def by (intro keeps_rules keeps_emit) simp

lemma keeps_not_acceptable_then:
  assumes "keeps (insert (a, None) (insert (a, Some nh) A)) n"
  shows "keeps (insert (a, Some nh) A) (mthen (not_acceptable nh) n)"
proof -
  have "mthen (not_acceptable nh) n = mthen (emit (Nua_respond (Some nh) 406 None None)) (mthen (emit (Nua_handle_destroy (Some nh))) n)"
    by (rule ext) (simp add: not_acceptable_def mthen_def mbind_def split: sum.split prod.split)
  then show ?thesis by (simp only:) (intro keeps_then keeps_destroy_then keeps_emit assms, simp)
qed

lemma keeps_progress: "keeps A (call_progress X a sip status)"
  unfolding call_progress_def by (intro keeps_step)

lemma keeps_call_connect: "keeps A (call_connect X a sip)"
  unfolding call_connect_def by (intro keeps_step keeps_emit keeps_upd_sip) simp_all

lemma keeps_update_rtp_of: "keeps A (update_rtp_of X a p)"
  unfolding update_rtp_of_def by (intro keeps_step keeps_update_rtp)

lemma keeps_reinvite: "keeps (insert (a, Some nh) A) (sip_handle_reinvite X a nh sip)"
  unfolding sip_handle_reinvite_def reinvite_media_def respond_sdp_def
  by (intro keeps_not_acceptable_then keeps_step keeps_update_rtp_of keeps_emit) simp_all

lemma keeps_r_invite: "keeps A (r_invite X status a sip)"
  unfolding r_invite_def by (intro keeps_step keeps_progress keeps_call_connect keeps_emit keeps_upd_sip) simp_all

lemma keeps_end_leg: "keeps A (end_leg a)"
  unfolding end_leg_def by (intro keeps_rules)

lemma keeps_peer_ends: "keeps A (peer_ends X a)"
  unfolding peer_ends_def by (intro keeps_step keeps_end_leg)

lemma keeps_i_ack: "keeps A (i_ack X nh sip)"
  unfolding i_ack_def by (intro keeps_sip_found keeps_reinvite keeps_step)

lemma keeps_nua_callback:
  assumes "\<And>m. event = nua_i_invite \<Longrightarrow> sip = Some m \<Longrightarrow> keeps A (new_call X nh m)"
  shows "keeps A (nua_callback X event status nh hmagic sip)"
proof (cases "event = nua_i_invite")
  case True
  have "keeps A (case sip of None \<Rightarrow> mfail Null_deref | Some m \<Rightarrow> if status \<noteq> 100 then mret ()
      else mbind (sip_find_leg nh) (\<lambda>p. case p of None \<Rightarrow> new_call X nh m | Some a \<Rightarrow> mthen (call_leg_rx_sdp a (sip_get_sdp sip)) (sip_handle_reinvite X a nh m)))"
    by (intro keeps_option keeps_if keeps_sip_found keeps_reinvite keeps_step) (use assms True in simp)
  moreover have "nua_callback X event status nh hmagic sip = (case sip of None \<Rightarrow> mfail Null_deref | Some m \<Rightarrow> if status \<noteq> 100 then mret ()
      else mbind (sip_find_leg nh) (\<lambda>p. case p of None \<Rightarrow> new_call X nh m | Some a \<Rightarrow> mthen (call_leg_rx_sdp a (sip_get_sdp sip)) (sip_handle_reinvite X a nh m)))"
    using True by (auto simp: nua_callback_def i_invite_def deref_sip_def mbind_def mfail_def mret_def fun_eq_iff split: option.split)
  ultimately show ?thesis by simp
next
  case False
  then show ?thesis unfolding nua_callback_def
    by (cases event) (auto intro!: keeps_bind keeps_reads keeps_r_invite keeps_i_ack keeps_end_leg keeps_peer_ends)
qed

end

end
