(* ===== verification/Handle_Binding.thy ===== *)
theory Handle_Binding
  imports Run_Relation Sip_Safety
begin

text \<open>
  Which leg the SIP stack knows under which handle. Sofia-SIP passes the pointer that was bound to a handle
  (\<open>nua_handle_bind\<close>, or \<open>nua_handle\<close> for a new handle) back with every event of that handle, until the handle is
  destroyed. The bindings are read off the sequence of requests made so far; the invariant is that
  a bound pointer is a living SIP leg with that handle, linked from its call: a leg is only freed after its handle
  was destroyed.
\<close>

section \<open>Bindings\<close>

fun bind_step :: "(addr \<Rightarrow> addr option) \<Rightarrow> action \<Rightarrow> addr \<Rightarrow> addr option" where
  "bind_step b (Nua_handle_bind (Some h) a) = b(h \<mapsto> a)"
| "bind_step b (Nua_handle_destroy (Some h)) = b(h := None)"
| "bind_step b _ = b"

definition bindings :: "world \<Rightarrow> addr \<Rightarrow> addr option" where
  "bindings w = foldl bind_step (\<lambda>_. None) (out w)"

definition handles_ok :: "world \<Rightarrow> bool" where
  "handles_ok w = (\<forall>h a. bindings w h = Some a \<longrightarrow> (\<exists>l x. legs w a = Some l \<and> leg_handle l = Some h
     \<and> calls w (leg_call l) = Some x \<and> (initial x = Some a \<or> remote x = Some a)))"

definition shrinks :: "world \<Rightarrow> world \<Rightarrow> bool" where
  "shrinks w w' = (\<forall>h a. bindings w' h = Some a \<longrightarrow> bindings w h = Some a)"

definition only_via :: "addr \<Rightarrow> addr option \<Rightarrow> world \<Rightarrow> bool" where
  "only_via a p w = (\<forall>h. bindings w h = Some a \<longrightarrow> p = Some h)"

lemma bindings_frame [simp]:
  "bindings (w\<lparr>legs := L\<rparr>) = bindings w" "bindings (w\<lparr>calls := C\<rparr>) = bindings w" "bindings (w\<lparr>timers := ts\<rparr>) = bindings w"
  "bindings (w\<lparr>conn := cn\<rparr>) = bindings w" "bindings (w\<lparr>allocs := bs\<rparr>) = bindings w" "bindings (w\<lparr>writes := ws\<rparr>) = bindings w"
  "bindings (w\<lparr>g_call_list := gl\<rparr>) = bindings w" "bindings (w\<lparr>next_addr := na\<rparr>) = bindings w"
  "bindings (w\<lparr>last_call_id := li\<rparr>) = bindings w" "bindings (w\<lparr>g_app := ga\<rparr>) = bindings w"
  by (simp_all add: bindings_def)

lemma bindings_out: "bindings (w\<lparr>out := out w @ [x]\<rparr>) = bind_step (bindings w) x"
  by (simp add: bindings_def)

lemma bindings_plain: "plain_action x \<Longrightarrow> bindings (w\<lparr>out := out w @ [x]\<rparr>) = bindings w"
  unfolding bindings_out by (cases x) auto

lemma bindings_destroy:
  "bindings (w\<lparr>out := out w @ [Nua_handle_destroy p]\<rparr>) = (case p of None \<Rightarrow> bindings w | Some h \<Rightarrow> (bindings w)(h := None))"
  by (simp add: bindings_out split: option.split)

lemma handles_ok_frame [simp]:
  "handles_ok (w\<lparr>timers := ts\<rparr>) = handles_ok w" "handles_ok (w\<lparr>conn := cn\<rparr>) = handles_ok w" "handles_ok (w\<lparr>allocs := bs\<rparr>) = handles_ok w"
  "handles_ok (w\<lparr>writes := ws\<rparr>) = handles_ok w" "handles_ok (w\<lparr>g_call_list := gl\<rparr>) = handles_ok w"
  "handles_ok (w\<lparr>next_addr := na\<rparr>) = handles_ok w" "handles_ok (w\<lparr>last_call_id := li\<rparr>) = handles_ok w" "handles_ok (w\<lparr>g_app := ga\<rparr>) = handles_ok w"
  by (simp_all add: handles_ok_def)

lemma handles_okE:
  assumes "handles_ok w" and "bindings w h = Some a"
  obtains l x where "legs w a = Some l" "leg_handle l = Some h" "calls w (leg_call l) = Some x" "initial x = Some a \<or> remote x = Some a"
  using assms unfolding handles_ok_def by blast

text \<open>A leg that no handle is bound to can be freed: no other leg goes with it.\<close>

lemma handles_ok_release:
  assumes ok: "handles_ok w" and free: "only_via a None w" and run: "call_leg_release a w = Inr ((), w')"
  shows "handles_ok w' \<and> shrinks w w'"
proof -
  obtain l x where l: "legs w a = Some l" "calls w (leg_call l) = Some x"
    using run by (auto simp: call_leg_release_def mbind_def get_leg_def get_call_def split: option.splits)
  define c where "c = leg_call l"
  define x' where "x' = (if initial x = Some a then x\<lparr>initial := None\<rparr> else x\<lparr>remote := None\<rparr>)"
  let ?last = "initial x' = None \<and> remote x' = None"
  have same: "w' = w" if "initial x \<noteq> Some a" "remote x \<noteq> Some a"
    using run l that by (auto simp: call_leg_release_def get_leg_def get_call_def monad_defs)
  have gone: "legs w' = (if ?last then legs_without c ((legs w)(a := None)) else (legs w)(a := None))
      \<and> calls w' = (if ?last then (calls w)(c := None) else (calls w)(c \<mapsto> x')) \<and> out w' = out w"
    if "initial x = Some a \<or> remote x = Some a"
    using run l that by (auto simp: call_leg_release_def call_leg_free_def talloc_free_leg_def talloc_free_call_def llist_del_def
        get_leg_def get_call_def upd_call_def monad_defs x'_def c_def split: if_splits)
  have "out w' = out w" using same gone by blast
  then have b: "bindings w' = bindings w" by (simp add: bindings_def)
  have "handles_ok w'" unfolding handles_ok_def
  proof (intro allI impI)
    fix h b
    assume hb: "bindings w' h = Some b"
    then have ne: "b \<noteq> a" using free b by (auto simp: only_via_def)
    from hb b obtain k y where k: "legs w b = Some k" "leg_handle k = Some h" "calls w (leg_call k) = Some y"
        "initial y = Some b \<or> remote y = Some b" using handles_okE [OF ok] by metis
    show "\<exists>k y. legs w' b = Some k \<and> leg_handle k = Some h \<and> calls w' (leg_call k) = Some y \<and> (initial y = Some b \<or> remote y = Some b)"
    proof (cases "initial x = Some a \<or> remote x = Some a")
      case True
      show ?thesis
      proof (cases "leg_call k = c")
        case same_call: True
        then have "y = x" using k(3) l(2) by (simp add: c_def)
        then have "initial x' = Some b \<or> remote x' = Some b" using k(4) ne True by (auto simp: x'_def)
        then show ?thesis using gone [OF True] k ne same_call by auto
      next
        case False
        then show ?thesis using gone [OF True] k ne by (auto simp: legs_without_def)
      qed
    next
      case False
      then show ?thesis using same k by auto
    qed
  qed
  with b show ?thesis by (simp add: shrinks_def)
qed

interpretation handles: run_relation handles_ok shrinks only_via
proof
  fix w w' u v :: world and a c p l l' x x' ts bs ws act h
  show "shrinks w w" by (simp add: shrinks_def)
  show "shrinks u v \<Longrightarrow> shrinks v w \<Longrightarrow> shrinks u w" by (simp add: shrinks_def)
  show "handles_ok w \<Longrightarrow> shrinks w w' \<Longrightarrow> only_via a p w \<Longrightarrow> only_via a p w'" by (auto simp: shrinks_def only_via_def)
  show "handles_ok w \<Longrightarrow> legs w a = Some l \<Longrightarrow> only_via a (leg_handle l) w" by (fastforce simp: only_via_def handles_ok_def)
  show "handles_ok (w\<lparr>legs := (legs w)(a \<mapsto> l')\<rparr>) \<and> shrinks w (w\<lparr>legs := (legs w)(a \<mapsto> l')\<rparr>)"
    if "handles_ok w" "legs w a = Some l" "leg_handle l' = leg_handle l" "leg_call l' = leg_call l"
    using that by (fastforce simp: handles_ok_def shrinks_def)
  show "handles_ok (w\<lparr>calls := (calls w)(c \<mapsto> x')\<rparr>) \<and> shrinks w (w\<lparr>calls := (calls w)(c \<mapsto> x')\<rparr>)"
    if "handles_ok w" "calls w c = Some x" "initial x' = initial x" "remote x' = remote x"
    using that by (fastforce simp: handles_ok_def shrinks_def)
  show "handles_ok w \<Longrightarrow> handles_ok (w\<lparr>timers := ts\<rparr>) \<and> shrinks w (w\<lparr>timers := ts\<rparr>)" by (simp add: shrinks_def)
  show "handles_ok w \<Longrightarrow> handles_ok (w\<lparr>allocs := bs\<rparr>) \<and> shrinks w (w\<lparr>allocs := bs\<rparr>)" by (simp add: shrinks_def)
  show "handles_ok w \<Longrightarrow> handles_ok (w\<lparr>writes := ws\<rparr>) \<and> shrinks w (w\<lparr>writes := ws\<rparr>)" by (simp add: shrinks_def)
  show "handles_ok w \<Longrightarrow> plain_action act \<Longrightarrow> handles_ok (w\<lparr>out := out w @ [act]\<rparr>) \<and> shrinks w (w\<lparr>out := out w @ [act]\<rparr>)"
    by (simp add: handles_ok_def shrinks_def bindings_plain)
  show "handles_ok w \<Longrightarrow> handles_ok (w\<lparr>out := out w @ [Nua_handle_destroy p]\<rparr>) \<and> shrinks w (w\<lparr>out := out w @ [Nua_handle_destroy p]\<rparr>)"
    by (auto simp: handles_ok_def shrinks_def bindings_destroy split: option.splits)
  show "handles_ok w \<Longrightarrow> only_via a p w \<Longrightarrow> only_via a None (w\<lparr>out := out w @ [Nua_handle_destroy p]\<rparr>)"
    by (auto simp: only_via_def bindings_destroy split: option.splits)
  show "handles_ok w \<Longrightarrow> handles_ok (w\<lparr>conn := (conn w)\<lparr>conn_fd := -1, reconnect_pending := True, conn_state := MNCC_DISCONNECTED\<rparr>\<rparr>)
      \<and> shrinks w (w\<lparr>conn := (conn w)\<lparr>conn_fd := -1, reconnect_pending := True, conn_state := MNCC_DISCONNECTED\<rparr>\<rparr>)"
    by (simp add: shrinks_def)
  show "handles_ok w \<Longrightarrow> only_via a None w \<Longrightarrow> call_leg_release a w = Inr ((), w') \<Longrightarrow> handles_ok w' \<and> shrinks w w'"
    by (rule handles_ok_release)
qed

section \<open>With the safety of the run\<close>

text \<open>A run known to end keeps the handles as well.\<close>

lemma wp_handles:
  assumes "wp m Q w" and "handles.keeps {} m" and "handles_ok w"
  shows "wp m (\<lambda>x v. Q x v \<and> handles_ok v) w"
  using assms upholdsD(1) [of handles_ok shrinks only_via "{}" m w] by (auto simp: wp_iff_run)

lemma last_handles:
  assumes "wp m Q w" and "handles.keeps {} m" and "handles_ok w"
  shows "wp m (\<lambda>_. handles_ok) w"
  by (rule wp_mono [OF wp_handles [OF assms]]) blast

lemma then_handles:
  assumes "wp m (\<lambda>_. P) w" and "handles.keeps {} m" and "handles_ok w" and "\<And>v. P v \<Longrightarrow> handles_ok v \<Longrightarrow> wp n Q v"
  shows "wp (mthen m n) Q w"
  unfolding wp_mthen by (rule wp_mono [OF wp_handles [OF assms(1-3)]]) (use assms(4) in blast)

text \<open>Only the calls, the legs' calls and handles, and the bindings matter.\<close>

lemma handles_ok_extend:
  assumes "handles_ok w" and "\<And>h b. bindings v h = Some b \<Longrightarrow> bindings w h = Some b \<or>
      (\<exists>l x. legs v b = Some l \<and> leg_handle l = Some h \<and> calls v (leg_call l) = Some x \<and> (initial x = Some b \<or> remote x = Some b))"
    and "\<And>b l. legs w b = Some l \<Longrightarrow> \<exists>l'. legs v b = Some l' \<and> leg_handle l' = leg_handle l \<and> leg_call l' = leg_call l"
    and "\<And>d x. calls w d = Some x \<Longrightarrow> \<exists>x'. calls v d = Some x' \<and> initial x' = initial x \<and> (remote x' = remote x \<or> remote x = None)"
  shows "handles_ok v"
  unfolding handles_ok_def
proof (intro allI impI)
  fix h b
  assume b: "bindings v h = Some b"
  show "\<exists>l x. legs v b = Some l \<and> leg_handle l = Some h \<and> calls v (leg_call l) = Some x \<and> (initial x = Some b \<or> remote x = Some b)"
  proof (cases "bindings w h = Some b")
    case True
    obtain l x where l: "legs w b = Some l" "leg_handle l = Some h" "calls w (leg_call l) = Some x" "initial x = Some b \<or> remote x = Some b"
      by (rule handles_okE [OF assms(1) True])
    show ?thesis using assms(3) [OF l(1)] assms(4) [OF l(3)] l(2,4) by force
  next
    case False
    then show ?thesis using assms(2) [OF b] by blast
  qed
qed

section \<open>Operations that create legs\<close>

lemma keeps_release_initial: "handles.keeps {} (release_initial X c)"
  unfolding release_initial_def by (intro handles.keeps_step)

lemma handles_ok_linked:
  assumes h: "handles_ok w" and r: "routable w c i" and x: "calls w c = Some x" and li: "legs w i = Some li" "ident li' = ident li"
    and k: "leg_call k = c"
    and b: "bindings v = (case leg_handle k of None \<Rightarrow> bindings w | Some g \<Rightarrow> (bindings w)(g \<mapsto> next_addr w))"
    and v: "legs v = (legs w)(next_addr w \<mapsto> k, i \<mapsto> li')" "calls v = (calls w)(c \<mapsto> x\<lparr>remote := Some (next_addr w)\<rparr>)"
  shows "handles_ok v"
proof (rule handles_ok_extend [OF h])
  have s: "safe w" "remote x = None" using r x by (auto elim!: routableE)
  have fr: "legs w (next_addr w) = None" using fresh_not_allocated(1) [OF safeD(3) [OF s(1)]] by simp
  then have ne: "i \<noteq> next_addr w" using li(1) by auto
  show "\<exists>l'. legs v b = Some l' \<and> leg_handle l' = leg_handle l \<and> leg_call l' = leg_call l" if "legs w b = Some l" for b l
    using that fr li v(1) ident_eqD(2,5) [OF li(2)] by auto
  show "\<exists>x'. calls v d = Some x' \<and> initial x' = initial y \<and> (remote x' = remote y \<or> remote y = None)" if "calls w d = Some y" for d y
    using that x s(2) v(2) by auto
  show "bindings w g = Some d \<or> (\<exists>l x. legs v d = Some l \<and> leg_handle l = Some g \<and> calls v (leg_call l) = Some x \<and> (initial x = Some d \<or> remote x = Some d))"
    if "bindings v g = Some d" for g d
    using that b v k ne by (auto split: option.splits if_splits)
qed

lemma initial_fails_handles:
  assumes "routable w c i" and "handles_ok w" and "rc \<noteq> 0"
  shows "wp (mwhen (rc \<noteq> 0) (release_initial X c)) (\<lambda>_. handles_ok) w"
  using last_handles [OF release_initial_safe [OF assms(1)] keeps_release_initial assms(2)] assms(3) by (simp add: mwhen_def)

lemma route_to_sip_handles:
  assumes h: "handles_ok w" and r: "routable w c i" and x: "calls w c = Some x" "source x = Some s1" "str_owner s1 = i"
      "dest x = Some s2" "str_owner s2 = i" and li: "legs w i = Some li"
  shows "wp (route_to_sip X c) (\<lambda>_. handles_ok) w"
proof -
  have s: "safe w" "initial x = Some i" using r x by (auto elim!: routableE)
  note fr = fresh_not_allocated(1) [OF safeD(3) [OF s(1)]]
  then have ne: "i \<noteq> next_addr w" using li by fastforce
  have "wp (sip_create_remote_leg X c) (\<lambda>rc. wp (mwhen (rc \<noteq> 0) (release_initial X c)) (\<lambda>_. handles_ok)) w"
  proof (rule sip_create_remote_result [OF x(1) s(2) li x(2) _ x(4)])
    fix rc :: int and na bs assume "rc < 0" and na: "next_addr w \<le> na"
    have "routable (w\<lparr>next_addr := na, allocs := bs\<rparr>) c i"
      using routable_upd [OF r li refl na, of bs] li by (simp add: fun_upd_idem)
    then show "wp (mwhen (rc \<noteq> 0) (release_initial X c)) (\<lambda>_. handles_ok) (w\<lparr>next_addr := na, allocs := bs\<rparr>)"
      by (rule initial_fails_handles) (use h \<open>rc < 0\<close> in simp_all)
  next
    fix codec bs g
    let ?k = "invited_leg c (Suc (next_addr w)) codec"
    have k: "leg_handle ?k = Some (Suc (next_addr w))" "leg_call ?k = c"
      using ident_invited_leg [of c "Suc (next_addr w)" codec] by (simp_all add: ident_def sip_identity_def)
    have "(legs w)(next_addr w \<mapsto> ?k) = (legs w)(next_addr w \<mapsto> ?k, i \<mapsto> li)" using ne li by (auto simp: fun_eq_iff)
    then show "wp (mwhen (0 \<noteq> 0) (release_initial X c)) (\<lambda>_. handles_ok)
        (w\<lparr>legs := (legs w)(next_addr w \<mapsto> ?k), calls := (calls w)(c \<mapsto> x\<lparr>remote := Some (next_addr w)\<rparr>),
        next_addr := Suc (Suc (next_addr w)), allocs := bs, out := out w @ [Nua_handle_bind (Some (Suc (next_addr w))) (next_addr w),
          Nua_invite (Some (Suc (next_addr w)))
            (Some (sip_uri (str_val s1) (sip_local_addr (g_app w)) (sip_local_port (g_app w))))
            (Some (sip_uri (str_val s2) (sip_remote_addr (g_app w)) (sip_remote_port (g_app w))))
            g (sdp_towards_sip X li sdp_sendrecv)]\<rparr>)"
      using handles_ok_linked [OF h r x(1) li refl k(2)] k(1) by (simp add: mwhen_def wp_mret bindings_def)
  qed (use x li fr in simp_all)
  then show ?thesis by (simp add: route_to_sip_def wp_mbind)
qed

lemma route_to_mncc_handles:
  assumes h: "handles_ok w" and r: "routable w c i" and x: "calls w c = Some x" "source x = Some s1" "str_owner s1 = i"
      "dest x = Some s2" "str_owner s2 = i" and li: "legs w i = Some li"
  shows "wp (route_to_mncc X c) (\<lambda>_. handles_ok) w"
proof -
  have s: "safe w" "initial x = Some i" using r x by (auto elim!: routableE)
  note fr = fresh_not_allocated(1) [OF safeD(3) [OF s(1)]]
  have "wp (mncc_create_remote_leg X c) (\<lambda>rc. wp (mwhen (rc \<noteq> 0) (release_initial X c)) (\<lambda>_. handles_ok)) w"
  proof (rule mncc_create_remote_result [OF x(1) s(2) li x(2) _ x(4) _ fr safeD(5) [OF s(1)]])
    fix f na bs assume na: "next_addr w \<le> na"
    let ?v = "w\<lparr>legs := (legs w)(i \<mapsto> li\<lparr>rx_sdp_changed := f\<rparr>), next_addr := na, allocs := bs\<rparr>"
    have "routable ?v c i" by (rule routable_upd [OF r li _ na]) simp
    moreover have "handles_ok ?v" using handles.step_leg [OF h li, of "li\<lparr>rx_sdp_changed := f\<rparr>"] by (simp add: leg_handle_def)
    ultimately show "wp (mwhen (- 1 \<noteq> (0::int)) (release_initial X c)) (\<lambda>_. handles_ok) ?v" by (rule initial_fails_handles) simp
  next
    fix m bs
    have k: "leg_handle (setup_leg c (call_id x)) = None" "leg_call (setup_leg c (call_id x)) = c"
      using ident_setup_leg [of c "call_id x"] by (simp_all add: ident_def mncc_identity_def)
    show "wp (mwhen (0 \<noteq> (0::int)) (release_initial X c)) (\<lambda>_. handles_ok)
       (w\<lparr>legs := (legs w)(next_addr w \<mapsto> setup_leg c (call_id x), i \<mapsto> li\<lparr>rx_sdp_changed := False\<rparr>),
          calls := (calls w)(c \<mapsto> x\<lparr>remote := Some (next_addr w)\<rparr>),
          next_addr := Suc (next_addr w), allocs := bs, out := out w @ [Tx_mncc m]\<rparr>)"
      using handles_ok_linked [OF h r x(1) li, of "li\<lparr>rx_sdp_changed := False\<rparr>" "setup_leg c (call_id x)"] k
      by (simp add: mwhen_def wp_mret bindings_def)
  qed (use x li in simp_all)
  then show ?thesis by (simp add: route_to_mncc_def wp_mbind)
qed

lemma app_route_call_handles:
  assumes h: "handles_ok w" and r: "routable w c i" and s: "\<And>s. src = Some s \<Longrightarrow> str_owner s = i" "\<And>s. dst = Some s \<Longrightarrow> str_owner s = i"
  shows "wp (app_route_call X c src dst) (\<lambda>_. handles_ok) w"
proof (cases "src = None \<or> dst = None")
  case True
  then show ?thesis using last_handles [OF release_initial_safe [OF r] keeps_release_initial h] by (simp add: app_route_call_def)
next
  case False
  obtain x l where x: "calls w c = Some x" "initial x = Some i" "legs w i = Some l" using routableE [OF r] by blast
  let ?x = "x\<lparr>source := src, dest := dst\<rparr>" and ?v = "w\<lparr>calls := (calls w)(c \<mapsto> x\<lparr>source := src, dest := dst\<rparr>)\<rparr>"
  have rv: "routable ?v c i" by (rule routable_call [OF r x(1)]) simp_all
  have hv: "handles_ok ?v" using handles.step_call [OF h x(1), of ?x] by simp
  obtain s1 s2 where s12: "src = Some s1" "dst = Some s2" "str_owner s1 = i" "str_owner s2 = i" using False s by auto
  have "wp (route_to_sip X c) (\<lambda>_. handles_ok) ?v"
    by (rule route_to_sip_handles [OF hv rv _ _ s12(3) _ s12(4), of ?x l]) (use x s12 in simp_all)
  moreover have "wp (route_to_mncc X c) (\<lambda>_. handles_ok) ?v"
    by (rule route_to_mncc_handles [OF hv rv _ _ s12(3) _ s12(4), of ?x l]) (use x s12 in simp_all)
  ultimately show ?thesis using False s12(1,2) x by (simp add: app_route_call_def wp)
qed

section \<open>Calls from the mobile network\<close>

lemma handles_ok_new_call:
  assumes "handles_ok w" and "wf_heap w" and "leg_call l = next_addr w" and "initial x = Some (Suc (next_addr w))"
    and "\<And>h b. bindings v h = Some b \<Longrightarrow> bindings w h = Some b \<or> b = Suc (next_addr w) \<and> leg_handle l = Some h"
    and "legs v = (legs w)(Suc (next_addr w) \<mapsto> l)" and "calls v = (calls w)(next_addr w \<mapsto> x)"
  shows "handles_ok v"
  by (rule handles_ok_extend [OF assms(1)]) (use assms fresh_not_allocated [OF assms(2)] in fastforce)+

lemma setup_call_handles:
  assumes c: "connected w" and h: "handles_ok w"
  shows "wp (setup_call X m num g) (\<lambda>_. handles_ok) w"
proof (rule setup_call_result [OF c])
  show "handles_ok (w\<lparr>last_call_id := i, next_addr := na, allocs := bs, out := out w @ [Tx_mncc y]\<rparr>)" for i na bs y
    using handles.step_out [OF h, of "Tx_mncc y"] by (simp add: handles_ok_def bindings_def)
  have "leg_call (mo_leg (next_addr w) m num) = next_addr w"
    using ident_mo_leg [of "next_addr w" m num] by (simp add: ident_def mncc_identity_def)
  then show "handles_ok (w\<lparr>legs := (legs w)(Suc (next_addr w) \<mapsto> mo_leg (next_addr w) m num),
        calls := (calls w)(next_addr w \<mapsto> mo_call (last_call_id w + 1) (Suc (next_addr w)) g),
        g_call_list := next_addr w # g_call_list w, last_call_id := last_call_id w + 1,
        next_addr := Suc (Suc (next_addr w)), timers := Suc (next_addr w) # removeAll (Suc (next_addr w)) (timers w),
        allocs := bs, out := out w @ [Tx_rtp y]\<rparr>)" for bs y
    by (rule handles_ok_new_call [OF h heap_invD(1) [OF connectedD(3) [OF c]]])
       (simp_all add: bindings_def mo_call_def created_call_def split: option.split)
qed

lemma keeps_setup_reject: "handles.keeps {} (setup_reject X m)"
  unfolding setup_reject_def by (intro handles.keeps_step)

lemma check_setup_handles:
  assumes c: "connected w" and h: "handles_ok w"
  shows "wp (check_setup X buf rc) (\<lambda>_. handles_ok) w"
proof -
  have s: "safe w" using c by (simp add: connected_safe)
  have "wp (close_connection (release X)) (\<lambda>_. handles_ok) w"
    by (rule last_handles [OF close_connection_safe [OF s] _ h]) (intro handles.keeps_close handles.keeps_release_depth)
  moreover have "wp (setup_reject X m) (\<lambda>_. handles_ok) w" for m
    by (rule last_handles [OF setup_reject_safe [OF c] keeps_setup_reject h])
  ultimately show ?thesis using setup_call_handles [OF c h] by (simp add: check_setup_def Let_def split: option.split)
qed

lemma continue_mo_call_handles:
  assumes c: "connected w" and m: "mncc_at w a True None" and h: "handles_ok w"
  shows "wp (continue_mo_call X a) (\<lambda>_. handles_ok) w"
proof -
  obtain l ml where l: "legs w a = Some l" "leg_object l = Mncc_object ml"
    using mncc_leg_atE [OF mncc_leg_atI [OF m] c] by blast
  let ?l = "l\<lparr>leg_object := Mncc_object (ml\<lparr>mncc_state := MNCC_CC_PROCEEDING\<rparr>)\<rparr>"
  let ?v = "\<lambda>bs. w\<lparr>legs := (legs w)(a \<mapsto> ?l), allocs := bs,
     out := out w @ [Tx_mncc (zero_mncc\<lparr>mncc_msg_type := MNCC_CALL_PROC_REQ, mncc_callref := callref ml\<rparr>)]\<rparr>"
  have i: "ident ?l = ident l" using l(2) by simp
  have hv: "handles_ok (?v bs)" for bs
    using handles.step_leg [OF h l(1), of ?l] l(2) by (simp add: handles_ok_def bindings_def leg_handle_def)
  have "wp (app_route_call X (leg_call l) s d) (\<lambda>_. handles_ok) (?v bs)"
    if s: "\<And>t. s = Some t \<Longrightarrow> str_owner t = a" "\<And>t. d = Some t \<Longrightarrow> str_owner t = a" for s d bs
  proof -
    have "shape (?v bs) = shape w" using l i by simp
    then have "mncc_at (?v bs) a True None" using mncc_at_shape m by blast
    moreover have "connected (?v bs)" using connected_upd [OF c l(1) i] by simp
    ultimately have "routable (?v bs) (leg_call l) a" using mncc_at_routable [of "?v bs" a] by auto
    from app_route_call_handles [OF hv this] s show ?thesis by blast
  qed
  note go = this [simplified] this [where bs = "allocs w", simplified]
  show ?thesis
    using l connectedD(2) [OF c]
    by (auto simp: continue_mo_call_def talloc_str_def wp wp_mncc_send_plain split: list.splits intro!: go)
qed

lemma keeps_continue_mt: "handles.keeps {} (continue_mt_call a)"
  unfolding continue_mt_call_def by (intro handles.keeps_step handles.keeps_upd_leg) (simp add: leg_handle_def)

lemma continue_call_handles:
  assumes c: "connected w" and m: "mncc_at w a mo p" and mo: "mo \<longrightarrow> p = None" and h: "handles_ok w"
  shows "wp (continue_call X a) (\<lambda>_. handles_ok) w"
proof -
  obtain l ml where l: "legs w a = Some l" "leg_object l = Mncc_object ml" "leg_mo l = mo"
    using mncc_atE [OF m connectedD(3) [OF c]] by blast
  have eq: "wp (continue_call X a) Q w = wp (if mo then continue_mo_call X a else continue_mt_call a) Q w" for Q
    using l by (simp add: continue_call_def wp_mbind wp_get_mncc leg_mo_def)
  show ?thesis
  proof (cases mo)
    case True
    then show ?thesis using continue_mo_call_handles [OF c _ h, of a X] m mo by (simp add: eq)
  next
    case False
    then have "wp (continue_mt_call a) (\<lambda>_. safe) w" using continue_call_safe [OF c m mo, of X] by (simp add: eq)
    from last_handles [OF this keeps_continue_mt h] show ?thesis using False by (simp add: eq)
  qed
qed

lemma check_rtp_create_handles:
  assumes c: "connected w" and h: "handles_ok w"
    and ok: "\<And>a p. lookup_callref w (rtp_callref (as_rtp buf)) (g_call_list w) = Some a \<Longrightarrow> mncc_at w a True p \<Longrightarrow> p = None"
  shows "wp (check_rtp_create X buf rc) (\<lambda>_. handles_ok) w"
proof -
  let ?r = "rtp_callref (as_rtp buf)"
  have cl: "wp (close_connection (release X)) (\<lambda>_. handles_ok) w"
    by (rule last_handles [OF close_connection_safe _ h])
       (use c in \<open>simp_all add: connected_safe handles.keeps_close handles.keeps_release_depth\<close>)
  have rej: "wp (mthen (mncc_send X (release X) MNCC_REJ_REQ ?r) (mret ())) (\<lambda>_. handles_ok) w"
    by (rule then_handles [OF reject.quiet [OF c TrueI] _ h]) (auto simp: wp_mret_fun intro!: handles.keeps_step)
  have k: "wp (mthen (upd_leg a (\<lambda>l. l\<lparr>leg_addr := rtp_addr (as_rtp buf), payload_type := rtp_payload_type (as_rtp buf),
               payload_msg_type := rtp_payload_msg_type (as_rtp buf)\<rparr>))
           (mthen (call_leg_rx_sdp a (Some (rtp_sdp (as_rtp buf))))
           (mthen (stop_cmd_timer a MNCC_RTP_CREATE) (continue_call X a)))) (\<lambda>_. handles_ok) w"
    if a: "lookup_callref w ?r (g_call_list w) = Some a" for a
  proof -
    obtain mo p where m: "mncc_at w a mo p" using lookup_mncc_at [OF c a] by blast
    then have mo: "mo \<longrightarrow> p = None" using ok [OF a] by (cases mo) auto
    have go: "wp (continue_call X a) (\<lambda>_. handles_ok) v" if "connected v" "shape v = shape w" "handles_ok v" for v
      by (rule continue_call_handles [OF that(1) mncc_at_shape [OF that(2) m] mo that(3)])
    have stop: "wp (mthen (stop_cmd_timer a MNCC_RTP_CREATE) (continue_call X a)) (\<lambda>_. handles_ok) v"
      if v: "connected v \<and> shape v = shape w" "handles_ok v" for v
      by (rule then_handles [OF stop_timer.quiet _ v(2)])
         (use v shape_mncc_leg_at m go in \<open>auto intro!: handles.keeps_step\<close>)
    have sdp: "wp (mthen (call_leg_rx_sdp a s) (mthen (stop_cmd_timer a MNCC_RTP_CREATE) (continue_call X a))) (\<lambda>_. handles_ok) v"
      if v: "connected v \<and> shape v = shape w" "handles_ok v" for v s
      by (rule then_handles [OF rx.quiet _ v(2)])
         (use v stop shape_live mncc_at_live [OF m] in \<open>auto intro!: handles.keeps_step\<close>)
    show ?thesis
      by (rule then_handles [OF set_rtp.quiet [OF c mncc_at_live [OF m]] _ h sdp])
         (auto intro!: handles.keeps_upd_leg simp: leg_handle_def)
  qed
  show ?thesis unfolding check_rtp_create_def Let_def
    using cl rej k by (auto simp: wp_mbind [of "mncc_find_leg_not_released _"] wp_find_not_released [OF c] split: option.splits)
qed

section \<open>Calls from SIP\<close>

lemma bindings_refusal: "bindings (w\<lparr>out := out w @ refusal nh\<rparr>) = (bindings w)(nh := None)"
  by (simp add: bindings_def)

lemma bindings_incoming: "bindings (incoming w x l bs os) = bindings (w\<lparr>out := out w @ os\<rparr>)"
  by (simp add: bindings_def)

lemma handles_ok_incoming:
  assumes s: "safe w" and h: "handles_ok w" and x: "initial x = Some (Suc (next_addr w))"
  shows "ident l = bare_identity (next_addr w) \<Longrightarrow> handles_ok (incoming w x l bs (refusal nh))"
    and "ident l = sip_identity (next_addr w) True nh \<Longrightarrow> handles_ok (incoming w x l bs [Nua_handle_bind (Some nh) (Suc (next_addr w))])"
  by (rule handles_ok_new_call [OF h safeD(3) [OF s] _ x];
      auto simp: bindings_incoming bindings_refusal bindings_out ident_def bare_identity_def sip_identity_def split: if_splits)+

lemma new_call_handles:
  assumes s: "safe w" and al: "two_allocs w" and h: "handles_ok w"
  shows "wp (new_call X nh sip) (\<lambda>_. handles_ok) w"
proof (rule new_call_runs [OF safeD(3) [OF s] al refl refl])
  show "handles_ok (w\<lparr>out := out w @ refusal nh\<rparr>)" using h by (simp add: handles_ok_def bindings_refusal)
next
  fix x :: call and l bs src dst
  assume x: "initial x = Some (Suc (next_addr w))" "remote x = None"
  let ?v = "incoming w x l bs (refusal nh)" and ?a = "Suc (next_addr w)"
  show i: "handles_ok ?v" if "ident l = bare_identity (next_addr w)" by (rule handles_ok_incoming(1) [OF s h x(1) that])
  show "wp (call_leg_release ?a) (\<lambda>_. handles_ok) ?v" if l: "ident l = bare_identity (next_addr w)"
  proof -
    have "\<not> is_mncc l" and lh: "leg_handle l = None" using l by (simp_all add: ident_def bare_identity_def)
    then obtain w' where r: "call_leg_release ?a ?v = Inr ((), w')"
      using sip_drop [OF safe_incoming [OF s x], of l nh bs "refusal nh" ?a l] l by (auto simp: wp_iff_run)
    have "only_via ?a None ?v" using handles.F_handle [OF i [OF l], of ?a l] lh by simp
    from handles_ok_release [OF i [OF l] this r] r show ?thesis by (simp add: wp_iff_run)
  qed
  show "wp (app_route_call X (next_addr w) src dst) (\<lambda>_. handles_ok) (incoming w x l bs [Nua_handle_bind (Some nh) ?a])"
    if "ident l = sip_identity (next_addr w) True nh" "\<And>s. src = Some s \<Longrightarrow> str_owner s = ?a" "\<And>s. dst = Some s \<Longrightarrow> str_owner s = ?a"
    by (rule app_route_call_handles [OF handles_ok_incoming(2) [OF s h x(1) that(1)] routable_incoming [OF s x that(1)]]) (use that in auto)
qed

section \<open>Every message and event\<close>

text \<open>
  The promise of the SIP stack, in the terms of its documentation: with an event of a handle comes the
  pointer bound to that handle; the events of a dialogue come on handles that are bound and not destroyed; answers
  that carry a dialogue forward, requests and acknowledgements come with a message. Also, there is memory
  for a new call.
\<close>

definition nua_conforms :: "world \<Rightarrow> nua_event \<Rightarrow> int \<Rightarrow> addr \<Rightarrow> addr option \<Rightarrow> sip_msg option \<Rightarrow> bool" where
  "nua_conforms w event status nh hmagic sip = (hmagic = bindings w nh
      \<and> (event \<in> {nua_r_invite, nua_r_bye, nua_r_cancel, nua_i_bye, nua_i_cancel} \<longrightarrow> bindings w nh \<noteq> None)
      \<and> (event = nua_r_invite \<and> status \<in> {180, 183, 200} \<longrightarrow> sip \<noteq> None)
      \<and> (event \<in> {nua_i_ack, nua_i_invite} \<longrightarrow> sip \<noteq> None)
      \<and> (event = nua_i_invite \<longrightarrow> two_allocs w))"

text \<open>So the leg it hands over is alive, a SIP leg, and has that handle.\<close>

lemma nua_conforms_leg:
  assumes "handles_ok w" and "nua_conforms w event status nh hmagic sip"
  shows "stack_conforms w event status hmagic sip"
proof -
  have leg: "\<exists>l. legs w a = Some l \<and> \<not> is_mncc l \<and> leg_handle l \<noteq> None" if b: "bindings w nh = Some a" for a
  proof -
    obtain l where l: "legs w a = Some l" "leg_handle l = Some nh" using handles_okE [OF assms(1) b] by blast
    then show ?thesis by (cases "leg_object l") (simp_all add: is_mncc_def leg_handle_def)
  qed
  show ?thesis
    using assms(2) leg unfolding nua_conforms_def stack_conforms_def by (metis not_None_eq)
qed

lemma check_hello_handles:
  assumes "safe w" and "handles_ok w"
  shows "wp (check_hello X buf rc) (\<lambda>_. handles_ok) w"
proof -
  have "wp (close_connection (release X)) (\<lambda>_. handles_ok) w"
    by (rule last_handles [OF close_connection_safe [OF assms(1)] _ assms(2)]) (intro handles.keeps_close handles.keeps_release_depth)
  then show ?thesis using assms(2) by (simp add: check_hello_def wp_mmod)
qed

lemma mncc_data_handles:
  assumes c: "connected w" and ok: "msc_conforms w buf" and h: "handles_ok w"
  shows "wp (mncc_data X buf rc) (\<lambda>_. handles_ok) w"
proof (cases "4 < rc \<and> as_msg_type buf \<in> {MNCC_SOCKET_HELLO, MNCC_SETUP_IND, MNCC_RTP_CREATE}")
  case True
  have s: "safe w" using c by (simp add: connected_safe)
  have rtp: "wp (check_rtp_create X buf rc) (\<lambda>_. handles_ok) w" if "as_msg_type buf = MNCC_RTP_CREATE"
    by (rule check_rtp_create_handles [OF c h]) (use ok that in \<open>unfold msc_conforms_def, blast\<close>)
  from True show ?thesis using check_hello_handles [OF s h] check_setup_handles [OF c h] rtp
    by (auto simp: mncc_data_def Let_def)
next
  case False
  then have "handles.keeps {} (mncc_data X buf rc)" by (intro handles.keeps_mncc_data) simp_all
  from last_handles [OF mncc_data_safe [OF c ok] this h] show ?thesis .
qed

lemma nua_callback_handles:
  assumes s: "safe w" and h: "handles_ok w" and ok: "stack_conforms w event status hmagic sip"
  shows "wp (nua_callback X event status nh hmagic sip) (\<lambda>_. handles_ok) w"
proof (cases "event = nua_i_invite \<and> status = 100 \<and> lookup_handle w nh (g_call_list w) = None")
  case True
  then obtain m where "sip = Some m" "two_allocs w" using ok by (auto simp: stack_conforms_def)
  then show ?thesis using True new_call_handles [OF s _ h, of X nh m]
    by (simp add: nua_callback_def i_invite_def deref_sip_def wp_mbind wp_mret wp_sip_find_leg safeD(2) [OF s])
next
  case False
  note run = nua_callback_safe [OF s ok, of X nh]
  show ?thesis
  proof (cases "event = nua_i_invite")
    case True
    then obtain m where m: "sip = Some m" using ok by (auto simp: stack_conforms_def)
    let ?change = "mbind (sip_find_leg nh) (\<lambda>p. case p of None \<Rightarrow> mret ()
       | Some a \<Rightarrow> mthen (call_leg_rx_sdp a (sip_get_sdp sip)) (sip_handle_reinvite X a nh m))"
    let ?m = "if status = 100 then ?change else mret ()"
    have eq: "wp (nua_callback X event status nh hmagic sip) Q w = wp ?m Q w" for Q
      using True False m by (auto simp: nua_callback_def i_invite_def deref_sip_def wp_mbind [of "mret _"] wp_mbind [of "sip_find_leg _"]
          wp_mret wp_sip_find_leg safeD(2) [OF s])
    have "handles.keeps {} ?m"
      by (intro handles.keeps_if handles.keeps_sip_found handles.keeps_then handles.keeps_reinvite handles.keeps_step)
    from last_handles [OF _ this h] run show ?thesis unfolding eq by blast
  next
    case False
    then have "handles.keeps {} (nua_callback X event status nh hmagic sip)" by (intro handles.keeps_nua_callback) simp
    from last_handles [OF run this h] show ?thesis .
  qed
qed

end
