(* ===== verification/System.thy ===== *)
theory System
  imports Main_Prog Evpoll Handle_Binding
begin

text \<open>
  The whole connector as a state machine: after \<open>main\<close> has started it, the main loop hands it one event
  at a time: a packet from the MNCC socket, a timer, a callback of the SIP stack, a configuration or
  show command. The relation \<open>sys_step\<close> is one event that can happen; \<open>reachable\<close> closes the start states
  under it. Before any event the success of the coming allocations may change.
\<close>

section \<open>Servers\<close>

text \<open>Interface: a handler that, from a good state and for an allowed event, ends in a good state.\<close>

fun run_events :: "('e \<Rightarrow> ('s, unit) M) \<Rightarrow> 'e list \<Rightarrow> ('s, unit) M" where
  "run_events handle [] = mret ()"
| "run_events handle (e # es) = mthen (handle e) (run_events handle es)"

fun all_allowed :: "('e \<Rightarrow> ('s, unit) M) \<Rightarrow> ('s \<Rightarrow> 'e \<Rightarrow> bool) \<Rightarrow> 'e list \<Rightarrow> 's \<Rightarrow> bool" where
  "all_allowed handle allowed [] s = True"
| "all_allowed handle allowed (e # es) s = (allowed s e \<and> wp (handle e) (\<lambda>_. all_allowed handle allowed es) s)"

locale server =
  fixes handle :: "'e \<Rightarrow> ('s, unit) M" and allowed :: "'s \<Rightarrow> 'e \<Rightarrow> bool" and good :: "'s \<Rightarrow> bool"
  assumes handle_keeps: "good s \<Longrightarrow> allowed s e \<Longrightarrow> wp (handle e) (\<lambda>_. good) s"
begin

lemma never_stuck: "good s \<Longrightarrow> allowed s e \<Longrightarrow> \<exists>s'. handle e s = Inr ((), s') \<and> good s'"
  using handle_keeps [of s e] by (simp add: wp_iff_run)

lemma keeps_run: "good s \<Longrightarrow> allowed s e \<Longrightarrow> handle e s = Inr ((), s') \<Longrightarrow> good s'"
  using handle_keeps [of s e] by (simp add: wp_iff_run)

lemma runs_all: "good s \<Longrightarrow> all_allowed handle allowed es s \<Longrightarrow> wp (run_events handle es) (\<lambda>_. good) s"
proof (induction es arbitrary: s)
  case Nil
  then show ?case by (simp add: wp)
next
  case (Cons e es)
  then obtain s' where "handle e s = Inr ((), s')" "good s'" "all_allowed handle allowed es s'"
    using never_stuck [of s e] by (auto simp: wp_iff_run)
  then show ?case using Cons.IH [of s'] by (simp add: wp_mthen wp_run)
qed

end

section \<open>Events of the connector\<close>

text \<open>\<open>Reconnect\<close> and \<open>Cmd_timer\<close>: the timer core takes an expired timer out and calls its function.\<close>

datatype event =
    Mncc_packet mncc_buf int
  | Reconnect int
  | Cmd_timer addr
  | Sip_callback nua_event int addr "addr option" "sip_msg option"
  | Config_cmd vty_cmd "string list"
  | Show_cmd show_cmd

definition handle_event :: "ext \<Rightarrow> event \<Rightarrow> unit io" where
  "handle_event X e = (case e of
       Mncc_packet buf rc \<Rightarrow> mncc_data X buf rc
     | Reconnect rc \<Rightarrow> mthen (mmod (\<lambda>w. w\<lparr>conn := (conn w)\<lparr>reconnect_pending := False\<rparr>\<rparr>)) (mncc_reconnect rc)
     | Cmd_timer a \<Rightarrow> mthen (timer_del a) (cmd_timeout X a)
     | Sip_callback ev status nh hmagic sip \<Rightarrow> nua_callback X ev status nh hmagic sip
     | Config_cmd c argv \<Rightarrow> mmod (\<lambda>w. w\<lparr>g_app := vty_app (run_cmd c argv \<lparr>vty_node = installed_in c, vty_app = g_app w, vty_su = []\<rparr>)\<rparr>)
     | Show_cmd s \<Rightarrow> mthen (run_show (x_fmt_p X) s) (mret ()))"

text \<open>
  When an event can happen: packets arrive on an open socket and keep to the protocol where the
  code relies on it (\<open>msc_conforms\<close>), timers fire that are pending, the SIP stack calls back as it
  documents (\<open>nua_conforms\<close>), configuration commands can always be given, show commands while the
  calls have what they print (\<open>show_ok\<close>).
\<close>

definition possible :: "world \<Rightarrow> event \<Rightarrow> bool" where
  "possible w e = (case e of
       Mncc_packet buf rc \<Rightarrow> 0 \<le> conn_fd (conn w) \<and> msc_conforms w buf
     | Reconnect rc \<Rightarrow> reconnect_pending (conn w)
     | Cmd_timer a \<Rightarrow> a \<in> set (timers w)
     | Sip_callback ev status nh hmagic sip \<Rightarrow> nua_conforms w ev status nh hmagic sip
     | Config_cmd c argv \<Rightarrow> True
     | Show_cmd s \<Rightarrow> show_ok w s)"

inductive sys_step :: "ext \<Rightarrow> world \<Rightarrow> event \<Rightarrow> world \<Rightarrow> bool" for X where
  event: "possible w e \<Longrightarrow> handle_event X e w = Inr ((), w') \<Longrightarrow> sys_step X w e w'"

inductive_simps sys_step_iff: "sys_step X w e w'"

inductive reachable :: "ext \<Rightarrow> world \<Rightarrow> bool" for X where
  boot: "main E = Loop p \<Longrightarrow> reachable X (proc_world p)"
| step: "reachable X w \<Longrightarrow> sys_step X w e w' \<Longrightarrow> reachable X w'"
| memory: "reachable X w \<Longrightarrow> reachable X (w\<lparr>allocs := bs\<rparr>)"

section \<open>Every event keeps the invariant\<close>

lemma reconnect_safe:
  assumes "safe w" and "reconnect_pending (conn w)"
  shows "wp (handle_event X (Reconnect rc)) (\<lambda>_. safe) w"
proof -
  have "conn_fd (conn w) < 0" "\<And>a l. legs w a = Some l \<Longrightarrow> \<not> is_mncc l"
    using assms by (auto simp: safe_iff conn_ok_def)
  with assms show ?thesis by (auto simp: handle_event_def mncc_reconnect_def wp safe_iff conn_ok_def)
qed

lemma safe_timer_del: "safe w \<Longrightarrow> safe (w\<lparr>timers := removeAll a (timers w)\<rparr>)"
  by (auto simp: safe_def inv_def wf_heap_def call_wf_def legs_ok_def call_ok_def conn_ok_def)

lemma cmd_timer_safe:
  assumes "safe w" and "a \<in> set (timers w)"
  shows "wp (handle_event X (Cmd_timer a)) (\<lambda>_. safe) w"
proof -
  let ?w = "w\<lparr>timers := removeAll a (timers w)\<rparr>"
  obtain l where l: "legs w a = Some l" "is_mncc l" using assms wf_heapD(7) [of w a] by (auto simp: safe_iff heap_inv_def)
  then have "connected ?w" using safe_mncc_connected [OF safe_timer_del [OF assms(1), of a], of a l] by simp
  from wp_mono [OF cmd_timeout_connected [OF this, of a l X]] l show ?thesis
    by (simp add: handle_event_def timer_del_def wp connected_safe)
qed

text \<open>The invariant of the whole system: safety, and the pointers the SIP stack holds.\<close>

definition good :: "world \<Rightarrow> bool" where
  "good w = (safe w \<and> handles_ok w)"

lemma cmd_timer_handles:
  assumes "safe w" and "a \<in> set (timers w)" and "handles_ok w"
  shows "wp (handle_event X (Cmd_timer a)) (\<lambda>_. handles_ok) w"
proof (rule last_handles [OF cmd_timer_safe [OF assms(1,2)] _ assms(3)])
  show "handles.keeps {} (handle_event X (Cmd_timer a))"
    unfolding handle_event_def by (simp, intro handles.keeps_then handles.keeps_cmd_timeout handles.keeps_step)
qed

interpretation connector: server "handle_event X" possible good for X
proof
  fix w e
  assume g: "good w" and p: "possible w e"
  then have s: "safe w" and h: "handles_ok w" by (simp_all add: good_def)
  have "wp (handle_event X e) (\<lambda>_. safe) w \<and> wp (handle_event X e) (\<lambda>_. handles_ok) w"
  proof (cases e)
    case (Mncc_packet buf rc)
    then have "connected w" "msc_conforms w buf" using s p by (simp_all add: possible_def connected_safe)
    then show ?thesis
      using Mncc_packet mncc_data_safe mncc_data_handles h by (simp add: handle_event_def)
  next
    case (Reconnect rc)
    then have "wp (handle_event X e) (\<lambda>_. handles_ok) w" using h by (simp add: handle_event_def mncc_reconnect_def wp)
    with Reconnect show ?thesis
      using s p reconnect_safe by (simp add: possible_def)
  next
    case (Cmd_timer a)
    then show ?thesis
      using s h p cmd_timer_safe cmd_timer_handles by (simp add: possible_def)
  next
    case (Sip_callback ev status nh hmagic sip)
    then have "stack_conforms w ev status hmagic sip" using nua_conforms_leg [OF h] p by (simp add: possible_def)
    with Sip_callback show ?thesis
      using nua_callback_safe [OF s] nua_callback_handles [OF s h] by (simp add: handle_event_def)
  next
    case (Config_cmd c argv)
    then show ?thesis using s h by (simp add: handle_event_def wp)
  next
    case (Show_cmd c)
    then obtain ls where "run_show (x_fmt_p X) c w = Inr (ls, w)" using run_show_ok [of w c] s p by (auto simp: possible_def safe_iff)
    then have "handle_event X e w = Inr ((), w)" using Show_cmd by (simp add: handle_event_def mthen_def mbind_def mret_def)
    then show ?thesis using s h by (simp add: wp_run)
  qed
  then show "wp (handle_event X e) (\<lambda>_. good) w" unfolding good_def by (elim conjE) (rule wp_conj)
qed

lemma booted_good: "good (booted app)"
  using booted_safe by (simp add: good_def handles_ok_def bindings_def booted_def init_world_def)

lemma reachable_good: "reachable X w \<Longrightarrow> good w"
proof (induction rule: reachable.induct)
  case (boot E p)
  then show ?case using booted_good by (auto simp: main_eq booted_process_def split: sum.splits prod.splits if_splits)
next
  case (step w e w')
  then show ?case using connector.keeps_run by (auto simp: sys_step_iff)
qed (simp add: good_def)

lemma reachable_safe: "reachable X w \<Longrightarrow> safe w"
  using reachable_good by (simp add: good_def)

lemma reachable_run:
  "reachable X w \<Longrightarrow> all_allowed (handle_event X) possible es w \<Longrightarrow> \<exists>w'. run_events (handle_event X) es w = Inr ((), w') \<and> reachable X w'"
proof (induction es arbitrary: w)
  case Nil
  then show ?case by (simp add: mret_def)
next
  case (Cons e es)
  then obtain v where v: "handle_event X e w = Inr ((), v)" "possible w e" "all_allowed (handle_event X) possible es v"
    by (auto simp: wp_iff_run)
  then have "reachable X v" using reachable.step [OF Cons.prems(1)] by (simp add: sys_step_iff)
  with Cons.IH [OF this v(3)] v(1) show ?case by (simp add: mthen_def mbind_Inr)
qed

section \<open>Executable conditions\<close>

lemma has_callref_code [code]:
  "has_callref w r p = (case p of None \<Rightarrow> False | Some a \<Rightarrow> (case legs w a of None \<Rightarrow> False | Some l \<Rightarrow>
     (case leg_object l of Mncc_object m \<Rightarrow> callref m = r | Sip_object _ \<Rightarrow> False)))"
  by (auto simp: has_callref_def split: option.splits leg_object.splits)

text \<open>The direction and the other leg of an MNCC leg.\<close>

definition mncc_leg_info :: "world \<Rightarrow> addr option \<Rightarrow> (bool \<times> addr option) option" where
  "mncc_leg_info w p = (case p of None \<Rightarrow> None | Some a \<Rightarrow> (case legs w a of None \<Rightarrow> None | Some l \<Rightarrow>
     if is_mncc l then map_option (\<lambda>x. (leg_mo l, other_leg a x)) (calls w (leg_call l)) else None))"

lemma mncc_leg_info_iff: "mncc_leg_info w p = Some (mo, q) \<longleftrightarrow> (\<exists>a. p = Some a \<and> mncc_at w a mo q)"
  by (auto simp: mncc_leg_info_def mncc_at_def split: option.splits if_splits)

lemma msc_conforms_code [code]:
  "msc_conforms w buf =
     ((as_msg_type buf = MNCC_ALERT_IND \<or> as_msg_type buf = MNCC_SETUP_CNF \<longrightarrow>
        (case mncc_leg_info w (lookup_callref w (mncc_callref (as_mncc buf)) (g_call_list w)) of
           Some (mo, Some b) \<Rightarrow> \<not> mo | _ \<Rightarrow> True))
      \<and> (as_msg_type buf = MNCC_RTP_CREATE \<longrightarrow>
        (case mncc_leg_info w (lookup_callref w (rtp_callref (as_rtp buf)) (g_call_list w)) of
           Some (True, p) \<Rightarrow> p = None | _ \<Rightarrow> True)))"
proof -
  have "(\<forall>a mo b. q = Some a \<and> mncc_at w a mo (Some b) \<longrightarrow> \<not> mo) = (\<forall>mo b. mncc_leg_info w q = Some (mo, Some b) \<longrightarrow> \<not> mo)" for q
    unfolding mncc_leg_info_iff by blast
  then have 1: "(\<forall>a mo b. q = Some a \<and> mncc_at w a mo (Some b) \<longrightarrow> \<not> mo)
      = (case mncc_leg_info w q of Some (mo, Some b) \<Rightarrow> \<not> mo | _ \<Rightarrow> True)" for q
    by (simp split: option.split)
  have "(\<forall>a p. q = Some a \<and> mncc_at w a True p \<longrightarrow> p = None) = (\<forall>p. mncc_leg_info w q = Some (True, p) \<longrightarrow> p = None)" for q
    unfolding mncc_leg_info_iff by blast
  then have 2: "(\<forall>a p. q = Some a \<and> mncc_at w a True p \<longrightarrow> p = None)
      = (case mncc_leg_info w q of Some (True, p) \<Rightarrow> p = None | _ \<Rightarrow> True)" for q
    by (auto split: option.splits bool.splits)
  show ?thesis unfolding msc_conforms_def 1 2 ..
qed

section \<open>A call from beginning to end\<close>

text \<open>
  The socket is opened, the MSC says hello, a mobile calls, the SIP side rings and answers, the
  mobile confirms and hangs up. Messages of the call carry the reference 77; the SIP leg gets address 3
  and the handle 4.
\<close>

definition example_call :: "event list" where
  "example_call = (let pkt = (\<lambda>t. Mncc_packet (example_buf t (zero_mncc\<lparr>mncc_callref := 77, mncc_fields := MNCC_F_CALLED OR MNCC_F_CALLING\<rparr>)) 2208) in
     [Reconnect 5, Mncc_packet (example_buf MNCC_SOCKET_HELLO zero_mncc) sizeof_hello,
      pkt MNCC_SETUP_IND,
      Mncc_packet ((example_buf MNCC_RTP_CREATE zero_mncc)
        \<lparr>as_rtp := zero_rtp\<lparr>rtp_callref := 77, rtp_payload_type := 3, rtp_payload_msg_type := GSM_TCHF_FRAME\<rparr>\<rparr>) sizeof_rtp,
      Sip_callback nua_r_invite 180 4 (Some 3) (Some example_sip),
      Sip_callback nua_r_invite 200 4 (Some 3) (Some example_sip),
      pkt MNCC_SETUP_COMPL_IND, pkt MNCC_DISC_IND, pkt MNCC_REL_CNF,
      Sip_callback nua_r_bye 200 4 (Some 3) None])"

text \<open>The kind of a message sent.\<close>

fun action_kind :: "action \<Rightarrow> u32 + string" where
  "action_kind (Tx_mncc m) = Inl (mncc_msg_type m)"
| "action_kind (Tx_rtp m) = Inl (rtp_msg_type m)"
| "action_kind (Nua_respond _ _ _ _) = Inr ''respond''"
| "action_kind (Nua_invite _ _ _ _ _) = Inr ''invite''"
| "action_kind (Nua_info _ _) = Inr ''info''"
| "action_kind (Nua_cancel _) = Inr ''cancel''"
| "action_kind (Nua_bye _) = Inr ''bye''"
| "action_kind (Nua_ack _) = Inr ''ack''"
| "action_kind (Nua_handle_destroy _) = Inr ''destroy''"
| "action_kind (Nua_handle_bind _ _) = Inr ''bind''"

text \<open>Small port numbers keep the evaluation short.\<close>

definition small_ext :: ext where
  "small_ext = example_ext (\<lambda>_. Some (Some (example_session\<lparr>sdp_medias := [\<lparr>m_proto = sdp_proto_rtp, m_type = sdp_media_audio,
     m_port = 8, m_mode = sdp_sendrecv, m_rtpmaps = [\<lparr>rm_pt = 3, rm_encoding = ''gsm''\<rparr>]\<rparr>]\<rparr>)))"

definition small_config :: app_config where
  "small_config = example_config\<lparr>sip_local_port := 7, sip_remote_port := 7\<rparr>"

definition small_boot :: boot_env where
  "small_boot = \<lparr>env_argv = [''osmo-sip-connector''], env_getopt = (\<lambda>argv short long. example_getopt argv), env_version = [], env_package_version = [],
     env_read_config = (\<lambda>f app. (0, app\<lparr>sip_local_port := 7, sip_remote_port := 7\<rparr>, [])), env_telnet = 0,
     env_root = Some 1, env_nua_create = (\<lambda>r u. Some 2), env_daemonize = 0\<rparr>"

lemma small_boot_runs: "main small_boot = Loop (booted_process small_boot small_config [])"
  by (simp add: main_eq env_options_def small_boot_def default_options_def zero_app_def initial_config_def default_config_def
      small_config_def example_config_def)

lemma small_reachable: "reachable X (booted small_config)"
  using reachable.boot [OF small_boot_runs, of X] by (simp add: booted_process_def)

lemma example_call_allowed: "all_allowed (handle_event small_ext) possible example_call (booted small_config)"
  by code_simp

text \<open>The state after the INVITE has been sent: one call, two legs.\<close>

lemma example_invited: "all_allowed (handle_event small_ext) possible (take 4 example_call) (booted small_config)"
  "case run_events (handle_event small_ext) (take 4 example_call) (booted small_config) of Inl f \<Rightarrow> False
   | Inr (_, w) \<Rightarrow> g_call_list w = [1] \<and> map_option (\<lambda>x. (initial x, remote x)) (calls w 1) = Some (Some 2, Some 3)"
  "case run_events (handle_event small_ext) (take 4 example_call) (booted small_config) of Inl f \<Rightarrow> False
   | Inr (_, w) \<Rightarrow> (case legs w 3 of None \<Rightarrow> False | Some l \<Rightarrow> leg_handle l = Some 4)"
  "case run_events (handle_event small_ext) (take 4 example_call) (booted small_config) of Inl f \<Rightarrow> False
   | Inr (_, w) \<Rightarrow> bindings w 4 = Some 3"
  by code_simp+

lemma example_call_run:
  "case run_events (handle_event small_ext) example_call (booted small_config) of Inl f \<Rightarrow> False
   | Inr (_, w) \<Rightarrow> g_call_list w = [] \<and> timers w = [] \<and> map action_kind (out w) =
       [Inl MNCC_RTP_CREATE, Inl MNCC_CALL_PROC_REQ, Inr ''bind'', Inr ''invite'', Inl MNCC_ALERT_REQ, Inl MNCC_RTP_CONNECT,
        Inl MNCC_RTP_CONNECT, Inl MNCC_SETUP_RSP, Inr ''ack'', Inl MNCC_REL_REQ, Inr ''bye'', Inr ''destroy'']"
  by code_simp

text \<open>
  The show commands do meet calls without what they print: after the mobile has hung up and before the SIP
  side has confirmed, the call has lost the leg that started it and its strings.
\<close>

lemma example_waiting:
  "all_allowed (handle_event small_ext) possible (take 9 example_call) (booted small_config)"
  "case run_events (handle_event small_ext) (take 9 example_call) (booted small_config) of Inl f \<Rightarrow> False
   | Inr (_, w) \<Rightarrow> g_call_list w = [1] \<and> \<not> strings_live w 1 \<and> \<not> keeps_initial w 1"
  by code_simp+

theorem show_commands_fault:
  "\<exists>w. reachable small_ext w \<and> show_calls fmt_p w = Inl Use_after_free \<and> show_calls_sum w = Inl Null_deref"
proof -
  obtain w where w: "run_events (handle_event small_ext) (take 9 example_call) (booted small_config) = Inr ((), w)" "reachable small_ext w"
    using reachable_run [OF small_reachable example_waiting(1)] by blast
  then have "g_call_list w = [1]" "\<not> strings_live w 1" "\<not> keeps_initial w 1" using example_waiting(2) by (simp_all add: w(1))
  moreover have "heap_inv w" using reachable_safe [OF w(2)] by (simp add: safe_iff)
  ultimately show ?thesis using w(2) show_calls_run [of w fmt_p] show_calls_sum_run [of w] by auto
qed

end
