(* ===== verification/Connection.thy ===== *)
theory Connection
  imports System
begin

text \<open>
  The MNCC connection as an abstract state machine. Its states are those of the enumeration in the code
  (disconnected, waiting for the version, ready), its steps are those an observer of the socket expects. The
  program refines it: whatever a handler does with calls and legs, and whether its writes succeed or
  not, it leaves the connection as it is or closes it; only a hello of the right version makes it ready.
\<close>

section \<open>What handlers do to the connection\<close>

definition closed :: "mncc_connection \<Rightarrow> mncc_connection" where
  "closed cn = cn\<lparr>conn_fd := - 1, reconnect_pending := True, conn_state := MNCC_DISCONNECTED\<rparr>"

definition same_or_closed :: "world \<Rightarrow> world \<Rightarrow> bool" where
  "same_or_closed w w' = (conn w' = conn w \<or> conn w' = closed (conn w))"

lemma closed_closed [simp]: "closed (closed cn) = closed cn"
  by (simp add: closed_def)

lemma same_conn: "conn w' = conn w \<Longrightarrow> same_or_closed w w'"
  by (simp add: same_or_closed_def)

text \<open>Freeing a leg does not concern the connection.\<close>

lemma release_conn: "call_leg_release a w = Inr ((), w') \<Longrightarrow> conn w' = conn w"
  by (auto simp: call_leg_release_def call_leg_free_def talloc_free_leg_def talloc_free_call_def llist_del_def
      get_leg_def get_call_def upd_call_def monad_defs split: option.splits if_splits)

interpretation link: run_relation "\<lambda>_. True" same_or_closed "\<lambda>_ _ _. True"
proof
  fix w w' u v :: world and a
  show "same_or_closed w w" by (simp add: same_conn)
  show "same_or_closed u v \<Longrightarrow> same_or_closed v w \<Longrightarrow> same_or_closed u w" by (auto simp: same_or_closed_def)
  show "True \<and> same_or_closed w (w\<lparr>conn := (conn w)\<lparr>conn_fd := - 1, reconnect_pending := True, conn_state := MNCC_DISCONNECTED\<rparr>\<rparr>)"
    by (simp add: same_or_closed_def closed_def)
  show "call_leg_release a w = Inr ((), w') \<Longrightarrow> True \<and> same_or_closed w w'" by (simp add: release_conn same_conn)
qed (simp_all add: same_conn)

section \<open>Operations that create calls and legs\<close>

lemma keeps_same_conn: "(\<And>w x w'. m w = Inr (x, w') \<Longrightarrow> conn w' = conn w) \<Longrightarrow> link.keeps A m"
  by (rule upholdsI) (simp add: same_conn)

lemma keeps_heap_ops:
  "link.keeps A (upd_leg a f)" "link.keeps A (upd_call c g)" "link.keeps A (upd_sip a k)" "link.keeps A (talloc_leg c ob)"
  "link.keeps A talloc_call" "link.keeps A (talloc_free_leg a)" "link.keeps A (talloc_free_call c)" "link.keeps A (llist_add c)"
  "link.keeps A fresh_addr" "link.keeps A (emit y)"
  by (auto intro!: keeps_same_conn simp: upd_leg_def upd_call_def upd_sip_def get_sip_def get_leg_def talloc_leg_def talloc_call_def
      talloc_free_leg_def talloc_free_call_def llist_add_def fresh_addr_def emit_def alloc_ok_def get_call_def monad_defs
      split: option.splits leg_object.splits list.splits if_splits sum.splits prod.splits)

lemma keeps_release_any: "link.keeps A (call_leg_release a)"
  by (rule keeps_same_conn) (simp add: release_conn)

lemma keeps_mmod: "(\<And>w. conn (f w) = conn w) \<Longrightarrow> link.keeps A (mmod f)"
  by (rule keeps_same_conn) (auto simp: mmod_def)

lemma keeps_new_handle: "link.keeps A (nua_handle_new a)"
  unfolding nua_handle_new_def by (intro link.keeps_step keeps_heap_ops)

lemma keeps_call_create: "link.keeps A (call_create ty ob)"
  unfolding call_create_def by (intro link.keeps_step keeps_heap_ops keeps_mmod) simp

lemma keeps_invite: "link.keeps A (send_invite X a s d)"
  unfolding send_invite_def invite_gcr_def by (intro link.keeps_step keeps_heap_ops)

lemma keeps_sip_remote: "link.keeps A (sip_create_remote_leg X c)"
  unfolding sip_create_remote_leg_def by (intro link.keeps_step keeps_heap_ops keeps_new_handle keeps_invite)

lemma keeps_mncc_remote: "link.keeps A (mncc_create_remote_leg X c)"
  unfolding mncc_create_remote_leg_def setup_gcr_def setup_sdp_def Let_def by (intro link.keeps_step keeps_heap_ops)

lemma keeps_route: "link.keeps A (app_route_call X c src dst)"
  unfolding app_route_call_def route_to_sip_def route_to_mncc_def release_initial_def
  by (intro link.keeps_step keeps_heap_ops keeps_sip_remote keeps_mncc_remote)

lemma keeps_setup: "link.keeps A (check_setup X buf rc)"
  unfolding check_setup_def setup_call_def setup_reject_def call_mncc_create_def Let_def
  by (intro link.keeps_step keeps_heap_ops keeps_call_create)

lemma keeps_rtp_create: "link.keeps A (check_rtp_create X buf rc)"
  unfolding check_rtp_create_def continue_call_def continue_mo_call_def continue_mt_call_def Let_def
  by (intro link.keeps_if link.keeps_mncc_found link.keeps_step keeps_heap_ops keeps_route)

lemma keeps_new_call: "link.keeps A (new_call X nh sip)"
proof -
  have "link.keeps A (new_call_route X nh sip c a f t)" for c a f t
    unfolding new_call_route_def by (intro link.keeps_step keeps_heap_ops keeps_route)
  then have "link.keeps A (new_call_leg X nh sip c)" for c
    unfolding new_call_leg_def by (intro keeps_release_any link.keeps_step link.keeps_not_acceptable keeps_heap_ops)
  then show ?thesis unfolding new_call_def call_sip_create_def Let_def
    by (intro link.keeps_step link.keeps_not_acceptable keeps_heap_ops keeps_call_create)
qed

section \<open>The machine\<close>

text \<open>A hello the program accepts.\<close>

definition good_hello :: "mncc_buf \<Rightarrow> int \<Rightarrow> bool" where
  "good_hello buf rc = (as_msg_type buf = MNCC_SOCKET_HELLO \<and> rc = sizeof_hello \<and> hello_version (as_hello buf) = MNCC_SOCK_VERSION)"

fun is_packet :: "event \<Rightarrow> bool" where
  "is_packet (Mncc_packet _ _) = True"
| "is_packet _ = False"

fun is_connect :: "event \<Rightarrow> bool" where
  "is_connect (Reconnect _) = True"
| "is_connect _ = False"

inductive link_step :: "event \<Rightarrow> mncc_conn_state \<Rightarrow> mncc_conn_state \<Rightarrow> bool" where
  connect_fails: "rc < 0 \<Longrightarrow> link_step (Reconnect rc) MNCC_DISCONNECTED MNCC_DISCONNECTED"
| connects: "0 \<le> rc \<Longrightarrow> link_step (Reconnect rc) MNCC_DISCONNECTED MNCC_WAIT_VERSION"
| hello: "good_hello buf rc \<Longrightarrow> s \<noteq> MNCC_DISCONNECTED \<Longrightarrow> link_step (Mncc_packet buf rc) s MNCC_READY"
| message: "\<not> good_hello buf rc \<Longrightarrow> 4 < rc \<Longrightarrow> as_msg_type buf \<noteq> MNCC_SOCKET_HELLO \<Longrightarrow> s \<noteq> MNCC_DISCONNECTED \<Longrightarrow> link_step (Mncc_packet buf rc) s s"
| lost: "\<not> good_hello buf rc \<Longrightarrow> s \<noteq> MNCC_DISCONNECTED \<Longrightarrow> link_step (Mncc_packet buf rc) s MNCC_DISCONNECTED"
| other: "\<not> is_packet e \<Longrightarrow> \<not> is_connect e \<Longrightarrow> link_step e s s"
| write_fails: "\<not> is_packet e \<Longrightarrow> \<not> is_connect e \<Longrightarrow> link_step e s MNCC_DISCONNECTED"

inductive_simps link_step_iff: "link_step e s s'"

text \<open>The effect of each event on the connection, for any state.\<close>

lemma link_run: "link.keeps {} m \<Longrightarrow> m w = Inr (x, w') \<Longrightarrow> same_or_closed w w'"
  unfolding upholds_def by simp

lemma keeps_disconnected: "link.keeps {} (app_mncc_disconnected (release X))"
  unfolding app_mncc_disconnected_def by (intro link.keeps_rules link.keeps_disconnect link.keeps_release_depth)

lemma close_conn:
  assumes "close_connection (release X) w = Inr ((), w')" and "0 \<le> conn_fd (conn w)"
  shows "conn w' = closed (conn w)"
proof -
  let ?v = "w\<lparr>conn := closed (conn w)\<rparr>"
  from assms consider "w' = ?v" | "app_mncc_disconnected (release X) ?v = Inr ((), w')"
    by (auto simp: close_connection_def closed_def monad_defs split: option.splits)
  then show ?thesis
  proof cases
    case 2
    from link_run [OF keeps_disconnected this] show ?thesis by (simp add: same_or_closed_def)
  qed simp
qed

lemma packet_conn:
  assumes run: "mncc_data X buf rc w = Inr ((), w')" and fd: "0 \<le> conn_fd (conn w)"
  shows "if good_hello buf rc then conn w' = (conn w)\<lparr>conn_state := MNCC_READY\<rparr>
         else if rc \<le> 4 \<or> as_msg_type buf = MNCC_SOCKET_HELLO then conn w' = closed (conn w)
         else same_or_closed w w'"
proof (cases "rc \<le> 4 \<or> as_msg_type buf = MNCC_SOCKET_HELLO")
  case True
  show ?thesis
  proof (cases "good_hello buf rc")
    case True
    then have "mncc_data X buf rc = mmod (\<lambda>w. w\<lparr>conn := (conn w)\<lparr>conn_state := MNCC_READY\<rparr>\<rparr>)"
      by (simp add: good_hello_def mncc_data_def check_hello_def sizeof_hello_def Let_def)
    with True run show ?thesis by (auto simp: mmod_def)
  next
    case False
    then have "mncc_data X buf rc = close_connection (release X)"
      using True by (auto simp: good_hello_def mncc_data_def check_hello_def Let_def)
    with False True show ?thesis using close_conn [OF _ fd] run by simp
  qed
next
  case False
  then have "link.keeps {} (mncc_data X buf rc)" by (intro link.keeps_mncc_data keeps_setup keeps_rtp_create) simp
  from link_run [OF this run] False show ?thesis by (simp add: good_hello_def)
qed

lemma other_conn:
  assumes "handle_event X e w = Inr ((), w')" and "\<not> is_packet e" and "\<not> is_connect e" and "safe w" and "possible w e"
  shows "same_or_closed w w'"
proof (cases e)
  case (Cmd_timer a)
  have "link.keeps {} (mthen (timer_del a) (cmd_timeout X a))" by (intro link.keeps_then link.keeps_cmd_timeout link.keeps_step)
  from link_run [OF this] show ?thesis using assms(1) Cmd_timer by (simp add: handle_event_def)
next
  case (Sip_callback ev status nh hmagic sip)
  from link_run [OF link.keeps_nua_callback [OF keeps_new_call]] show ?thesis
    using assms(1) Sip_callback by (simp add: handle_event_def)
next
  case (Config_cmd c argv)
  then show ?thesis using assms(1) by (auto simp: handle_event_def mmod_def same_conn)
next
  case (Show_cmd s)
  then obtain ls where "run_show (x_fmt_p X) s w = Inr (ls, w)" using run_show_ok [of w s] assms(4,5) by (auto simp: possible_def safe_iff)
  then show ?thesis using assms(1) Show_cmd by (simp add: handle_event_def mthen_def mbind_def mret_def same_conn)
qed (use assms in simp_all)

text \<open>The refinement.\<close>

lemma conn_step:
  assumes s: "safe w" and p: "possible w e" and run: "handle_event X e w = Inr ((), w')"
  shows "link_step e (conn_state (conn w)) (conn_state (conn w'))"
proof -
  have ok: "conn_ok w" using safeD(4) [OF s] .
  consider (packet) buf rc where "e = Mncc_packet buf rc" | (connect) rc where "e = Reconnect rc"
    | (rest) "\<not> is_packet e" "\<not> is_connect e" by (cases e) auto
  then show ?thesis
  proof cases
    case packet
    then have fd: "0 \<le> conn_fd (conn w)" using p by (simp add: possible_def)
    then have "conn_state (conn w) \<noteq> MNCC_DISCONNECTED" using ok by (auto simp: conn_ok_def)
    with packet_conn [OF _ fd, of X buf rc w'] run packet show ?thesis
      by (auto simp: handle_event_def same_or_closed_def closed_def link_step_iff split: if_splits)
  next
    case connect
    then have "conn_state (conn w) = MNCC_DISCONNECTED" using ok p by (auto simp: possible_def conn_ok_def)
    with run connect show ?thesis by (auto simp: handle_event_def mncc_reconnect_def monad_defs link_step_iff split: if_splits)
  next
    case rest
    from other_conn [OF run rest s p] rest show ?thesis by (auto simp: same_or_closed_def closed_def link_step_iff)
  qed
qed

section \<open>Properties\<close>

text \<open>
  C5. The connection follows its state machine. Every event handled in a reachable state is a step of the
  abstract machine: an attempt to connect leads from disconnected to waiting or fails, an accepted hello leads
  to ready, a message that is too short or a hello of another version disconnects, any other message
  leaves the state or disconnects, and no timer, SIP event or command ever connects.
\<close>

theorem connection_refines:
  assumes "reachable X w" and "sys_step X w e w'"
  shows "link_step e (conn_state (conn w)) (conn_state (conn w'))"
  using assms(2) conn_step [OF reachable_safe [OF assms(1)], of e X w'] by (simp add: sys_step_iff)

theorem connection_refines_witness:
  "\<exists>w'. handle_event small_ext (Reconnect 5) (booted small_config) = Inr ((), w')
     \<and> link_step (Reconnect 5) MNCC_DISCONNECTED (conn_state (conn w'))"
proof -
  let ?w = "booted small_config"
  obtain w' where w': "handle_event small_ext (Reconnect 5) ?w = Inr ((), w')"
    by (simp add: handle_event_def mncc_reconnect_def monad_defs)
  then have "sys_step small_ext ?w (Reconnect 5) w'" by (simp add: sys_step_iff possible_def booted_def init_world_def)
  from connection_refines [OF small_reachable this] w' show ?thesis by (auto simp: booted_def init_world_def)
qed

lemma ready_by_hello:
  assumes "link_step e s MNCC_READY" and "s \<noteq> MNCC_READY"
  shows "\<exists>buf. e = Mncc_packet buf sizeof_hello \<and> good_hello buf sizeof_hello"
  using assms by (auto simp: link_step_iff good_hello_def)

text \<open>
  C8. No service without the handshake: a connection that becomes ready in the course of any possible sequence of
  events has received a hello with the version this program was built for.
\<close>

theorem ready_needs_hello:
  assumes "reachable X w" and "all_allowed (handle_event X) possible es w" and "run_events (handle_event X) es w = Inr ((), w')"
    and "conn_state (conn w) \<noteq> MNCC_READY" and "conn_state (conn w') = MNCC_READY"
  shows "\<exists>buf. Mncc_packet buf sizeof_hello \<in> set es \<and> as_msg_type buf = MNCC_SOCKET_HELLO
     \<and> hello_version (as_hello buf) = MNCC_SOCK_VERSION"
  using assms
proof (induction es arbitrary: w)
  case Nil
  then show ?case by (simp add: mret_def)
next
  case (Cons e es)
  then obtain v where v: "handle_event X e w = Inr ((), v)" "possible w e" "all_allowed (handle_event X) possible es v"
    by (auto simp: wp_iff_run)
  then have st: "sys_step X w e v" by (simp add: sys_step_iff)
  have run: "run_events (handle_event X) es v = Inr ((), w')" using Cons.prems(3) v(1) by (simp add: mthen_def mbind_Inr)
  show ?case
  proof (cases "conn_state (conn v) = MNCC_READY")
    case True
    with ready_by_hello [of e "conn_state (conn w)"] conn_step [OF reachable_safe [OF Cons.prems(1)] v(2,1)] Cons.prems(4)
    show ?thesis by (auto simp: good_hello_def)
  next
    case False
    from Cons.IH [OF reachable.step [OF Cons.prems(1) st] v(3) run this Cons.prems(5)] show ?thesis by auto
  qed
qed

theorem ready_needs_hello_witness:
  "\<exists>buf. Mncc_packet buf sizeof_hello \<in> set (take 2 example_call) \<and> hello_version (as_hello buf) = MNCC_SOCK_VERSION"
proof -
  have a: "all_allowed (handle_event small_ext) possible (take 2 example_call) (booted small_config)" by code_simp
  obtain w where w: "run_events (handle_event small_ext) (take 2 example_call) (booted small_config) = Inr ((), w)"
    using reachable_run [OF small_reachable a] by blast
  have "case run_events (handle_event small_ext) (take 2 example_call) (booted small_config) of Inl f \<Rightarrow> False
     | Inr (_, w) \<Rightarrow> conn_state (conn w) = MNCC_READY" by code_simp
  then have "conn_state (conn w) = MNCC_READY" by (simp add: w)
  from ready_needs_hello [OF small_reachable a w _ this] show ?thesis
    by (auto simp: booted_def init_world_def)
qed

end
