(* ===== verification/Spec2Isabelle.thy ===== *)
theory Spec2Isabelle
  imports Connection
begin

text \<open>
  A verification development of osmo-sip-connector, the program that connects the call control of a mobile
  network (MNCC, a local socket to the MSC) with SIP (the Sofia-SIP library).

  \<^bold>\<open>The program.\<close> A call has up to two legs, one towards MNCC and one towards SIP; \<open>src/src/call.c\<close> keeps the
  list of calls. \<open>src/src/mncc.c\<close> handles the socket: the connection with its handshake and its reconnect timer,
  the messages of the MSC, command timers, the functions of MNCC legs. \<open>src/src/sip.c\<close> handles the events of
  the SIP stack and the functions of SIP legs, and translates GSM causes to SIP status codes and back.
  \<open>src/src/sdp.c\<close> reads and writes the media descriptions, \<open>src/src/app.c\<close> routes a call that came in on
  one side to the other side, \<open>src/src/vty.c\<close> is the configuration and the show commands, \<open>src/src/evpoll.c\<close>
  joins the descriptors and timers of libosmocore with GLib's main loop, and \<open>src/src/main.c\<close> starts it all. The
  two sides call each other through function pointers in the legs; a release on one side runs code of the
  other side and can close the connection while it does.

  \<^bold>\<open>Model.\<close> A C function is a function from a state (\<open>world\<close>: heap of calls and legs by address, list of calls,
  timers, connection, configuration, messages sent) to a fault or a result and a new state. A fault is a use
  after free, a NULL pointer, a cast to the wrong kind of leg, a failed assertion. Addresses are never used
  again, so that a dangling pointer shows. Results of the operating system are part of the state:
  \<open>allocs\<close> says which of the next allocations succeed, \<open>writes\<close> what the next writes return (empty: they succeed). The calls to
  Sofia-SIP and the messages to the MSC are recorded in \<open>out\<close>, in order. Libraries whose source is elsewhere (the SDP parser
  and printer, GCR coding, address conversion) are the members of the record \<open>ext\<close>. Function pointers are the
  values of a datatype with one constructor per function.

  \<^bold>\<open>Theories.\<close>
  \<^item> \<open>Prelude\<close>: the monad, weakest preconditions, C strings. \<open>Mncc_Protocol\<close>: \<open>mncc_protocol.h\<close>. \<open>Call_Heap\<close>: \<open>call.h\<close>,
    \<open>mncc.h\<close>, \<open>app.h\<close>, \<open>sdp.h\<close>, memory operations.
  \<^item> \<open>Call\<close>: \<open>call.c\<close>; creation and release of legs against abstract operations on a well-formed heap. \<open>Invariant\<close>:
    the invariant of the running program and the interfaces \<open>leg_op\<close> and \<open>framed_op\<close> of operations on one leg.
  \<^item> \<open>Cause_Map\<close>, \<open>Sip_Leg\<close>, \<open>Sip_Events\<close>, \<open>Sip_Agent\<close>: the parts of \<open>sip.c\<close>. \<open>Sdp\<close>: \<open>sdp.c\<close>.
  \<^item> \<open>Mncc_Conn\<close>, \<open>App_Route\<close> (with \<open>app.c\<close>) and \<open>Mncc_Handlers\<close>: the parts of \<open>mncc.c\<close>.
  \<^item> \<open>Mncc_Safety\<close>, \<open>Handler_Safety\<close>, \<open>Sip_Safety\<close>: no operation, message or event faults, and each keeps the
    invariant, with the interfaces \<open>dropping_release\<close>, \<open>quiet_op\<close>, \<open>ident_update\<close> and \<open>local_op\<close>.
  \<^item> \<open>Mncc_Properties\<close>, \<open>Call_Flows\<close>, \<open>Call_Ends\<close>: what the program does with a call, from its set-up to its end, and
    the paths on which it goes wrong.
  \<^item> \<open>Run_Relation\<close>: the interface \<open>run_relation\<close>, under which every handler is shown to respect a relation between
    the states before and after it. Its instances are \<open>handles\<close> in \<open>Handle_Binding\<close> (the pointers that the SIP stack
    holds) and \<open>link\<close> in \<open>Connection\<close> (the state machine of the connection).
  \<^item> \<open>Log_Categories\<close>: \<open>logging.h\<close> and the table of \<open>main.c\<close>. \<open>Vty_Commands\<close> and \<open>Vty\<close>: the configuration commands
    and the show commands of \<open>vty.c\<close>. \<open>Evpoll\<close>: \<open>evpoll.c\<close>. \<open>Main_Prog\<close>: \<open>main.c\<close>, from the command line to the
    joined main loops.
  \<^item> \<open>System\<close>: the events of the main loop as a step relation, the interface \<open>server\<close>, reachable states, and a
    whole call evaluated. This theory: what holds in every reachable state.

  \<^bold>\<open>What is shown.\<close> Safety of the whole program for every sequence of events, under two conditions on the MSC
  (\<open>msc_conforms\<close>), the documented behaviour of the SIP stack (\<open>nua_conforms\<close>) and with show commands given while
  the calls have what they print (\<open>show_ok\<close>); each of the two conditions on the MSC is needed, as \<open>Call_Flows\<close> shows, and so is
  the one on show commands, as the end of \<open>System\<close> shows. Consistency of the registry, of the tags and function pointers of legs, of
  the handles and of the connection, which follows an abstract state machine and always comes back. What each operation does:
  set-up in both directions, release, refusal, timeouts, media descriptions, causes, configuration, the poll function. The
  theorems on errors state where the program does something it should not.

  \<^bold>\<open>Bounds.\<close> Releases run code that can release again: \<open>release_leg X n\<close> is the call through the pointer with \<open>n\<close>
  levels left. The program is modelled with two, and the property on termination in \<open>Mncc_Properties\<close> shows that no
  run needs more: a release inside a release meets a closed connection and only frees. All other functions
  are total. Integers that are compared or sent keep their width as words; descriptors and lengths are integers.

  \<^bold>\<open>Not modelled.\<close> The messages the program logs; allocation failures of strings other than the source and
  destination of a call and the headers with a call reference; the members of MNCC messages the program never
  touches and the structures of \<open>mncc_protocol.h\<close> it never uses; signal handling, statistics and the commands that libosmocore brings
  itself. There is one MNCC connection, as in the program. The theorems on safety are about writes that succeed; what a failed write does is shown
  in \<open>Mncc_Properties\<close>, and \<open>Connection\<close> covers every result of a write.
\<close>

section \<open>The whole connector\<close>



text \<open>
  C3. The registry in every reachable state. Each call in the list exists and has at least one leg; each
  leg belongs to exactly one call of the list, as its initial or its remote leg; a call with two legs has one SIP
  leg and one MNCC leg; every pending command timer belongs to a living MNCC leg.
\<close>

theorem registry_consistent:
  assumes "reachable X w"
  shows "distinct (g_call_list w)
     \<and> (\<forall>c. c \<in> set (g_call_list w) \<longleftrightarrow> (\<exists>x. calls w c = Some x))
     \<and> (\<forall>c x. calls w c = Some x \<longrightarrow> initial x \<noteq> None \<or> remote x \<noteq> None)
     \<and> (\<forall>a l. legs w a = Some l \<longrightarrow> (\<exists>!c. \<exists>x. calls w c = Some x \<and> (initial x = Some a \<or> remote x = Some a)))
     \<and> (\<forall>c x a b. calls w c = Some x \<and> initial x = Some a \<and> remote x = Some b \<longrightarrow>
          (\<exists>k l. legs w a = Some k \<and> legs w b = Some l \<and> is_mncc k \<noteq> is_mncc l))
     \<and> (\<forall>a \<in> set (timers w). \<exists>l. legs w a = Some l \<and> is_mncc l)"
proof -
  have inv: "inv w" using reachable_safe [OF assms] by (simp add: safe_def)
  note wf = invD(1) [OF inv]
  have leg: "\<exists>!c. \<exists>x. calls w c = Some x \<and> (initial x = Some a \<or> remote x = Some a)" if l: "legs w a = Some l" for a l
  proof (rule ex_ex1I)
    show "\<exists>c x. calls w c = Some x \<and> (initial x = Some a \<or> remote x = Some a)"
      using wf_heap_leg_call [OF wf l] by metis
    show "c = d" if "\<exists>x. calls w c = Some x \<and> (initial x = Some a \<or> remote x = Some a)"
        "\<exists>x. calls w d = Some x \<and> (initial x = Some a \<or> remote x = Some a)" for c d
      using that l wf_heap_call_leg_ex [OF wf, of c _ a] wf_heap_call_leg_ex [OF wf, of d _ a] by force
  qed
  have two: "\<exists>k l. legs w a = Some k \<and> legs w b = Some l \<and> is_mncc k \<noteq> is_mncc l"
    if x: "calls w c = Some x" and a: "initial x = Some a" and b: "remote x = Some b" for c x a b
  proof -
    obtain k l where "legs w a = Some k" "legs w b = Some l" using wf_heap_call_leg_ex [OF wf x] a b by metis
    then show ?thesis using invD(5) [OF inv x] a b by (auto simp: call_ok_def)
  qed
  have one: "initial x \<noteq> None \<or> remote x \<noteq> None" if "calls w c = Some x" for c x
    using wf_heapD(3) [OF wf that] by (auto simp: call_wf_def call_legs_iff)
  have timer: "\<exists>l. legs w a = Some l \<and> is_mncc l" if "a \<in> set (timers w)" for a using wf_heapD(7) [OF wf that] .
  show ?thesis using wf_heapD(1,2) [OF wf] leg two one timer by (intro conjI allI ballI impI) (simp_all only: not_None_eq, blast+)
qed

theorem registry_consistent_witness:
  "\<exists>w. run_events (handle_event small_ext) (take 4 example_call) (booted small_config) = Inr ((), w)
     \<and> (\<exists>k l. legs w 2 = Some k \<and> legs w 3 = Some l \<and> is_mncc k \<noteq> is_mncc l)"
proof -
  obtain w where w: "run_events (handle_event small_ext) (take 4 example_call) (booted small_config) = Inr ((), w)" "reachable small_ext w"
    using reachable_run [OF small_reachable example_invited(1)] by blast
  from example_invited(2) obtain x where "calls w 1 = Some x" "initial x = Some 2" "remote x = Some 3" by (auto simp: w(1))
  with registry_consistent [OF w(2)] have "\<exists>k l. legs w 2 = Some k \<and> legs w 3 = Some l \<and> is_mncc k \<noteq> is_mncc l" by blast
  with w(1) show ?thesis by blast
qed

text \<open>
  C4. Legs are what their tag says. In every reachable state a leg tagged as MNCC is an MNCC leg with the functions of
  MNCC legs, a leg tagged as SIP is a SIP leg with the functions of SIP legs, or with none as long as
  it has no handle; a leg is the initial one of its call exactly if its direction says that it started the
  call. So every cast and every call through a function pointer meets the right kind of leg.
\<close>

theorem legs_well_typed:
  assumes "reachable X w" and "legs w a = Some l"
  shows "(\<exists>x. calls w (leg_call l) = Some x \<and> (initial x = Some a \<longleftrightarrow> leg_mo l) \<and> (remote x = Some a \<longleftrightarrow> \<not> leg_mo l))
     \<and> (case leg_object l of
          Mncc_object m \<Rightarrow> leg_type l = CALL_TYPE_MNCC \<and> release_call l = Some FP_mncc_call_leg_release
            \<and> ring_call l = Some FP_mncc_call_leg_ring \<and> connect_call l = Some FP_mncc_call_leg_connect
            \<and> update_rtp l = Some FP_update_rtp \<and> dtmf l = None \<and> hold_call l = None \<and> retrieve_call l = None
        | Sip_object s \<Rightarrow> leg_type l = CALL_TYPE_SIP \<and> update_rtp l = None
            \<and> (if nua_handle s = None then release_call l = None \<and> ring_call l = None \<and> connect_call l = None \<and> dtmf l = None
                 \<and> hold_call l = None \<and> retrieve_call l = None
               else release_call l = Some FP_sip_release_call \<and> dtmf l = Some FP_sip_dtmf_call
                 \<and> hold_call l = Some FP_sip_hold_call \<and> retrieve_call l = Some FP_sip_retrieve_call
                 \<and> ring_call l = (if sip_direction s = SIP_DIR_MO then Some FP_sip_ring_call else None)
                 \<and> connect_call l = (if sip_direction s = SIP_DIR_MO then Some FP_sip_connect_call else None)))"
proof -
  note inv = safeD(2) [OF reachable_safe [OF assms(1)]]
  obtain x where x: "calls w (leg_call l) = Some x" "initial x = Some a \<or> remote x = Some a"
    using wf_heap_leg_call [OF heap_invD(1) [OF inv] assms(2)] by blast
  have "initial x = Some a \<longrightarrow> leg_mo l" "remote x = Some a \<longrightarrow> \<not> leg_mo l"
    using heap_invD(3) [OF inv x(1)] assms(2) by (auto simp: call_ok_def)
  moreover have "leg_ok l" using heap_invD(2) [OF inv assms(2)] .
  ultimately show ?thesis using x
    by (cases "leg_object l")
       (auto simp: leg_ok_def ident_def mncc_identity_def sip_identity_def bare_identity_def is_mncc_def leg_handle_def leg_mo_def)
qed

theorem legs_well_typed_witness:
  "\<exists>w l. run_events (handle_event small_ext) (take 4 example_call) (booted small_config) = Inr ((), w)
     \<and> legs w 3 = Some l \<and> leg_type l = CALL_TYPE_SIP \<and> release_call l = Some FP_sip_release_call"
proof -
  obtain w where w: "run_events (handle_event small_ext) (take 4 example_call) (booted small_config) = Inr ((), w)" "reachable small_ext w"
    using reachable_run [OF small_reachable example_invited(1)] by blast
  obtain l where l: "legs w 3 = Some l" "leg_handle l = Some 4" using example_invited(3) by (auto simp: w(1) split: option.splits)
  from legs_well_typed [OF w(2) l(1)] l w(1) show ?thesis by (auto simp: leg_handle_def split: leg_object.splits)
qed

text \<open>
  C2. The SIP stack never holds a dangling pointer. In every reachable state, a handle that was bound and not destroyed is
  bound to a living SIP leg that carries this handle and is linked from a listed call; no other handle is bound
  to that leg. So a leg is never freed before its handle is destroyed, and the pointer that comes back
  with an event of the handle is valid.
\<close>

theorem handles_never_dangle:
  assumes "reachable X w" and "bindings w h = Some a"
  shows "\<exists>l x s. legs w a = Some l \<and> leg_object l = Sip_object s \<and> nua_handle s = Some h
     \<and> leg_call l \<in> set (g_call_list w) \<and> calls w (leg_call l) = Some x \<and> (initial x = Some a \<or> remote x = Some a)
     \<and> (\<forall>h'. bindings w h' = Some a \<longrightarrow> h' = h)"
proof -
  have g: "safe w" "handles_ok w" using reachable_good [OF assms(1)] by (simp_all add: good_def)
  obtain l x where l: "legs w a = Some l" "leg_handle l = Some h" "calls w (leg_call l) = Some x" "initial x = Some a \<or> remote x = Some a"
    by (rule handles_okE [OF g(2) assms(2)])
  moreover obtain s where "leg_object l = Sip_object s" "nua_handle s = Some h"
    using l(2) by (cases "leg_object l") (simp_all add: leg_handle_def)
  moreover have "leg_call l \<in> set (g_call_list w)" using wf_heapD(2) [OF safeD(3) [OF g(1)]] l(3) by blast
  moreover have "h' = h" if "bindings w h' = Some a" for h' using handles_okE [OF g(2) that] l(1,2) by fastforce
  ultimately show ?thesis by blast
qed

theorem handles_never_dangle_witness:
  "\<exists>w l s. run_events (handle_event small_ext) (take 4 example_call) (booted small_config) = Inr ((), w)
     \<and> bindings w 4 = Some 3 \<and> legs w 3 = Some l \<and> leg_object l = Sip_object s \<and> nua_handle s = Some 4"
proof -
  obtain w where w: "run_events (handle_event small_ext) (take 4 example_call) (booted small_config) = Inr ((), w)" "reachable small_ext w"
    using reachable_run [OF small_reachable example_invited(1)] by blast
  have b: "bindings w 4 = Some 3" using example_invited(4) by (simp add: w(1))
  from handles_never_dangle [OF w(2) b] w(1) b show ?thesis by blast
qed

text \<open>
  C6. The MNCC connection in every reachable state. It is down exactly while its socket is closed and
  exactly while an attempt to connect is scheduled, so it is never given up; and while it is down
  no call has an MNCC leg and no command timer runs.
\<close>

theorem connection_consistent:
  assumes "reachable X w"
  shows "(conn_state (conn w) = MNCC_DISCONNECTED \<longleftrightarrow> conn_fd (conn w) < 0)
     \<and> (conn_state (conn w) = MNCC_DISCONNECTED \<longleftrightarrow> reconnect_pending (conn w))
     \<and> (conn_state (conn w) = MNCC_DISCONNECTED \<longrightarrow> timers w = [] \<and> (\<forall>a l. legs w a = Some l \<longrightarrow> \<not> is_mncc l))"
proof -
  have inv: "inv w" using reachable_safe [OF assms] by (simp add: safe_def)
  note c = invD(3) [OF inv]
  have "timers w = []" if "\<forall>a l. legs w a = Some l \<longrightarrow> \<not> is_mncc l"
    using wf_heapD(7) [OF invD(1) [OF inv]] that by (metis last_in_set)
  then show ?thesis using c by (auto simp: conn_ok_def)
qed

theorem connection_consistent_witness: "reconnect_pending (conn (booted small_config))"
  using connection_consistent [where X = small_ext, OF small_reachable] by (simp add: booted_def)



section \<open>A call refused with an answer\<close>

lemma cause16_status: "sip_status (cause2status 16) = 200"
  by code_simp

text \<open>
  C35. Normal clearing answers an INVITE. When the mobile does not take a call from SIP and the MSC clears it with the
  cause normal call clearing (16), the caller's INVITE is answered with 200, as if the call had been accepted, without a
  media description and with a Reason header; then the handle is destroyed and the leg freed.
\<close>

theorem clearing_answers_invite:
  assumes "reachable X w" and "0 \<le> conn_fd (conn w)" and "x_sizeof_mncc X \<le> rc" and "4 < rc" and "as_msg_type buf = MNCC_DISC_IND"
    and "lookup_callref w (mncc_callref (as_mncc buf)) (g_call_list w) = Some a"
    and "legs w a = Some l" and "leg_object l = Mncc_object m" and "calls w (leg_call l) = Some x"
    and "other_leg a x = Some b" and "legs w b = Some k" and "leg_object k = Sip_object s"
    and "sip_state s = SIP_CC_DLG_CNFD" and "sip_direction s = SIP_DIR_MO" and "cause_value (mncc_cause (as_mncc buf)) = 16"
  shows "\<exists>w'. handle_event X (Mncc_packet buf rc) w = Inr ((), w') \<and> legs w' b = None
     \<and> out w' = out w @ [Tx_mncc (cause_msg MNCC_REL_REQ (callref m) (cause l)),
         Nua_respond (nua_handle s) 200 (Some (release_reason 16)) None, Nua_handle_destroy (nua_handle s)]"
proof -
  have "connected w" using reachable_safe [OF assms(1)] assms(2) by (simp add: connected_safe)
  from disc_ind_both [OF this assms(3-12)] assms(13-15) show ?thesis
    by (auto simp: handle_event_def wp_iff_run sip_release_actions_def sip_ends_at_once_def cause16_status)
qed

text \<open>An INVITE on the handle 9 arrives and is offered to the MSC under the reference 5001.\<close>

definition example_invite :: "event list" where
  "example_invite = [Reconnect 5, Mncc_packet (example_buf MNCC_SOCKET_HELLO zero_mncc) sizeof_hello,
     Sip_callback nua_i_invite 100 9 None (Some example_sip)]"

definition example_clear :: mncc_buf where
  "example_clear = example_buf MNCC_DISC_IND (cause_msg MNCC_DISC_IND 5001 16)"

definition offered_from_sip :: "world \<Rightarrow> mncc_buf \<Rightarrow> bool" where
  "offered_from_sip w buf = (case lookup_callref w (mncc_callref (as_mncc buf)) (g_call_list w) of None \<Rightarrow> False | Some a \<Rightarrow>
     (case legs w a of None \<Rightarrow> False | Some l \<Rightarrow> (case calls w (leg_call l) of None \<Rightarrow> False | Some x \<Rightarrow>
     (case other_leg a x of None \<Rightarrow> False | Some b \<Rightarrow> (case legs w b of None \<Rightarrow> False | Some k \<Rightarrow>
     (case (leg_object l, leg_object k) of (Mncc_object m, Sip_object s) \<Rightarrow> sip_state s = SIP_CC_DLG_CNFD \<and> sip_direction s = SIP_DIR_MO
        \<and> nua_handle s = Some 9 | _ \<Rightarrow> False))))))"

lemma example_invite_run:
  "all_allowed (handle_event small_ext) possible example_invite (booted small_config)"
  "case run_events (handle_event small_ext) example_invite (booted small_config) of Inl f \<Rightarrow> False
   | Inr (_, w) \<Rightarrow> 0 \<le> conn_fd (conn w) \<and> offered_from_sip w example_clear"
  by code_simp+

theorem clearing_answers_witness:
  "\<exists>w w'. run_events (handle_event small_ext) example_invite (booted small_config) = Inr ((), w)
     \<and> handle_event small_ext (Mncc_packet example_clear 2208) w = Inr ((), w')
     \<and> Nua_respond (Some 9) 200 (Some (release_reason 16)) None \<in> set (out w')"
proof -
  obtain w where w: "run_events (handle_event small_ext) example_invite (booted small_config) = Inr ((), w)" "reachable small_ext w"
    using reachable_run [OF small_reachable example_invite_run(1)] by blast
  have c: "0 \<le> conn_fd (conn w)" "offered_from_sip w example_clear" using example_invite_run(2) by (simp_all add: w(1))
  then obtain a l x b k m s where f: "lookup_callref w (mncc_callref (as_mncc example_clear)) (g_call_list w) = Some a"
      "legs w a = Some l" "leg_object l = Mncc_object m" "calls w (leg_call l) = Some x" "other_leg a x = Some b"
      "legs w b = Some k" "leg_object k = Sip_object s" "sip_state s = SIP_CC_DLG_CNFD" "sip_direction s = SIP_DIR_MO" "nua_handle s = Some 9"
    by (auto simp: offered_from_sip_def split: option.splits leg_object.splits)
  have b: "x_sizeof_mncc small_ext \<le> 2208" "as_msg_type example_clear = MNCC_DISC_IND" "cause_value (mncc_cause (as_mncc example_clear)) = 16"
    by (simp_all add: example_clear_def example_buf_def cause_msg_def small_ext_def example_ext_def)
  from clearing_answers_invite [OF w(2) c(1) b(1) _ b(2) f(1-9) b(3)] f(10) w(1) show ?thesis by fastforce
qed

end
